(* ===== verification/Prelude.thy ===== *)
theory Prelude
  imports Main "HOL-Library.Word"
begin

text \<open>
  What every component of the development shares: the names of the machine types of the
  Go code, the byte order used on the wire, a few list and word lemmas, the collections
  that the component proofs pass to the simplifier, and two interfaces.

  \<^item> \<open>codec\<close> is the contract of an encoder and its decoder. The HID-RPC framing and the
    Annex-B byte stream are its two instances.
  \<^item> \<open>run_invariant\<close> is the contract of a deterministic machine whose steps keep an
    invariant. The RTP trackers and the frame store are its instances.

  Go's \<open>byte\<close>, \<open>uint16\<close>, \<open>uint32\<close> and \<open>uint64\<close> are words. Go's \<open>int\<close> is
  modelled by \<open>int\<close>, and where its 64-bit width could matter the component proves that
  its arithmetic stays inside it. A Go string is modelled as the list of code points that
  Go's own \<open>range\<close> loop yields for it.
\<close>

unbundle bit_operations_syntax

section \<open>Machine types\<close>

type_synonym byte = "8 word"
type_synonym u16 = "16 word"
type_synonym u32 = "32 word"
type_synonym u64 = "64 word"

type_synonym rune = int
type_synonym text_runes = "rune list"

definition runes :: "string \<Rightarrow> text_runes" where
  "runes s = map (\<lambda>c. int (of_char c)) s"

lemma length_runes [simp]: "length (runes s) = length s"
  by (simp add: runes_def)

named_theorems bound_defs \<open>numeric bounds of the wire formats\<close>
named_theorems op_defs \<open>definitions of the operations of a component\<close>

section \<open>Errors as values\<close>

definition is_ok :: "'e + 'a \<Rightarrow> bool" where
  "is_ok r = (case r of Inl _ \<Rightarrow> False | Inr _ \<Rightarrow> True)"

lemma is_ok_simps [simp]: "is_ok (Inl e) = False" "is_ok (Inr a) = True"
  by (simp_all add: is_ok_def)

lemma is_ok_iff: "is_ok r \<longleftrightarrow> (\<exists>a. r = Inr a)"
  by (cases r) auto

text \<open>The early return \<open>if err != nil { return ..., err }\<close>.\<close>

lemma try_Inr_iff [simp]:
  "(case r of Inl e \<Rightarrow> Inl (g e) | Inr a \<Rightarrow> f a) = Inr b \<longleftrightarrow> (\<exists>a. r = Inr a \<and> f a = Inr b)"
  by (cases r) auto

lemma try_is_ok_iff [simp]:
  "is_ok (case r of Inl e \<Rightarrow> Inl (g e) | Inr a \<Rightarrow> f a) \<longleftrightarrow> (\<exists>a. r = Inr a \<and> is_ok (f a))"
  by (cases r) auto

section \<open>Big-endian 32-bit integers\<close>

text \<open>\<open>binary.BigEndian.PutUint32\<close> and \<open>Uint32\<close>.\<close>

definition put_u32_be :: "u32 \<Rightarrow> byte list" where
  "put_u32_be w = [ucast (drop_bit 24 w), ucast (drop_bit 16 w), ucast (drop_bit 8 w), ucast w]"

definition get_u32_be :: "byte list \<Rightarrow> u32" where
  "get_u32_be bs = (case bs of
      [a, b, c, d] \<Rightarrow>
        push_bit 24 (ucast a) OR push_bit 16 (ucast b) OR push_bit 8 (ucast c) OR ucast d
    | _ \<Rightarrow> 0)"

lemma length_put_u32_be [simp]: "length (put_u32_be w) = 4"
  by (simp add: put_u32_be_def)

lemma get_put_u32_be [simp]: "get_u32_be (put_u32_be w) = w"
proof (rule bit_word_eqI)
  fix n
  assume "n < LENGTH(32)"
  then have n: "n < 32" by simp
  then consider "n < 8" | "8 \<le> n" "n < 16" | "16 \<le> n" "n < 24" | "24 \<le> n" by linarith
  then show "bit (get_u32_be (put_u32_be w)) n = bit w n"
    using n by cases (auto simp: get_u32_be_def put_u32_be_def bit_simps)
qed

section \<open>Interfaces\<close>

locale codec =
  fixes encode :: "'a \<Rightarrow> 'w"
    and decode :: "'w \<Rightarrow> 'a option"
    and valid :: "'a \<Rightarrow> bool"
  assumes decode_encode: "valid m \<Longrightarrow> decode (encode m) = Some m"
begin

lemma encode_inj: "valid a \<Longrightarrow> valid b \<Longrightarrow> encode a = encode b \<Longrightarrow> a = b"
  by (metis decode_encode option.inject)

lemma encode_inj_on: "inj_on encode {m. valid m}"
  by (auto simp: inj_on_def intro: encode_inj)

lemma decode_all:
  "\<forall>m \<in> set ms. valid m \<Longrightarrow> map (decode \<circ> encode) ms = map Some ms"
  by (induction ms) (auto simp: decode_encode)

end

locale run_invariant =
  fixes step :: "'e \<Rightarrow> 's \<Rightarrow> 's"
    and admissible :: "'e \<Rightarrow> bool"
    and inv :: "'s \<Rightarrow> bool"
  assumes step_inv: "admissible e \<Longrightarrow> inv s \<Longrightarrow> inv (step e s)"
begin

lemma run_inv: "\<forall>e \<in> set es. admissible e \<Longrightarrow> inv s \<Longrightarrow> inv (fold step es s)"
  by (induction es arbitrary: s) (auto intro: step_inv)

lemma run_split_inv:
  "\<forall>e \<in> set (es @ fs). admissible e \<Longrightarrow> inv s \<Longrightarrow> inv (fold step es s) \<and> inv (fold step (es @ fs) s)"
  using run_inv [of es s] run_inv [of "es @ fs" s] by simp

end

end
