(* ===== verification/Hidproto.thy ===== *)
theory Hidproto
  imports Prelude
begin

text \<open>
  The HID-RPC wire format, \<open>internal/kvmclient/hidproto/hidproto.go\<close>: a frame is one
  type byte and a payload. Every encoder of the file is here with its guards, and the
  decoders of both ends: \<open>Unmarshal\<close>, \<open>DecodeKeydownState\<close>, and the device end as
  \<open>internal/fakedevice/fakedevice.go\<close> reads it (\<open>recordHID\<close>).

  The lemmas show the framing is a codec, that a report the encoder accepts is read back
  by the device with the same coordinates and buttons, and that the encoders reject
  exactly what is outside the report descriptor.
\<close>

section \<open>Message types and bounds\<close>

type_synonym message_type = byte

definition TypeHandshake :: message_type where "TypeHandshake = 0x01"
definition TypeKeyboardReport :: message_type where "TypeKeyboardReport = 0x02"
definition TypePointerReport :: message_type where "TypePointerReport = 0x03"
definition TypeWheelReport :: message_type where "TypeWheelReport = 0x04"
definition TypeKeyboardMacroReport :: message_type where "TypeKeyboardMacroReport = 0x07"
definition TypeKeyboardLedState :: message_type where "TypeKeyboardLedState = 0x32"
definition TypeKeyboardMacroState :: message_type where "TypeKeyboardMacroState = 0x34"
definition TypeKeypressReport :: message_type where "TypeKeypressReport = 0x05"
definition TypeMouseReport :: message_type where "TypeMouseReport = 0x06"
definition TypeCancelKeyboardMacroReport :: message_type where
  "TypeCancelKeyboardMacroReport = 0x08"
definition TypeKeypressKeepAliveReport :: message_type where
  "TypeKeypressKeepAliveReport = 0x09"
definition TypeKeydownState :: message_type where "TypeKeydownState = 0x33"

definition ProtocolVersion :: byte where "ProtocolVersion = 0x01"
definition HIDKeyBufferSize :: nat where "HIDKeyBufferSize = 6"
definition MaxAbsoluteCoordinate :: int where "MaxAbsoluteCoordinate = 32767"
definition MaxAbsoluteButtonMask :: int where "MaxAbsoluteButtonMask = 2 ^ 5 - 1"
definition MaxRelativeMouseDelta :: int where "MaxRelativeMouseDelta = 127"

lemmas message_type_defs = TypeHandshake_def TypeKeyboardReport_def TypePointerReport_def
  TypeKeypressReport_def TypeMouseReport_def TypeCancelKeyboardMacroReport_def
  TypeKeypressKeepAliveReport_def TypeKeydownState_def ProtocolVersion_def

declare HIDKeyBufferSize_def [bound_defs] MaxAbsoluteCoordinate_def [bound_defs]
  MaxAbsoluteButtonMask_def [bound_defs] MaxRelativeMouseDelta_def [bound_defs]

section \<open>Framing\<close>

record message =
  msg_type :: message_type
  msg_payload :: "byte list"

datatype proto_error =
    InvalidMessageType byte
  | InvalidDataLength nat
  | TooManyKeys nat
  | XOutOfRange int
  | YOutOfRange int
  | ButtonsOutOfRange byte
  | DeltaOutOfRange
  | NotKeydownState byte
  | KeydownPayloadTooShort nat

definition Marshal :: "message \<Rightarrow> proto_error + byte list" where
  "Marshal m =
    (if msg_type m = 0 then Inl (InvalidMessageType (msg_type m))
     else Inr (msg_type m # msg_payload m))"

definition Unmarshal :: "byte list \<Rightarrow> proto_error + message" where
  "Unmarshal data = (case data of
      [] \<Rightarrow> Inl (InvalidDataLength 0)
    | t # payload \<Rightarrow> Inr \<lparr>msg_type = t, msg_payload = payload\<rparr>)"

section \<open>Encoders\<close>

definition EncodeHandshake :: "proto_error + byte list" where
  "EncodeHandshake = Marshal \<lparr>msg_type = TypeHandshake, msg_payload = [ProtocolVersion]\<rparr>"

definition EncodeKeyboardReport :: "byte \<Rightarrow> byte list \<Rightarrow> proto_error + byte list" where
  "EncodeKeyboardReport modifier keys =
    (if length keys > HIDKeyBufferSize then Inl (TooManyKeys (length keys))
     else Marshal \<lparr>msg_type = TypeKeyboardReport, msg_payload = modifier # keys\<rparr>)"

definition ReleaseAllKeyboardReport :: "proto_error + byte list" where
  "ReleaseAllKeyboardReport = EncodeKeyboardReport 0 (replicate HIDKeyBufferSize 0)"

definition EncodeKeypressReport :: "byte \<Rightarrow> bool \<Rightarrow> proto_error + byte list" where
  "EncodeKeypressReport key press =
    Marshal \<lparr>msg_type = TypeKeypressReport, msg_payload = [key, if press then 1 else 0]\<rparr>"

definition EncodeKeypressKeepAlive :: "proto_error + byte list" where
  "EncodeKeypressKeepAlive = Marshal \<lparr>msg_type = TypeKeypressKeepAliveReport, msg_payload = []\<rparr>"

text \<open>Coordinates are Go's signed \<open>int32\<close>; the comparisons read them with \<open>sint\<close>.\<close>

definition EncodePointerReport :: "u32 \<Rightarrow> u32 \<Rightarrow> byte \<Rightarrow> proto_error + byte list" where
  "EncodePointerReport x y buttons =
    (if sint x < 0 \<or> sint x > MaxAbsoluteCoordinate then Inl (XOutOfRange (sint x))
     else if sint y < 0 \<or> sint y > MaxAbsoluteCoordinate then Inl (YOutOfRange (sint y))
     else if uint buttons > MaxAbsoluteButtonMask then Inl (ButtonsOutOfRange buttons)
     else Marshal \<lparr>msg_type = TypePointerReport,
                   msg_payload = put_u32_be x @ put_u32_be y @ [buttons]\<rparr>)"

text \<open>The deltas are Go's \<open>int8\<close>: \<open>-128\<close> fits the type and is refused.\<close>

definition EncodeMouseReport :: "byte \<Rightarrow> byte \<Rightarrow> byte \<Rightarrow> proto_error + byte list" where
  "EncodeMouseReport dx dy buttons =
    (if sint dx < - MaxRelativeMouseDelta \<or> sint dy < - MaxRelativeMouseDelta
     then Inl DeltaOutOfRange
     else Marshal \<lparr>msg_type = TypeMouseReport, msg_payload = [dx, dy, buttons]\<rparr>)"

definition ReleaseAllMouseReport :: "proto_error + byte list" where
  "ReleaseAllMouseReport = EncodeMouseReport 0 0 0"

definition EncodeCancelKeyboardMacro :: "proto_error + byte list" where
  "EncodeCancelKeyboardMacro =
    Marshal \<lparr>msg_type = TypeCancelKeyboardMacroReport, msg_payload = []\<rparr>"

section \<open>Decoders\<close>

record keydown_state =
  kd_modifier :: byte
  kd_keys :: "byte list"

definition DecodeKeydownState :: "message \<Rightarrow> proto_error + keydown_state" where
  "DecodeKeydownState m =
    (if msg_type m \<noteq> TypeKeydownState then Inl (NotKeydownState (msg_type m))
     else case msg_payload m of
        [] \<Rightarrow> Inl (KeydownPayloadTooShort 0)
      | k # ks \<Rightarrow> Inr \<lparr>kd_modifier = k, kd_keys = ks\<rparr>)"

fun all_zero :: "byte list \<Rightarrow> bool" where
  "all_zero [] = True"
| "all_zero (k # ks) = (if k \<noteq> 0 then False else all_zero ks)"

definition IsReleaseAll :: "keydown_state \<Rightarrow> bool" where
  "IsReleaseAll s = (if kd_modifier s \<noteq> 0 then False else all_zero (kd_keys s))"

text \<open>
  The device end. The firmware keeps one state per USB gadget interface: the fake device's
  \<open>recordHID\<close> keeps the absolute pointer and the relative mouse.
\<close>

record absolute_mouse =
  am_x :: u32
  am_y :: u32
  am_buttons :: byte
  am_reports :: nat

record relative_mouse =
  rm_buttons :: byte
  rm_reports :: nat

record device =
  hid_requests :: nat
  hidg1 :: absolute_mouse
  hidg2 :: relative_mouse

definition device_init :: device where
  "device_init = \<lparr>hid_requests = 0,
     hidg1 = \<lparr>am_x = 0, am_y = 0, am_buttons = 0, am_reports = 0\<rparr>,
     hidg2 = \<lparr>rm_buttons = 0, rm_reports = 0\<rparr>\<rparr>"

definition recordHID :: "message \<Rightarrow> device \<Rightarrow> device" where
  "recordHID m d =
    (let d = d\<lparr>hid_requests := hid_requests d + 1\<rparr>; p = msg_payload m in
     if msg_type m = TypePointerReport then
       (if length p = 9 then
          d\<lparr>hidg1 := \<lparr>am_x = get_u32_be (take 4 p), am_y = get_u32_be (take 4 (drop 4 p)),
                     am_buttons = p ! 8, am_reports = am_reports (hidg1 d) + 1\<rparr>\<rparr>
        else d)
     else if msg_type m = TypeMouseReport then
       (if length p = 3 then
          d\<lparr>hidg2 := \<lparr>rm_buttons = p ! 2, rm_reports = rm_reports (hidg2 d) + 1\<rparr>\<rparr>
        else d)
     else d)"

text \<open>
  The device's handler of the \<open>hidrpc\<close> channel: a handshake frame is echoed back, any
  other well-formed frame goes to \<open>recordHID\<close>. The result pairs the echoed frame, if
  any, with the new state.
\<close>

definition device_receive :: "byte list \<Rightarrow> device \<Rightarrow> byte list option \<times> device" where
  "device_receive data d = (case Unmarshal data of
      Inl _ \<Rightarrow> (None, d)
    | Inr m \<Rightarrow> (if msg_type m = TypeHandshake then (Some data, d) else (None, recordHID m d)))"

declare Marshal_def [op_defs] Unmarshal_def [op_defs] EncodeHandshake_def [op_defs]
  EncodeKeyboardReport_def [op_defs] ReleaseAllKeyboardReport_def [op_defs]
  EncodeKeypressReport_def [op_defs] EncodeKeypressKeepAlive_def [op_defs]
  EncodePointerReport_def [op_defs] EncodeMouseReport_def [op_defs]
  ReleaseAllMouseReport_def [op_defs] EncodeCancelKeyboardMacro_def [op_defs]

section \<open>Framing is a codec\<close>

definition wire_valid :: "message \<Rightarrow> bool" where
  "wire_valid m \<longleftrightarrow> msg_type m \<noteq> 0"

definition marshal_bytes :: "message \<Rightarrow> byte list" where
  "marshal_bytes m = (case Marshal m of Inl _ \<Rightarrow> [] | Inr bs \<Rightarrow> bs)"

definition unmarshal_option :: "byte list \<Rightarrow> message option" where
  "unmarshal_option bs = (case Unmarshal bs of Inl _ \<Rightarrow> None | Inr m \<Rightarrow> Some m)"

interpretation framing: codec marshal_bytes unmarshal_option wire_valid
  by unfold_locales
    (simp add: wire_valid_def marshal_bytes_def unmarshal_option_def Marshal_def Unmarshal_def)

lemma Marshal_Inr_iff: "Marshal m = Inr bs \<longleftrightarrow> wire_valid m \<and> bs = msg_type m # msg_payload m"
  by (auto simp: Marshal_def wire_valid_def)

lemma Unmarshal_Cons [simp]: "Unmarshal (t # p) = Inr \<lparr>msg_type = t, msg_payload = p\<rparr>"
  by (simp add: Unmarshal_def)

lemma Unmarshal_Marshal: "Marshal m = Inr bs \<Longrightarrow> Unmarshal bs = Inr m"
  by (auto simp: Marshal_Inr_iff)

lemma Marshal_Unmarshal: "Unmarshal bs = Inr m \<Longrightarrow> wire_valid m \<Longrightarrow> Marshal m = Inr bs"
  by (cases bs) (auto simp: Unmarshal_def Marshal_Inr_iff)

section \<open>What the encoders accept and send\<close>

definition pointer_in_range :: "u32 \<Rightarrow> u32 \<Rightarrow> byte \<Rightarrow> bool" where
  "pointer_in_range x y buttons \<longleftrightarrow>
     0 \<le> sint x \<and> sint x \<le> 32767 \<and> 0 \<le> sint y \<and> sint y \<le> 32767 \<and> uint buttons \<le> 31"

lemma EncodePointerReport_Inr_iff:
  "EncodePointerReport x y b = Inr bs \<longleftrightarrow>
     pointer_in_range x y b \<and> bs = TypePointerReport # put_u32_be x @ put_u32_be y @ [b]"
  by (auto simp: EncodePointerReport_def Marshal_def message_type_defs bound_defs
      pointer_in_range_def split: if_splits)

lemma EncodeMouseReport_Inr_iff:
  "EncodeMouseReport dx dy b = Inr bs \<longleftrightarrow>
     - 127 \<le> sint dx \<and> - 127 \<le> sint dy \<and> bs = [TypeMouseReport, dx, dy, b]"
  by (auto simp: EncodeMouseReport_def Marshal_def message_type_defs bound_defs split: if_splits)

lemma EncodeKeyboardReport_Inr_iff:
  "EncodeKeyboardReport m ks = Inr bs \<longleftrightarrow> length ks \<le> 6 \<and> bs = TypeKeyboardReport # m # ks"
  by (auto simp: EncodeKeyboardReport_def Marshal_def message_type_defs bound_defs split: if_splits)

lemma EncodeHandshake_eq: "EncodeHandshake = Inr [1, 1]"
  by (simp add: EncodeHandshake_def Marshal_def message_type_defs)

lemma ReleaseAllKeyboardReport_eq:
  "ReleaseAllKeyboardReport = Inr (TypeKeyboardReport # 0 # replicate 6 0)"
  by (simp add: ReleaseAllKeyboardReport_def EncodeKeyboardReport_Inr_iff bound_defs)

lemma ReleaseAllMouseReport_eq: "ReleaseAllMouseReport = Inr [TypeMouseReport, 0, 0, 0]"
  by (simp add: ReleaseAllMouseReport_def EncodeMouseReport_Inr_iff)

lemma IsReleaseAll_iff:
  "IsReleaseAll s \<longleftrightarrow> kd_modifier s = 0 \<and> (\<forall>k \<in> set (kd_keys s). k = 0)"
proof -
  have "all_zero ks \<longleftrightarrow> (\<forall>k \<in> set ks. k = 0)" for ks
    by (induction ks) auto
  then show ?thesis by (simp add: IsReleaseAll_def)
qed

lemma DecodeKeydownState_Inr_iff:
  "DecodeKeydownState m = Inr s \<longleftrightarrow>
     msg_type m = TypeKeydownState \<and> msg_payload m = kd_modifier s # kd_keys s"
  by (auto simp: DecodeKeydownState_def split: list.splits if_splits)

lemma device_receive_pointer:
  "device_receive (TypePointerReport # put_u32_be x @ put_u32_be y @ [b]) d =
     (None, d\<lparr>hid_requests := hid_requests d + 1,
              hidg1 := \<lparr>am_x = x, am_y = y, am_buttons = b,
                        am_reports = am_reports (hidg1 d) + 1\<rparr>\<rparr>)"
  by (simp add: device_receive_def recordHID_def message_type_defs nth_append)

lemma device_receive_mouse:
  "device_receive [TypeMouseReport, dx, dy, b] d =
     (None, d\<lparr>hid_requests := hid_requests d + 1,
              hidg2 := \<lparr>rm_buttons = b, rm_reports = rm_reports (hidg2 d) + 1\<rparr>\<rparr>)"
  by (simp add: device_receive_def recordHID_def message_type_defs)

lemma device_receive_keyboard:
  "device_receive (TypeKeyboardReport # p) d = (None, d\<lparr>hid_requests := hid_requests d + 1\<rparr>)"
  by (simp add: device_receive_def recordHID_def message_type_defs)

section \<open>Properties\<close>

text \<open>
  Every frame \<open>Marshal\<close> produces is decoded by \<open>Unmarshal\<close> into the message that was
  encoded, and \<open>Unmarshal\<close> loses nothing: encoding its result gives the frame back, unless
  the type byte is the invalid type 0.
\<close>

theorem framing_roundtrip:
  "Marshal m = Inr bs \<longleftrightarrow> Unmarshal bs = Inr m \<and> msg_type m \<noteq> 0"
  using Unmarshal_Marshal Marshal_Unmarshal
  by (auto simp: Marshal_Inr_iff wire_valid_def)

text \<open>
  A pointer report is accepted exactly when both coordinates are in \<open>[0,32767]\<close> and the
  button mask fits five bits; the frame is ten bytes long, and the device that receives it
  ends with exactly these coordinates and buttons on its absolute interface, the relative
  one untouched.
\<close>

theorem pointer_report_end_to_end:
  "(is_ok (EncodePointerReport x y b) \<longleftrightarrow> pointer_in_range x y b) \<and>
   (EncodePointerReport x y b = Inr bs \<longrightarrow>
      length bs = 10 \<and>
      (let d' = snd (device_receive bs d) in
         am_x (hidg1 d') = x \<and> am_y (hidg1 d') = y \<and> am_buttons (hidg1 d') = b \<and>
         hidg2 d' = hidg2 d))"
  by (auto simp: is_ok_iff EncodePointerReport_Inr_iff device_receive_pointer Let_def)

theorem pointer_report_end_to_end_witness:
  "length [3, 0, 0, 1, 2, 0, 0, 3, 4, 1 :: byte] = 10 \<and>
   am_x (hidg1 (snd (device_receive [3, 0, 0, 1, 2, 0, 0, 3, 4, 1] device_init))) = 258"
proof -
  have "EncodePointerReport 258 772 1 = Inr [3, 0, 0, 1, 2, 0, 0, 3, 4, 1]"
    by (simp add: EncodePointerReport_Inr_iff pointer_in_range_def put_u32_be_def message_type_defs)
  with pointer_report_end_to_end [of 258 772 1 "[3, 0, 0, 1, 2, 0, 0, 3, 4, 1]" device_init]
  show ?thesis by (simp only: Let_def)
qed

end
