(* ===== verification/Control_Validation.thy ===== *)
theory Control_Validation
  imports Hidproto "HOL-Library.Signed_Division"
begin

text \<open>
  The integer checks every input passes before it is narrowed to wire bytes
  (\<open>control_validation.go\<close>), the named mouse buttons (\<open>mouse_button.go\<close>) and the drag
  gesture builder (\<open>pointer_drag.go\<close>, \<open>BuildPointerDrag\<close> of \<open>charly_extension.go\<close>).

  The lemmas show that what the checks accept survives the narrowing unchanged, that the
  builder's gesture has the promised shape and passes the checks it is sent through, and
  that the arithmetic of the interpolation stays far inside Go's 64-bit \<open>int\<close>.
\<close>

section \<open>Validators\<close>

definition MaxPointerButtonMask :: int where "MaxPointerButtonMask = MaxAbsoluteButtonMask"
definition MaxScrollDelta :: int where "MaxScrollDelta = MaxRelativeMouseDelta"
definition MaxKeySequenceLength :: int where "MaxKeySequenceLength = 64"
definition MaxHoldMS :: int where "MaxHoldMS = 5000"

declare MaxPointerButtonMask_def [bound_defs] MaxScrollDelta_def [bound_defs]
  MaxKeySequenceLength_def [bound_defs] MaxHoldMS_def [bound_defs]

datatype control_error =
    KeyRange int
  | ModifierRange int
  | ComboTooManyKeys nat
  | ComboKeyRange nat int
  | ComboEmpty
  | HoldRange int
  | SequenceLength int
  | ButtonsRange int
  | GestureButtonsRange int
  | CoordinatesRange int int
  | ScrollRange int int
  | ScrollZero
  | DragEmpty
  | DragTooLong nat
  | DragReport nat control_error
  | DragNoButton
  | DragStart control_error
  | DragDestination control_error
  | DragSteps int
  | UnknownMouseButton
  | UnknownMouseAction
  | InvalidMouseButton

definition ValidateKeypress :: "int \<Rightarrow> int \<Rightarrow> control_error + unit" where
  "ValidateKeypress key modifier =
    (if key < 0 \<or> key > 255 then Inl (KeyRange key)
     else if modifier < 0 \<or> modifier > 255 then Inl (ModifierRange modifier)
     else Inr ())"

text \<open>The loop of \<open>ValidateKeyCombo\<close> over the key array, with the running \<open>hasKey\<close>.\<close>

fun check_combo_keys :: "nat \<Rightarrow> bool \<Rightarrow> int list \<Rightarrow> control_error + bool" where
  "check_combo_keys i has_key [] = Inr has_key"
| "check_combo_keys i has_key (k # ks) =
    (if k < 0 \<or> k > 255 then Inl (ComboKeyRange i k)
     else check_combo_keys (Suc i) (if k \<noteq> 0 then True else has_key) ks)"

definition ValidateKeyCombo :: "int \<Rightarrow> int list \<Rightarrow> control_error + unit" where
  "ValidateKeyCombo modifier keys =
    (if modifier < 0 \<or> modifier > 255 then Inl (ModifierRange modifier)
     else if length keys > HIDKeyBufferSize then Inl (ComboTooManyKeys (length keys))
     else case check_combo_keys 0 False keys of
        Inl e \<Rightarrow> Inl e
      | Inr has_key \<Rightarrow> (if modifier = 0 \<and> \<not> has_key then Inl ComboEmpty else Inr ()))"

definition ValidateHoldMS :: "int \<Rightarrow> control_error + unit" where
  "ValidateHoldMS hold = (if hold < 1 \<or> hold > MaxHoldMS then Inl (HoldRange hold) else Inr ())"

definition ValidateKeySequenceLength :: "int \<Rightarrow> control_error + unit" where
  "ValidateKeySequenceLength n =
    (if n < 1 \<or> n > MaxKeySequenceLength then Inl (SequenceLength n) else Inr ())"

definition validatePointerCoordinates :: "int \<Rightarrow> int \<Rightarrow> control_error + unit" where
  "validatePointerCoordinates x y =
    (if x < 0 \<or> x > MaxAbsoluteCoordinate \<or> y < 0 \<or> y > MaxAbsoluteCoordinate
     then Inl (CoordinatesRange x y) else Inr ())"

definition ValidatePointer :: "int \<Rightarrow> int \<Rightarrow> int \<Rightarrow> control_error + unit" where
  "ValidatePointer x y buttons = (case validatePointerCoordinates x y of
      Inl e \<Rightarrow> Inl e
    | Inr _ \<Rightarrow> (if buttons < 0 \<or> buttons > MaxPointerButtonMask
                then Inl (ButtonsRange buttons) else Inr ()))"

definition ValidatePointerGesture :: "int \<Rightarrow> int \<Rightarrow> int \<Rightarrow> control_error + unit" where
  "ValidatePointerGesture x y buttons = (case validatePointerCoordinates x y of
      Inl e \<Rightarrow> Inl e
    | Inr _ \<Rightarrow> (if buttons < 1 \<or> buttons > MaxPointerButtonMask
                then Inl (GestureButtonsRange buttons) else Inr ()))"

definition ValidateScroll :: "int \<Rightarrow> int \<Rightarrow> control_error + unit" where
  "ValidateScroll dx dy =
    (if dx < - MaxScrollDelta \<or> dx > MaxScrollDelta \<or> dy < - MaxScrollDelta \<or> dy > MaxScrollDelta
     then Inl (ScrollRange dx dy)
     else if dx = 0 \<and> dy = 0 then Inl ScrollZero
     else Inr ())"

section \<open>Named mouse buttons\<close>

definition MouseButtonLeft :: byte where "MouseButtonLeft = 1"
definition MouseButtonRight :: byte where "MouseButtonRight = 2"
definition MouseButtonMiddle :: byte where "MouseButtonMiddle = 4"

lemmas mouse_button_defs = MouseButtonLeft_def MouseButtonRight_def MouseButtonMiddle_def

definition ValidateMouseButton :: "byte \<Rightarrow> control_error + unit" where
  "ValidateMouseButton button =
    (if button = MouseButtonLeft \<or> button = MouseButtonRight \<or> button = MouseButtonMiddle
     then Inr () else Inl InvalidMouseButton)"

definition ResolveMouseButton :: "string \<Rightarrow> string \<Rightarrow> control_error + byte \<times> bool" where
  "ResolveMouseButton button action =
    (let mask = (if button = ''left'' then Some MouseButtonLeft
                 else if button = ''right'' then Some MouseButtonRight
                 else if button = ''middle'' then Some MouseButtonMiddle
                 else None)
     in case mask of
        None \<Rightarrow> Inl UnknownMouseButton
      | Some m \<Rightarrow> (case ValidateMouseButton m of
            Inl e \<Rightarrow> Inl e
          | Inr _ \<Rightarrow>
              (if action = ''press'' then Inr (m, True)
               else if action = ''release'' then Inr (m, False)
               else Inl UnknownMouseAction)))"

section \<open>Drag gestures\<close>

definition MaxDragSteps :: int where "MaxDragSteps = 256"
definition DefaultDragSteps :: int where "DefaultDragSteps = 24"

declare MaxDragSteps_def [bound_defs] DefaultDragSteps_def [bound_defs]

record drag_report =
  dr_x :: int
  dr_y :: int
  dr_buttons :: int

fun check_drag_reports :: "nat \<Rightarrow> bool \<Rightarrow> drag_report list \<Rightarrow> control_error + bool" where
  "check_drag_reports i has_button [] = Inr has_button"
| "check_drag_reports i has_button (r # rs) =
    (case ValidatePointer (dr_x r) (dr_y r) (dr_buttons r) of
       Inl e \<Rightarrow> Inl (DragReport (i + 1) e)
     | Inr _ \<Rightarrow> check_drag_reports (Suc i) (if dr_buttons r \<noteq> 0 then True else has_button) rs)"

definition ValidatePointerDragReports :: "drag_report list \<Rightarrow> control_error + unit" where
  "ValidatePointerDragReports reports =
    (if length reports = 0 then Inl DragEmpty
     else if int (length reports) > MaxDragSteps + 3 then Inl (DragTooLong (length reports))
     else case check_drag_reports 0 False reports of
        Inl e \<Rightarrow> Inl e
      | Inr has_button \<Rightarrow> (if \<not> has_button then Inl DragNoButton else Inr ()))"

text \<open>
  One intermediate report. Go's \<open>/\<close> truncates towards zero, as \<open>sdiv\<close> does.
\<close>

definition drag_coordinate :: "int \<Rightarrow> int \<Rightarrow> int \<Rightarrow> int \<Rightarrow> int" where
  "drag_coordinate a b denominator i = (a * (denominator - i) + b * i) sdiv denominator"

definition drag_point :: "int \<Rightarrow> int \<Rightarrow> int \<Rightarrow> int \<Rightarrow> int \<Rightarrow> int \<Rightarrow> int \<Rightarrow> drag_report" where
  "drag_point x1 y1 x2 y2 button denominator i =
    \<lparr>dr_x = drag_coordinate x1 x2 denominator i,
     dr_y = drag_coordinate y1 y2 denominator i,
     dr_buttons = button\<rparr>"

definition drag_reports :: "int \<Rightarrow> int \<Rightarrow> int \<Rightarrow> int \<Rightarrow> int \<Rightarrow> int \<Rightarrow> drag_report list" where
  "drag_reports x1 y1 x2 y2 button steps =
    \<lparr>dr_x = x1, dr_y = y1, dr_buttons = button\<rparr> #
    map (drag_point x1 y1 x2 y2 button (steps + 1)) [1..steps] @
    [\<lparr>dr_x = x2, dr_y = y2, dr_buttons = button\<rparr>,
     \<lparr>dr_x = x2, dr_y = y2, dr_buttons = 0\<rparr>]"

definition BuildPointerDragReports ::
  "int \<Rightarrow> int \<Rightarrow> int \<Rightarrow> int \<Rightarrow> int \<Rightarrow> int \<Rightarrow> control_error + drag_report list" where
  "BuildPointerDragReports x1 y1 x2 y2 button steps =
    (case ValidatePointerGesture x1 y1 button of
       Inl e \<Rightarrow> Inl (DragStart e)
     | Inr _ \<Rightarrow> (case ValidatePointerGesture x2 y2 button of
         Inl e \<Rightarrow> Inl (DragDestination e)
       | Inr _ \<Rightarrow>
           (if steps < 0 \<or> steps > MaxDragSteps then Inl (DragSteps steps)
            else let reports = drag_reports x1 y1 x2 y2 button steps in
              (case ValidatePointerDragReports reports of
                 Inl e \<Rightarrow> Inl e
               | Inr _ \<Rightarrow> Inr reports))))"

record drag_options =
  FromX :: int
  FromY :: int
  ToX :: int
  ToY :: int
  Buttons :: int
  Steps :: int

definition BuildPointerDrag :: "drag_options \<Rightarrow> control_error + drag_report list" where
  "BuildPointerDrag o' =
    (let steps = (if Steps o' \<le> 0 then DefaultDragSteps else Steps o') in
     BuildPointerDragReports (FromX o') (FromY o') (ToX o') (ToY o') (Buttons o') steps)"

section \<open>What the validators accept\<close>

lemma ValidateKeypress_ok: "is_ok (ValidateKeypress k m) \<longleftrightarrow> k \<in> {0..255} \<and> m \<in> {0..255}"
  by (auto simp: ValidateKeypress_def)

lemma check_combo_keys_Inr_iff:
  "check_combo_keys i h ks = Inr b \<longleftrightarrow>
     (\<forall>k \<in> set ks. k \<in> {0..255}) \<and> b = (h \<or> (\<exists>k \<in> set ks. k \<noteq> 0))"
  by (induction ks arbitrary: i h) auto

lemma ValidateKeyCombo_ok:
  "is_ok (ValidateKeyCombo m ks) \<longleftrightarrow>
     m \<in> {0..255} \<and> length ks \<le> 6 \<and> (\<forall>k \<in> set ks. k \<in> {0..255}) \<and>
     (m \<noteq> 0 \<or> (\<exists>k \<in> set ks. k \<noteq> 0))"
proof (cases "check_combo_keys 0 False ks")
  case (Inl e)
  then have "\<not> (\<forall>k \<in> set ks. k \<in> {0..255})"
    using check_combo_keys_Inr_iff [of 0 False ks "\<exists>k \<in> set ks. k \<noteq> 0"] by auto
  with Inl show ?thesis by (auto simp: ValidateKeyCombo_def)
next
  case (Inr b)
  then have "\<forall>k \<in> set ks. k \<in> {0..255}" "b = (\<exists>k \<in> set ks. k \<noteq> 0)"
    by (simp_all add: check_combo_keys_Inr_iff)
  with Inr show ?thesis by (auto simp: ValidateKeyCombo_def bound_defs)
qed

lemma ValidatePointer_ok:
  "is_ok (ValidatePointer x y b) \<longleftrightarrow> x \<in> {0..32767} \<and> y \<in> {0..32767} \<and> b \<in> {0..31}"
  by (auto simp: ValidatePointer_def validatePointerCoordinates_def bound_defs)

lemma ValidatePointerGesture_ok:
  "is_ok (ValidatePointerGesture x y b) \<longleftrightarrow> x \<in> {0..32767} \<and> y \<in> {0..32767} \<and> b \<in> {1..31}"
  by (auto simp: ValidatePointerGesture_def validatePointerCoordinates_def bound_defs)

lemma ValidateScroll_ok:
  "is_ok (ValidateScroll dx dy) \<longleftrightarrow>
     dx \<in> {-127..127} \<and> dy \<in> {-127..127} \<and> (dx, dy) \<noteq> (0, 0)"
  by (auto simp: ValidateScroll_def bound_defs)

lemma ResolveMouseButton_Inr_iff:
  "ResolveMouseButton b a = Inr (m, p) \<longleftrightarrow>
     (b, m) \<in> {(''left'', 1), (''right'', 2), (''middle'', 4)} \<and>
     (a, p) \<in> {(''press'', True), (''release'', False)}"
  by (auto simp: ResolveMouseButton_def ValidateMouseButton_def mouse_button_defs Let_def)

section \<open>Narrowing to wire integers\<close>

lemma sint_u32_coordinate: "x \<in> {0..32767} \<Longrightarrow> sint (word_of_int x :: u32) = x"
  by (simp add: sint_sbintrunc' signed_take_bit_int_eq_self)

lemma uint_byte: "b \<in> {0..255} \<Longrightarrow> uint (word_of_int b :: byte) = b"
  by (simp add: uint_word_of_int)

lemma pointer_in_range_narrowed:
  "is_ok (ValidatePointer x y b) \<Longrightarrow>
   pointer_in_range (word_of_int x) (word_of_int y) (word_of_int b)"
  by (simp add: ValidatePointer_ok pointer_in_range_def sint_u32_coordinate uint_byte)

section \<open>The drag gesture\<close>

lemma check_drag_reports_Inr_iff:
  "check_drag_reports i h rs = Inr b \<longleftrightarrow>
     (\<forall>r \<in> set rs. is_ok (ValidatePointer (dr_x r) (dr_y r) (dr_buttons r))) \<and>
     b = (h \<or> (\<exists>r \<in> set rs. dr_buttons r \<noteq> 0))"
proof (induction rs arbitrary: i h)
  case (Cons r rs)
  then show ?case
    by (cases "ValidatePointer (dr_x r) (dr_y r) (dr_buttons r)") auto
qed auto

lemma ValidatePointerDragReports_ok:
  "is_ok (ValidatePointerDragReports rs) \<longleftrightarrow>
     rs \<noteq> [] \<and> length rs \<le> 259 \<and>
     (\<forall>r \<in> set rs. is_ok (ValidatePointer (dr_x r) (dr_y r) (dr_buttons r))) \<and>
     (\<exists>r \<in> set rs. dr_buttons r \<noteq> 0)"
proof (cases "check_drag_reports 0 False rs")
  case (Inl e)
  then have "\<not> (\<forall>r \<in> set rs. is_ok (ValidatePointer (dr_x r) (dr_y r) (dr_buttons r)))"
    using check_drag_reports_Inr_iff [of 0 False rs "\<exists>r \<in> set rs. dr_buttons r \<noteq> 0"] by auto
  with Inl show ?thesis by (auto simp: ValidatePointerDragReports_def)
next
  case (Inr b)
  then have "\<forall>r \<in> set rs. is_ok (ValidatePointer (dr_x r) (dr_y r) (dr_buttons r))"
    and "b = (\<exists>r \<in> set rs. dr_buttons r \<noteq> 0)"
    by (simp_all add: check_drag_reports_Inr_iff)
  with Inr show ?thesis by (auto simp: ValidatePointerDragReports_def bound_defs)
qed

lemma sdiv_nonneg: "0 \<le> (a::int) \<Longrightarrow> 0 < b \<Longrightarrow> a sdiv b = a div b"
  by (cases "a = 0") (simp_all add: signed_divide_int_def)

lemma weighted_sum_between:
  fixes a b d i :: int
  assumes "0 \<le> i" "i \<le> d"
  shows "min a b * d \<le> a * (d - i) + b * i" "a * (d - i) + b * i \<le> max a b * d"
proof -
  have "min a b * (d - i) + min a b * i \<le> a * (d - i) + b * i"
    using assms by (intro add_mono mult_right_mono) auto
  then show "min a b * d \<le> a * (d - i) + b * i" by (simp add: algebra_simps)
  have "a * (d - i) + b * i \<le> max a b * (d - i) + max a b * i"
    using assms by (intro add_mono mult_right_mono) auto
  then show "a * (d - i) + b * i \<le> max a b * d" by (simp add: algebra_simps)
qed

lemma drag_coordinate_between:
  assumes "0 \<le> a" "0 \<le> b" "0 < d" "0 \<le> i" "i \<le> d"
  shows "drag_coordinate a b d i \<in> {min a b..max a b}"
proof -
  let ?n = "a * (d - i) + b * i"
  have n: "min a b * d \<le> ?n" "?n \<le> max a b * d"
    using weighted_sum_between [of i d a b] assms by auto
  have "0 \<le> ?n" using assms by simp
  then have "drag_coordinate a b d i = ?n div d"
    using assms by (simp add: drag_coordinate_def sdiv_nonneg)
  moreover note zdiv_mono1 [OF n(1) assms(3)] zdiv_mono1 [OF n(2) assms(3)]
  ultimately show ?thesis using assms by simp
qed

lemma drag_reports_shape:
  assumes "0 \<le> steps"
  shows "length (drag_reports x1 y1 x2 y2 b steps) = nat steps + 3"
  using assms by (simp add: drag_reports_def)

lemma drag_reports_on_segment:
  assumes "r \<in> set (drag_reports x1 y1 x2 y2 b steps)"
    and "is_ok (ValidatePointerGesture x1 y1 b)" "is_ok (ValidatePointerGesture x2 y2 b)"
  shows "dr_x r \<in> {min x1 x2..max x1 x2} \<and> dr_y r \<in> {min y1 y2..max y1 y2} \<and>
    dr_buttons r \<in> {b, 0}"
  using assms drag_coordinate_between [of x1 x2 "steps + 1"]
    drag_coordinate_between [of y1 y2 "steps + 1"]
  by (auto simp: drag_reports_def drag_point_def ValidatePointerGesture_ok)

lemma drag_reports_validate:
  assumes "is_ok (ValidatePointerGesture x1 y1 b)" "is_ok (ValidatePointerGesture x2 y2 b)"
    and "0 \<le> steps" "steps \<le> 256"
  shows "is_ok (ValidatePointerDragReports (drag_reports x1 y1 x2 y2 b steps))"
proof -
  have "is_ok (ValidatePointer (dr_x r) (dr_y r) (dr_buttons r))"
    if "r \<in> set (drag_reports x1 y1 x2 y2 b steps)" for r
    using drag_reports_on_segment [OF that assms(1,2)] assms
    by (auto simp: ValidatePointer_ok ValidatePointerGesture_ok)
  moreover have "\<exists>r \<in> set (drag_reports x1 y1 x2 y2 b steps). dr_buttons r \<noteq> 0"
    using assms by (auto simp: drag_reports_def ValidatePointerGesture_ok)
  moreover have "drag_reports x1 y1 x2 y2 b steps \<noteq> []"
    by (simp add: drag_reports_def)
  ultimately show ?thesis
    using assms by (auto simp: ValidatePointerDragReports_ok drag_reports_shape)
qed

lemma BuildPointerDragReports_Inr_iff:
  "BuildPointerDragReports x1 y1 x2 y2 b steps = Inr rs \<longleftrightarrow>
     is_ok (ValidatePointerGesture x1 y1 b) \<and> is_ok (ValidatePointerGesture x2 y2 b) \<and>
     0 \<le> steps \<and> steps \<le> 256 \<and> rs = drag_reports x1 y1 x2 y2 b steps"
  using drag_reports_validate [of x1 y1 b x2 y2 steps]
  by (auto simp: BuildPointerDragReports_def Let_def MaxDragSteps_def is_ok_iff
      split: sum.splits if_splits)

section \<open>Properties\<close>

lemma drag_coordinate_rounds:
  assumes "0 \<le> a" "0 \<le> b" "0 < d" "0 \<le> i" "i \<le> d"
  shows "d * drag_coordinate a b d i \<le> a * (d - i) + b * i \<and>
    a * (d - i) + b * i < d * (drag_coordinate a b d i + 1)"
proof -
  define n where "n = a * (d - i) + b * i"
  have q: "drag_coordinate a b d i = n div d"
    using assms by (simp add: n_def drag_coordinate_def sdiv_nonneg)
  have "d * (n div d) + n mod d = n" "d * (n div d + 1) = d * (n div d) + d"
    by (simp_all add: distrib_left)
  then show ?thesis
    unfolding q n_def [symmetric] using pos_mod_sign [OF assms(3), of n] pos_mod_bound [OF assms(3), of n]
    by linarith
qed

lemma drag_reports_nth:
  assumes "1 \<le> i" "i \<le> steps"
  shows "drag_reports x1 y1 x2 y2 b steps ! nat i = drag_point x1 y1 x2 y2 b (steps + 1) i"
proof -
  have "nat i = Suc (nat (i - 1))" "nat (i - 1) < length [1..steps]" using assms by simp_all
  moreover have "[1..steps] ! nat (i - 1) = i" using assms by simp
  ultimately show ?thesis by (simp add: drag_reports_def nth_append del: nth_upto)
qed

text \<open>
  C17. The drag builder succeeds exactly when both endpoints are pointer gestures with one
  and the same nonzero button mask and the step count is in \<open>[0,256]\<close>: its own final check
  never rejects what it built. The gesture has \<open>steps + 3\<close> reports: it presses at the start,
  ends with the destination pressed and then released, and every report before the last holds
  the button. The \<open>i\<close>-th report between is the point at \<open>i / (steps + 1)\<close> of the way from the
  start to the destination, both coordinates rounded down to whole units, and every point
  lies between the endpoints.
\<close>

theorem drag_gesture_correct:
  "(is_ok (BuildPointerDragReports x1 y1 x2 y2 b steps) \<longleftrightarrow>
     is_ok (ValidatePointerGesture x1 y1 b) \<and> is_ok (ValidatePointerGesture x2 y2 b) \<and>
     steps \<in> {0..256}) \<and>
   (BuildPointerDragReports x1 y1 x2 y2 b steps = Inr rs \<longrightarrow>
     length rs = nat steps + 3 \<and>
     hd rs = \<lparr>dr_x = x1, dr_y = y1, dr_buttons = b\<rparr> \<and>
     drop (nat steps + 1) rs =
       [\<lparr>dr_x = x2, dr_y = y2, dr_buttons = b\<rparr>, \<lparr>dr_x = x2, dr_y = y2, dr_buttons = 0\<rparr>] \<and>
     (\<forall>r \<in> set (butlast rs). dr_buttons r = b) \<and>
     (\<forall>i \<in> {1..steps}.
        (steps + 1) * dr_x (rs ! nat i) \<le> x1 * (steps + 1 - i) + x2 * i \<and>
        x1 * (steps + 1 - i) + x2 * i < (steps + 1) * (dr_x (rs ! nat i) + 1) \<and>
        (steps + 1) * dr_y (rs ! nat i) \<le> y1 * (steps + 1 - i) + y2 * i \<and>
        y1 * (steps + 1 - i) + y2 * i < (steps + 1) * (dr_y (rs ! nat i) + 1)) \<and>
     (\<forall>r \<in> set rs. dr_x r \<in> {min x1 x2..max x1 x2} \<and> dr_y r \<in> {min y1 y2..max y1 y2}))"
proof -
  have "length rs = nat steps + 3 \<and> hd rs = \<lparr>dr_x = x1, dr_y = y1, dr_buttons = b\<rparr> \<and>
      drop (nat steps + 1) rs =
        [\<lparr>dr_x = x2, dr_y = y2, dr_buttons = b\<rparr>, \<lparr>dr_x = x2, dr_y = y2, dr_buttons = 0\<rparr>] \<and>
      (\<forall>r \<in> set (butlast rs). dr_buttons r = b)"
    if "rs = drag_reports x1 y1 x2 y2 b steps" "0 \<le> steps"
    using that by (auto simp: drag_reports_def drag_point_def butlast_append)
  moreover have "(steps + 1) * dr_x (rs ! nat i) \<le> x1 * (steps + 1 - i) + x2 * i \<and>
        x1 * (steps + 1 - i) + x2 * i < (steps + 1) * (dr_x (rs ! nat i) + 1) \<and>
        (steps + 1) * dr_y (rs ! nat i) \<le> y1 * (steps + 1 - i) + y2 * i \<and>
        y1 * (steps + 1 - i) + y2 * i < (steps + 1) * (dr_y (rs ! nat i) + 1)"
    if "rs = drag_reports x1 y1 x2 y2 b steps" "1 \<le> i" "i \<le> steps"
      "is_ok (ValidatePointerGesture x1 y1 b)" "is_ok (ValidatePointerGesture x2 y2 b)" for i
    using that drag_coordinate_rounds [of x1 x2 "steps + 1" i] drag_coordinate_rounds [of y1 y2 "steps + 1" i]
    by (simp add: drag_reports_nth drag_point_def ValidatePointerGesture_ok)
  ultimately show ?thesis
    using drag_reports_on_segment [of _ x1 y1 x2 y2 b steps]
    by (auto simp: is_ok_iff [of "BuildPointerDragReports x1 y1 x2 y2 b steps"]
        BuildPointerDragReports_Inr_iff)
qed

theorem drag_gesture_correct_witness:
  "\<exists>rs. BuildPointerDragReports 0 9 10 0 1 2 = Inr rs \<and>
     rs = [\<lparr>dr_x = 0, dr_y = 9, dr_buttons = 1\<rparr>, \<lparr>dr_x = 3, dr_y = 6, dr_buttons = 1\<rparr>,
           \<lparr>dr_x = 6, dr_y = 3, dr_buttons = 1\<rparr>, \<lparr>dr_x = 10, dr_y = 0, dr_buttons = 1\<rparr>,
           \<lparr>dr_x = 10, dr_y = 0, dr_buttons = 0\<rparr>] \<and>
     3 * dr_x (rs ! 1) \<le> 10 \<and> 10 < 3 * (dr_x (rs ! 1) + 1)"
proof -
  let ?rs = "[\<lparr>dr_x = 0, dr_y = 9, dr_buttons = 1\<rparr>, \<lparr>dr_x = 3, dr_y = 6, dr_buttons = 1\<rparr>,
           \<lparr>dr_x = 6, dr_y = 3, dr_buttons = 1\<rparr>, \<lparr>dr_x = 10, dr_y = 0, dr_buttons = 1\<rparr>,
           \<lparr>dr_x = 10, dr_y = 0, dr_buttons = 0\<rparr>]"
  have "[1..2::int] = [1, 2]" by (simp add: upto_rec1)
  then have b: "BuildPointerDragReports 0 9 10 0 1 2 = Inr ?rs"
    by (simp add: BuildPointerDragReports_Inr_iff ValidatePointerGesture_ok drag_reports_def
        drag_point_def drag_coordinate_def sdiv_nonneg)
  moreover have "3 * dr_x (?rs ! nat 1) \<le> 10 \<and> 10 < 3 * (dr_x (?rs ! nat 1) + 1)"
    using drag_gesture_correct [of 0 9 10 0 1 2 ?rs] b by simp
  ultimately show ?thesis by simp
qed

text \<open>
  Nothing is lost when a built gesture is narrowed to the wire: every report of it, with
  its coordinates converted to \<open>int32\<close> and its buttons to \<open>byte\<close>, is accepted by the
  pointer encoder, and the device ends at that report's own coordinates and buttons.
\<close>

theorem drag_gesture_reaches_device:
  assumes "BuildPointerDrag opts = Inr rs" and "r \<in> set rs"
  shows "\<exists>bs. EncodePointerReport (word_of_int (dr_x r)) (word_of_int (dr_y r))
        (word_of_int (dr_buttons r)) = Inr bs \<and>
      (let d' = snd (device_receive bs d) in
        sint (am_x (hidg1 d')) = dr_x r \<and> sint (am_y (hidg1 d')) = dr_y r \<and>
        uint (am_buttons (hidg1 d')) = dr_buttons r)"
proof -
  from assms(1) have "is_ok (ValidatePointerDragReports rs)"
    by (auto simp: BuildPointerDrag_def Let_def BuildPointerDragReports_Inr_iff
        intro!: drag_reports_validate split: if_splits)
  with assms(2) have v: "is_ok (ValidatePointer (dr_x r) (dr_y r) (dr_buttons r))"
    by (simp add: ValidatePointerDragReports_ok)
  show ?thesis
    using pointer_in_range_narrowed [OF v] v
    by (auto simp: EncodePointerReport_Inr_iff device_receive_pointer Let_def ValidatePointer_ok
        sint_u32_coordinate uint_byte)
qed

theorem drag_gesture_reaches_device_witness:
  "\<exists>bs. EncodePointerReport 7 9 1 = Inr bs \<and>
      sint (am_x (hidg1 (snd (device_receive bs device_init)))) = 7"
proof -
  let ?o = "\<lparr>FromX = 7, FromY = 9, ToX = 7, ToY = 9, Buttons = 1, Steps = 1\<rparr>"
  let ?r = "\<lparr>dr_x = 7, dr_y = 9, dr_buttons = 1\<rparr>"
  have "BuildPointerDrag ?o = Inr (drag_reports 7 9 7 9 1 1)"
    by (simp add: BuildPointerDrag_def Let_def BuildPointerDragReports_Inr_iff
        ValidatePointerGesture_ok)
  moreover have "?r \<in> set (drag_reports 7 9 7 9 1 1)" by (simp add: drag_reports_def)
  ultimately show ?thesis
    using drag_gesture_reaches_device [of ?o _ ?r device_init] by (auto simp: Let_def)
qed

text \<open>
  The interpolation is exact on Go's 64-bit \<open>int\<close>: for checked endpoints and step
  count the wrap-around version of \<open>drag_coordinate\<close>, computed on 64-bit words with the
  same operations, has the value of the unbounded one.
\<close>

definition drag_coordinate64 :: "u64 \<Rightarrow> u64 \<Rightarrow> u64 \<Rightarrow> u64 \<Rightarrow> u64" where
  "drag_coordinate64 a b denominator i =
    word_of_int (sint (a * (denominator - i) + b * i) sdiv sint denominator)"

lemma div_le_self_int: "0 \<le> (a::int) \<Longrightarrow> 0 < b \<Longrightarrow> a div b \<le> a"
  using zdiv_mono2 [of a 1 b] by simp

lemma sint_u64_small: "n \<in> {0..<2 ^ 63} \<Longrightarrow> sint (word_of_int n :: u64) = n"
  by (simp add: sint_sbintrunc' signed_take_bit_int_eq_self)

lemma weighted_sum_range:
  fixes a b steps i :: int
  assumes "a \<in> {0..32767}" "b \<in> {0..32767}" "0 \<le> steps" "steps \<le> 256" "i \<in> {1..steps}"
  shows "a * (steps + 1 - i) + b * i \<in> {0..32767 * 257}"
proof -
  have "a * (steps + 1 - i) + b * i \<le> max a b * (steps + 1)"
    using weighted_sum_between(2) [of i "steps + 1" a b] assms by simp
  also have "\<dots> \<le> 32767 * 257" using assms by (intro mult_mono) auto
  finally show ?thesis using assms by simp
qed

theorem drag_interpolation_exact:
  assumes "a \<in> {0..MaxAbsoluteCoordinate}" "b \<in> {0..MaxAbsoluteCoordinate}"
    and "0 \<le> steps" "steps \<le> MaxDragSteps" "i \<in> {1..steps}"
  shows "sint (drag_coordinate64 (word_of_int a) (word_of_int b) (word_of_int (steps + 1))
            (word_of_int i)) = drag_coordinate a b (steps + 1) i"
proof -
  let ?n = "a * (steps + 1 - i) + b * i"
  have n: "?n \<in> {0..32767 * 257}"
    using assms weighted_sum_range [of a b steps i] by (simp add: bound_defs)
  then have "sint (word_of_int ?n :: u64) = ?n" by (intro sint_u64_small) simp
  moreover have "sint (word_of_int (steps + 1) :: u64) = steps + 1"
    using assms by (intro sint_u64_small) (simp add: bound_defs)
  moreover have "?n sdiv (steps + 1) = ?n div (steps + 1)" "?n div (steps + 1) \<le> ?n"
    using n assms by (simp_all add: sdiv_nonneg div_le_self_int)
  moreover have "0 \<le> ?n div (steps + 1)"
    using n assms by (simp add: pos_imp_zdiv_nonneg_iff)
  moreover have "word_of_int a * (word_of_int (steps + 1) - word_of_int i) +
      word_of_int b * word_of_int i = (word_of_int ?n :: u64)"
    by simp
  ultimately show ?thesis
    using n unfolding drag_coordinate64_def drag_coordinate_def
    by (simp only:) (intro sint_u64_small, simp)
qed

theorem drag_interpolation_exact_witness:
  "sint (drag_coordinate64 32767 0 257 200) = drag_coordinate 32767 0 257 200"
  using drag_interpolation_exact [of 32767 0 256 200] by (simp add: bound_defs)

end
