(* ===== verification/Type_String.thy ===== *)
theory Type_String
  imports Control_Validation
begin

text \<open>
  Typed text: \<open>type_string.go\<close> maps a text to key presses on a US keyboard layout, and
  \<open>MapTypeReports\<close> of \<open>charly_extension.go\<close> turns the presses into the reports the HID
  lease sends.

  The reference the mapping is compared with is the other end of the cable: a host with a
  US layout that reads the report's first key usage (USB HID Usage Tables, keyboard page).
  The layout table, a codec, is inverted by that host on every rune it supports.
\<close>

section \<open>Bounds and categories\<close>

definition MaxTypeStringRunes :: nat where "MaxTypeStringRunes = 4096"
definition DefaultTypeDelayMS :: int where "DefaultTypeDelayMS = 0"
definition MaxTypeDelayMS :: int where "MaxTypeDelayMS = 500"
definition leftShiftModifier :: int where "leftShiftModifier = 0x02"

text \<open>
  Go's \<open>unicode\<close> tables are the parameter \<open>in_table\<close> (category name and rune, the test
  \<open>unicode.Is\<close>); the order and the fallbacks are the code's.
\<close>

definition unicodeGeneralCategories :: "string list" where
  "unicodeGeneralCategories =
    [''Cc'', ''Cf'', ''Cn'', ''Co'', ''Cs'', ''Ll'', ''Lm'', ''Lo'', ''Lt'', ''Lu'',
     ''Mc'', ''Me'', ''Mn'', ''Nd'', ''Nl'', ''No'', ''Pc'', ''Pd'', ''Pe'', ''Pf'',
     ''Pi'', ''Po'', ''Ps'', ''Sc'', ''Sk'', ''Sm'', ''So'', ''Zl'', ''Zp'', ''Zs'']"

definition unicodeGeneralCategory :: "(string \<Rightarrow> rune \<Rightarrow> bool) \<Rightarrow> rune \<Rightarrow> string" where
  "unicodeGeneralCategory in_table r =
    (if r < 0 \<or> r > 0x10FFFF then ''Invalid''
     else case find (\<lambda>c. in_table c r) unicodeGeneralCategories of
        Some c \<Rightarrow> c
      | None \<Rightarrow> ''Cn'')"

text \<open>The only facts about a rejected rune that an error carries.\<close>

datatype character_context = CharacterContext (position: nat) (category: string)

definition TypeCharacterContext ::
  "(string \<Rightarrow> rune \<Rightarrow> bool) \<Rightarrow> nat \<Rightarrow> rune \<Rightarrow> character_context" where
  "TypeCharacterContext in_table pos r = CharacterContext pos (unicodeGeneralCategory in_table r)"

section \<open>The layout\<close>

record type_keypress =
  tk_modifier :: int
  tk_usage :: int

datatype type_error =
    TypeEmpty
  | TypeTooLong nat
  | Unsupported character_context
  | TypeDelay int

abbreviation code_point :: "char \<Rightarrow> rune" where
  "code_point c \<equiv> int (of_char c)"

text \<open>The second \<open>switch\<close> of \<open>MapUSKeyboardRune\<close>: one row per case, modifier and usage.\<close>

definition us_switch :: "(rune \<times> int \<times> int) list" where
  "us_switch =
    [(code_point CHR ''0'', 0, 0x27), (code_point CHR 0x0A, 0, 0x28),
     (code_point CHR 0x09, 0, 0x2b), (code_point CHR '' '', 0, 0x2c),
     (code_point CHR ''-'', 0, 0x2d), (code_point CHR ''='', 0, 0x2e),
     (code_point CHR ''['', 0, 0x2f), (code_point CHR '']'', 0, 0x30),
     (code_point CHR 0x5C, 0, 0x31), (code_point CHR '';'', 0, 0x33),
     (code_point CHR 0x27, 0, 0x34), (code_point CHR 0x60, 0, 0x35),
     (code_point CHR '','', 0, 0x36), (code_point CHR ''.'', 0, 0x37),
     (code_point CHR ''/'', 0, 0x38),
     (code_point CHR ''!'', leftShiftModifier, 0x1e), (code_point CHR ''@'', leftShiftModifier, 0x1f),
     (code_point CHR ''#'', leftShiftModifier, 0x20), (code_point CHR ''$'', leftShiftModifier, 0x21),
     (code_point CHR ''%'', leftShiftModifier, 0x22), (code_point CHR ''^'', leftShiftModifier, 0x23),
     (code_point CHR ''&'', leftShiftModifier, 0x24), (code_point CHR ''*'', leftShiftModifier, 0x25),
     (code_point CHR ''('', leftShiftModifier, 0x26), (code_point CHR '')'', leftShiftModifier, 0x27),
     (code_point CHR ''_'', leftShiftModifier, 0x2d), (code_point CHR ''+'', leftShiftModifier, 0x2e),
     (code_point CHR ''{'', leftShiftModifier, 0x2f), (code_point CHR ''}'', leftShiftModifier, 0x30),
     (code_point CHR ''|'', leftShiftModifier, 0x31), (code_point CHR '':'', leftShiftModifier, 0x33),
     (code_point CHR 0x22, leftShiftModifier, 0x34), (code_point CHR ''~'', leftShiftModifier, 0x35),
     (code_point CHR ''<'', leftShiftModifier, 0x36), (code_point CHR ''>'', leftShiftModifier, 0x37),
     (code_point CHR ''?'', leftShiftModifier, 0x38)]"

definition MapUSKeyboardRune ::
  "(string \<Rightarrow> rune \<Rightarrow> bool) \<Rightarrow> rune \<Rightarrow> type_error + type_keypress" where
  "MapUSKeyboardRune in_table r =
    (if r \<ge> code_point CHR ''a'' \<and> r \<le> code_point CHR ''z'' then
       Inr \<lparr>tk_modifier = 0, tk_usage = 0x04 + (r - code_point CHR ''a'')\<rparr>
     else if r \<ge> code_point CHR ''A'' \<and> r \<le> code_point CHR ''Z'' then
       Inr \<lparr>tk_modifier = leftShiftModifier, tk_usage = 0x04 + (r - code_point CHR ''A'')\<rparr>
     else if r \<ge> code_point CHR ''1'' \<and> r \<le> code_point CHR ''9'' then
       Inr \<lparr>tk_modifier = 0, tk_usage = 0x1e + (r - code_point CHR ''1'')\<rparr>
     else case map_of us_switch r of
        Some (m, u) \<Rightarrow> Inr \<lparr>tk_modifier = m, tk_usage = u\<rparr>
      | None \<Rightarrow> Inl (Unsupported (TypeCharacterContext in_table 1 r)))"

text \<open>The loop of \<open>MapTypeString\<close>; the first argument is \<open>runePosition\<close>.\<close>

fun map_type_runes ::
  "(string \<Rightarrow> rune \<Rightarrow> bool) \<Rightarrow> nat \<Rightarrow> text_runes \<Rightarrow> type_error + type_keypress list" where
  "map_type_runes in_table pos [] = Inr []"
| "map_type_runes in_table pos (r # rs) =
    (case MapUSKeyboardRune in_table r of
       Inl _ \<Rightarrow> Inl (Unsupported (TypeCharacterContext in_table (pos + 1) r))
     | Inr k \<Rightarrow> (case map_type_runes in_table (pos + 1) rs of
           Inl e \<Rightarrow> Inl e
         | Inr ks \<Rightarrow> Inr (k # ks)))"

definition MapTypeString ::
  "(string \<Rightarrow> rune \<Rightarrow> bool) \<Rightarrow> text_runes \<Rightarrow> type_error + type_keypress list" where
  "MapTypeString in_table txt =
    (if txt = [] then Inl TypeEmpty
     else if length txt > MaxTypeStringRunes then Inl (TypeTooLong (length txt))
     else map_type_runes in_table 0 txt)"

definition ValidateTypeDelay :: "int \<Rightarrow> type_error + unit" where
  "ValidateTypeDelay delay =
    (if delay < 0 \<or> delay > MaxTypeDelayMS then Inl (TypeDelay delay) else Inr ())"

record typed_report =
  tr_modifier :: byte
  tr_keys :: "byte list"

definition typed_report_of :: "type_keypress \<Rightarrow> typed_report" where
  "typed_report_of p =
    \<lparr>tr_modifier = word_of_int (tk_modifier p),
     tr_keys = (let keys = replicate HIDKeyBufferSize 0 in
       if tk_usage p \<noteq> 0 then keys[0 := word_of_int (tk_usage p)] else keys)\<rparr>"

definition MapTypeReports ::
  "(string \<Rightarrow> rune \<Rightarrow> bool) \<Rightarrow> text_runes \<Rightarrow> type_error + typed_report list" where
  "MapTypeReports in_table txt = (case MapTypeString in_table txt of
      Inl e \<Rightarrow> Inl e
    | Inr presses \<Rightarrow> Inr (map typed_report_of presses))"

section \<open>The host's reading of a report\<close>

text \<open>
  Usages \<open>0x04\<close> to \<open>0x38\<close> of the keyboard page on a US layout, unshifted and shifted; 0 marks
  a usage that types no character (Escape, Backspace, the non-US key).
\<close>

definition us_plain :: text_runes where
  "us_plain = runes ''abcdefghijklmnopqrstuvwxyz1234567890'' @
    [10, 0, 0, 9] @ runes '' -=[]'' @ [92, 0] @ runes '';'' @ [39, 96] @ runes '',./''"

definition us_shifted :: text_runes where
  "us_shifted = runes ''ABCDEFGHIJKLMNOPQRSTUVWXYZ!@#$%^&*()'' @
    [0, 0, 0, 0] @ runes '' _+{}|'' @ [0] @ runes '':'' @ [34, 126] @ runes ''<>?''"

definition us_host_reads :: "int \<times> int \<Rightarrow> rune option" where
  "us_host_reads mu = (case mu of (m, u) \<Rightarrow>
    (let row = (if m = 0 then us_plain else if m = 2 then us_shifted else []) in
     if 4 \<le> u \<and> nat (u - 4) < length row \<and> row ! nat (u - 4) \<noteq> 0
     then Some (row ! nat (u - 4)) else None))"

text \<open>A host reads the modifier byte and the first key of a keyboard frame.\<close>

definition host_types :: "byte list \<Rightarrow> rune option" where
  "host_types frame = (case Unmarshal frame of
      Inl _ \<Rightarrow> None
    | Inr m \<Rightarrow> (if msg_type m = TypeKeyboardReport then
        (case msg_payload m of md # k # _ \<Rightarrow> us_host_reads (uint md, uint k) | _ \<Rightarrow> None)
       else None))"

definition us_supported :: "rune \<Rightarrow> bool" where
  "us_supported r \<longleftrightarrow> r = 9 \<or> r = 10 \<or> (32 \<le> r \<and> r \<le> 126)"

definition us_keypress :: "rune \<Rightarrow> int \<times> int" where
  "us_keypress r = (case MapUSKeyboardRune (\<lambda>_ _. False) r of
      Inl _ \<Rightarrow> (0, 0)
    | Inr k \<Rightarrow> (tk_modifier k, tk_usage k))"

definition us_row_ok :: "rune \<Rightarrow> bool" where
  "us_row_ok r \<longleftrightarrow> is_ok (MapUSKeyboardRune (\<lambda>_ _. False) r) \<and>
     us_host_reads (us_keypress r) = Some r \<and>
     fst (us_keypress r) \<in> {0, 2} \<and> 4 \<le> snd (us_keypress r) \<and> snd (us_keypress r) \<le> 0x38"

text \<open>The tables in numbers, for evaluation.\<close>

lemma us_switch_code [code]:
  "us_switch =
    [(48, 0, 39), (10, 0, 40), (9, 0, 43), (32, 0, 44), (45, 0, 45), (61, 0, 46), (91, 0,
     47), (93, 0, 48), (92, 0, 49), (59, 0, 51), (39, 0, 52), (96, 0, 53), (44, 0, 54),
     (46, 0, 55), (47, 0, 56), (33, 2, 30), (64, 2, 31), (35, 2, 32), (36, 2, 33), (37, 2,
     34), (94, 2, 35), (38, 2, 36), (42, 2, 37), (40, 2, 38), (41, 2, 39), (95, 2, 45),
     (43, 2, 46), (123, 2, 47), (125, 2, 48), (124, 2, 49), (58, 2, 51), (34, 2, 52),
     (126, 2, 53), (60, 2, 54), (62, 2, 55), (63, 2, 56)]"
  by (simp add: us_switch_def leftShiftModifier_def)

lemma us_plain_code [code]:
  "us_plain =
    [97, 98, 99, 100, 101, 102, 103, 104, 105, 106, 107, 108, 109, 110, 111, 112, 113, 114,
     115, 116, 117, 118, 119, 120, 121, 122, 49, 50, 51, 52, 53, 54, 55, 56, 57, 48, 10,
     0, 0, 9, 32, 45, 61, 91, 93, 92, 0, 59, 39, 96, 44, 46, 47]"
  by (simp add: us_plain_def runes_def)

lemma us_shifted_code [code]:
  "us_shifted =
    [65, 66, 67, 68, 69, 70, 71, 72, 73, 74, 75, 76, 77, 78, 79, 80, 81, 82, 83, 84, 85,
     86, 87, 88, 89, 90, 33, 64, 35, 36, 37, 94, 38, 42, 40, 41, 0, 0, 0, 0, 32, 95, 43,
     123, 125, 124, 0, 58, 34, 126, 60, 62, 63]"
  by (simp add: us_shifted_def runes_def)

lemma MapUSKeyboardRune_code [code]:
  "MapUSKeyboardRune in_table r =
    (if 97 \<le> r \<and> r \<le> 122 then Inr \<lparr>tk_modifier = 0, tk_usage = r - 93\<rparr>
     else if 65 \<le> r \<and> r \<le> 90 then Inr \<lparr>tk_modifier = 2, tk_usage = r - 61\<rparr>
     else if 49 \<le> r \<and> r \<le> 57 then Inr \<lparr>tk_modifier = 0, tk_usage = r - 19\<rparr>
     else case map_of us_switch r of
        Some (m, u) \<Rightarrow> Inr \<lparr>tk_modifier = m, tk_usage = u\<rparr>
      | None \<Rightarrow> Inl (Unsupported (TypeCharacterContext in_table 1 r)))"
  by (simp add: MapUSKeyboardRune_def leftShiftModifier_def)

lemma us_rows_ok: "list_all us_row_ok (9 # 10 # [32..126])"
  by code_simp

lemma us_supported_row: "us_supported r \<Longrightarrow> us_row_ok r"
proof -
  assume "us_supported r"
  then have "r \<in> set (9 # 10 # [32..126])" unfolding us_supported_def set_simps set_upto by auto
  with us_rows_ok show ?thesis unfolding list_all_iff by blast
qed

lemma us_switch_supported: "map_of us_switch r = Some v \<Longrightarrow> us_supported r"
proof -
  assume "map_of us_switch r = Some v"
  then have "r \<in> fst ` set us_switch" by (metis domI dom_map_of_conv_image_fst)
  moreover have "list_all us_supported (map fst us_switch)" by code_simp
  ultimately show ?thesis by (auto simp: list_all_iff)
qed

lemma MapUSKeyboardRune_table:
  "MapUSKeyboardRune t r = Inr k \<longleftrightarrow> MapUSKeyboardRune t' r = Inr k"
  by (auto simp: MapUSKeyboardRune_def split: option.splits)

lemma MapUSKeyboardRune_ok: "is_ok (MapUSKeyboardRune t r) \<longleftrightarrow> us_supported r"
proof
  assume "is_ok (MapUSKeyboardRune t r)"
  then show "us_supported r"
    by (auto simp: MapUSKeyboardRune_def us_supported_def [of r]
        dest: us_switch_supported split: if_splits option.splits)
next
  assume "us_supported r"
  then have "is_ok (MapUSKeyboardRune (\<lambda>_ _. False) r)"
    using us_supported_row by (simp add: us_row_ok_def)
  then show "is_ok (MapUSKeyboardRune t r)"
    by (auto simp: is_ok_iff MapUSKeyboardRune_table [of "\<lambda>_ _. False" r _ t])
qed

lemma MapUSKeyboardRune_Inr:
  "MapUSKeyboardRune t r = Inr k \<longleftrightarrow>
     us_supported r \<and> k = \<lparr>tk_modifier = fst (us_keypress r), tk_usage = snd (us_keypress r)\<rparr>"
  using MapUSKeyboardRune_ok [of t r] MapUSKeyboardRune_table [of t r k "\<lambda>_ _. False"]
    MapUSKeyboardRune_ok [of "\<lambda>_ _. False" r]
  by (cases k) (auto simp: us_keypress_def is_ok_iff split: sum.splits)

interpretation layout: codec us_keypress us_host_reads us_supported
  by unfold_locales (simp add: us_supported_row [unfolded us_row_ok_def])


section \<open>The whole text\<close>

definition us_press :: "rune \<Rightarrow> type_keypress" where
  "us_press r = \<lparr>tk_modifier = fst (us_keypress r), tk_usage = snd (us_keypress r)\<rparr>"

lemma map_type_runes_Inr_iff:
  "map_type_runes t pos rs = Inr ks \<longleftrightarrow> (\<forall>r \<in> set rs. us_supported r) \<and> ks = map us_press rs"
proof (induction rs arbitrary: pos ks)
  case (Cons r rs)
  show ?case
  proof (cases "us_supported r")
    case True
    then have "MapUSKeyboardRune t r = Inr (us_press r)"
      by (simp add: MapUSKeyboardRune_Inr us_press_def)
    with True Cons.IH show ?thesis by auto
  next
    case False
    then have "\<nexists>k. MapUSKeyboardRune t r = Inr k" by (simp add: MapUSKeyboardRune_Inr)
    with False show ?thesis by auto
  qed
qed auto

lemma map_type_runes_first_error:
  assumes "\<forall>r \<in> set pre. us_supported r" "\<not> us_supported r"
  shows "map_type_runes t pos (pre @ r # suf) =
    Inl (Unsupported (TypeCharacterContext t (pos + length pre + 1) r))"
  using assms
proof (induction pre arbitrary: pos)
  case Nil
  then have "\<nexists>k. MapUSKeyboardRune t r = Inr k" by (simp add: MapUSKeyboardRune_Inr)
  then show ?case by (auto split: sum.splits)
next
  case (Cons a pre)
  then have "MapUSKeyboardRune t a = Inr (us_press a)"
    by (simp add: MapUSKeyboardRune_Inr us_press_def)
  with Cons show ?case by simp
qed

lemma MapTypeString_Inr_iff:
  "MapTypeString t txt = Inr ks \<longleftrightarrow>
     txt \<noteq> [] \<and> length txt \<le> 4096 \<and> (\<forall>r \<in> set txt. us_supported r) \<and> ks = map us_press txt"
  by (auto simp: MapTypeString_def MaxTypeStringRunes_def map_type_runes_Inr_iff)

lemma MapTypeReports_Inr_iff:
  "MapTypeReports t txt = Inr rs \<longleftrightarrow>
     txt \<noteq> [] \<and> length txt \<le> 4096 \<and> (\<forall>r \<in> set txt. us_supported r) \<and>
     rs = map (typed_report_of \<circ> us_press) txt"
  by (auto simp: MapTypeReports_def MapTypeString_Inr_iff)

lemma us_press_bounds:
  assumes "us_supported r"
  shows "tk_modifier (us_press r) \<in> {0, 2}" "4 \<le> tk_usage (us_press r)"
    "tk_usage (us_press r) \<le> 0x38"
  using us_supported_row [OF assms] by (simp_all add: us_press_def us_row_ok_def)

lemma typed_report_encodes:
  assumes "us_supported r"
  shows "EncodeKeyboardReport (tr_modifier (typed_report_of (us_press r)))
      (tr_keys (typed_report_of (us_press r))) =
    Inr (TypeKeyboardReport # word_of_int (tk_modifier (us_press r)) #
      word_of_int (tk_usage (us_press r)) # replicate 5 0)"
  using us_press_bounds [OF assms]
  by (simp add: EncodeKeyboardReport_Inr_iff typed_report_of_def HIDKeyBufferSize_def
      numeral_eq_Suc)

lemma host_reads_typed_report:
  assumes "us_supported r"
  shows "host_types (TypeKeyboardReport # word_of_int (tk_modifier (us_press r)) #
      word_of_int (tk_usage (us_press r)) # p) = Some r"
proof -
  have "uint (word_of_int (tk_modifier (us_press r)) :: byte) = tk_modifier (us_press r)"
    "uint (word_of_int (tk_usage (us_press r)) :: byte) = tk_usage (us_press r)"
    using us_press_bounds [OF assms] by (auto intro!: uint_byte)
  then show ?thesis
    using layout.decode_encode [OF assms] by (simp add: host_types_def us_press_def)
qed

section \<open>Properties\<close>

text \<open>
  C18. A text that \<open>MapTypeReports\<close> accepts becomes one report per rune; every report is
  encodable as a keyboard frame, and a host with a US layout that reads the frames in order
  reads back exactly the text.
\<close>

theorem typed_text_is_read_back:
  assumes "MapTypeReports t txt = Inr rs"
  shows "\<exists>frames. map (\<lambda>r. EncodeKeyboardReport (tr_modifier r) (tr_keys r)) rs = map Inr frames \<and>
    map host_types frames = map Some txt"
proof (intro exI conjI)
  let ?f = "\<lambda>r. TypeKeyboardReport # word_of_int (tk_modifier (us_press r)) #
      word_of_int (tk_usage (us_press r)) # replicate 5 0 :: byte list"
  show "map (\<lambda>r. EncodeKeyboardReport (tr_modifier r) (tr_keys r)) rs = map Inr (map ?f txt)"
    using assms by (auto simp: MapTypeReports_Inr_iff typed_report_encodes)
  show "map host_types (map ?f txt) = map Some txt"
    using assms by (simp add: MapTypeReports_Inr_iff host_reads_typed_report)
qed

theorem typed_text_is_read_back_witness:
  "\<exists>rs frames. MapTypeReports (\<lambda>_ _. False) (runes ''Hi!'') = Inr rs \<and>
    map (\<lambda>r. EncodeKeyboardReport (tr_modifier r) (tr_keys r)) rs = map Inr frames \<and>
    map host_types frames = map Some (runes ''Hi!'')"
proof -
  have "MapTypeReports (\<lambda>_ _. False) (runes ''Hi!'') =
      Inr (map (typed_report_of \<circ> us_press) (runes ''Hi!''))"
    unfolding MapTypeReports_Inr_iff by (simp add: runes_def us_supported_def)
  from typed_text_is_read_back [OF this] this show ?thesis by blast
qed

text \<open>
  Typing is all or nothing: \<open>MapTypeString\<close> answers with a press per rune exactly for a
  non-empty text of at most 4096 printable ASCII runes, newlines and tabs, and otherwise
  with no press at all but the error of the first offending rune, which names only its
  one-based position and its Unicode category.
\<close>

theorem type_string_all_or_nothing:
  "(is_ok (MapTypeString t txt) \<longleftrightarrow>
     txt \<noteq> [] \<and> length txt \<le> 4096 \<and> (\<forall>r \<in> set txt. us_supported r)) \<and>
   (length (pre @ r # suf) \<le> 4096 \<longrightarrow> (\<forall>c \<in> set pre. us_supported c) \<longrightarrow> \<not> us_supported r \<longrightarrow>
     MapTypeString t (pre @ r # suf) =
       Inl (Unsupported (CharacterContext (length pre + 1) (unicodeGeneralCategory t r))))"
proof -
  have "is_ok (MapTypeString t txt) \<longleftrightarrow>
     txt \<noteq> [] \<and> length txt \<le> 4096 \<and> (\<forall>r \<in> set txt. us_supported r)"
    by (auto simp: is_ok_iff MapTypeString_Inr_iff)
  then show ?thesis
    by (simp add: MapTypeString_def MaxTypeStringRunes_def map_type_runes_first_error
        TypeCharacterContext_def)
qed

theorem type_string_all_or_nothing_witness:
  "MapTypeString (\<lambda>c r. c = ''Ll'') [104, 233, 108] = Inl (Unsupported (CharacterContext 2 ''Ll''))"
  using type_string_all_or_nothing [of "\<lambda>c r. c = ''Ll''" "[]" "[104]" 233 "[108]"]
  by (simp add: us_supported_def unicodeGeneralCategory_def unicodeGeneralCategories_def)

end
