(* ===== verification/Text.thy ===== *)
theory Text
  imports Prelude
begin

text \<open>
  The functions of Go's \<open>strings\<close>, \<open>unicode\<close> and \<open>strconv\<close> packages that several components
  use, on texts as lists of code points. The lower-case mapping of a rune outside ASCII is
  the parameter \<open>ulow\<close> (the Unicode table of the Go library).
\<close>

section \<open>Runes\<close>

text \<open>\<open>unicode.IsSpace\<close>.\<close>

definition is_space :: "rune \<Rightarrow> bool" where
  "is_space r \<longleftrightarrow> r \<in> {9, 10, 11, 12, 13, 32, 0x85, 0xA0, 0x1680, 0x2028, 0x2029, 0x202f,
     0x205f, 0x3000} \<or> (0x2000 \<le> r \<and> r \<le> 0x200a)"

definition to_lower :: "(rune \<Rightarrow> rune) \<Rightarrow> rune \<Rightarrow> rune" where
  "to_lower ulow r = (if 65 \<le> r \<and> r \<le> 90 then r + 32 else if r < 128 then r else ulow r)"

text \<open>
  The bytes of a rune in UTF-8: Go's \<open>len\<close> counts bytes. A Go string may hold bytes that are no
  UTF-8; such a byte \<open>b\<close> is the number \<open>0x110000 + b\<close>, beyond all code points. It counts one byte, two of
  them are equal when the bytes are, and no character class of the code contains it, as \<open>range\<close> and
  \<open>regexp\<close> read it as U+FFFD.
\<close>

definition raw_byte :: "int \<Rightarrow> rune" where
  "raw_byte b = 0x110000 + b"

definition rune_len :: "rune \<Rightarrow> nat" where
  "rune_len r = (if r < 0x80 then 1 else if r < 0x800 then 2 else if r < 0x10000 then 3 else if r < 0x110000 then 4
     else 1)"

definition rune_bytes :: "rune \<Rightarrow> int list" where
  "rune_bytes r =
    (if r < 0x80 then [r]
     else if r < 0x800 then [0xC0 + r div 64, 0x80 + r mod 64]
     else if r < 0x10000 then [0xE0 + r div 4096, 0x80 + r div 64 mod 64, 0x80 + r mod 64]
     else if r < 0x110000
       then [0xF0 + r div 262144, 0x80 + r div 4096 mod 64, 0x80 + r div 64 mod 64, 0x80 + r mod 64]
     else [r - 0x110000])"

lemma rune_bytes_length: "length (rune_bytes r) = rune_len r"
  by (simp add: rune_bytes_def rune_len_def)

text \<open>The bytes of a rune that was cut before its end: none of them reads as a character of ASCII.\<close>

lemma cut_rune_bytes: "n < rune_len r \<Longrightarrow> b \<in> set (take n (rune_bytes r)) \<Longrightarrow> 0x110000 \<le> raw_byte b"
  by (auto simp: rune_bytes_def rune_len_def raw_byte_def pos_imp_zdiv_nonneg_iff
      dest!: in_set_takeD split: if_splits)

definition byte_len :: "text_runes \<Rightarrow> nat" where
  "byte_len s = sum_list (map rune_len s)"

section \<open>Texts\<close>

definition trim_space :: "text_runes \<Rightarrow> text_runes" where
  "trim_space s = rev (dropWhile is_space (rev (dropWhile is_space s)))"

definition lowered :: "(rune \<Rightarrow> rune) \<Rightarrow> text_runes \<Rightarrow> text_runes" where
  "lowered ulow s = map (to_lower ulow) s"

definition contains :: "text_runes \<Rightarrow> text_runes \<Rightarrow> bool" where
  "contains s t \<longleftrightarrow> list_ex (\<lambda>i. take (length t) (drop i s) = t) [0..<length s + 1]"

definition has_prefix :: "text_runes \<Rightarrow> text_runes \<Rightarrow> bool" where
  "has_prefix s p \<longleftrightarrow> take (length p) s = p"

definition has_suffix :: "text_runes \<Rightarrow> text_runes \<Rightarrow> bool" where
  "has_suffix s p \<longleftrightarrow> has_prefix (rev s) (rev p)"

text \<open>\<open>strings.Split\<close> at a one-rune separator, and \<open>strings.Cut\<close>.\<close>

fun split_at :: "rune \<Rightarrow> text_runes \<Rightarrow> text_runes list" where
  "split_at sep [] = [[]]"
| "split_at sep (r # rs) =
    (if r = sep then [] # split_at sep rs
     else case split_at sep rs of
        [] \<Rightarrow> [[r]]
      | part # parts \<Rightarrow> (r # part) # parts)"

fun cut_at :: "rune \<Rightarrow> text_runes \<Rightarrow> (text_runes \<times> text_runes) option" where
  "cut_at sep [] = None"
| "cut_at sep (r # rs) =
    (if r = sep then Some ([], rs)
     else map_option (\<lambda>(before, after). (r # before, after)) (cut_at sep rs))"

text \<open>
  \<open>strings.EqualFold\<close> with a text of ASCII letters: besides the two cases of a letter only the
  Kelvin sign and the long s fold to one.
\<close>

definition fold_rune :: "rune \<Rightarrow> rune" where
  "fold_rune r = (if r = 0x212A then 107 else if r = 0x17F then 115
     else if 65 \<le> r \<and> r \<le> 90 then r + 32 else r)"

definition equal_fold :: "text_runes \<Rightarrow> text_runes \<Rightarrow> bool" where
  "equal_fold s t \<longleftrightarrow> map fold_rune s = map fold_rune t"

section \<open>UTF-8\<close>

text \<open>
  A text from bytes, as \<open>range\<close> reads it: a byte that starts no well-formed sequence stands alone.
\<close>

definition continues :: "byte \<Rightarrow> bool" where
  "continues b \<longleftrightarrow> 0x80 \<le> b \<and> b \<le> 0xBF"

definition tail_bits :: "byte \<Rightarrow> int" where
  "tail_bits b = uint b - 0x80"

fun decode_utf8 :: "byte list \<Rightarrow> text_runes" where
  "decode_utf8 [] = []"
| "decode_utf8 (b # bs) =
    (if b < 0x80 then uint b # decode_utf8 bs
     else if 0xC2 \<le> b \<and> b \<le> 0xDF \<and> length bs \<ge> 1 \<and> continues (bs ! 0)
       then ((uint b - 0xC0) * 64 + tail_bits (bs ! 0)) # decode_utf8 (drop 1 bs)
     else if 0xE0 \<le> b \<and> b \<le> 0xEF \<and> length bs \<ge> 2 \<and> continues (bs ! 0) \<and> continues (bs ! 1) \<and>
         (b = 0xE0 \<longrightarrow> 0xA0 \<le> bs ! 0) \<and> (b = 0xED \<longrightarrow> bs ! 0 \<le> 0x9F)
       then ((uint b - 0xE0) * 4096 + tail_bits (bs ! 0) * 64 + tail_bits (bs ! 1)) # decode_utf8 (drop 2 bs)
     else if 0xF0 \<le> b \<and> b \<le> 0xF4 \<and> length bs \<ge> 3 \<and> continues (bs ! 0) \<and> continues (bs ! 1) \<and>
         continues (bs ! 2) \<and> (b = 0xF0 \<longrightarrow> 0x90 \<le> bs ! 0) \<and> (b = 0xF4 \<longrightarrow> bs ! 0 \<le> 0x8F)
       then ((uint b - 0xF0) * 262144 + tail_bits (bs ! 0) * 4096 + tail_bits (bs ! 1) * 64 +
         tail_bits (bs ! 2)) # decode_utf8 (drop 3 bs)
     else raw_byte (uint b) # decode_utf8 bs)"

section \<open>Decimal numbers\<close>

text \<open>\<open>strconv.Itoa\<close>, \<open>FormatInt\<close> and \<open>FormatUint\<close> in base ten.\<close>

fun decimal :: "nat \<Rightarrow> text_runes" where
  "decimal n = (if n < 10 then [48 + int n] else decimal (n div 10) @ [48 + int (n mod 10)])"

declare decimal.simps [simp del]

definition decimal_int :: "int \<Rightarrow> text_runes" where
  "decimal_int i = (if i < 0 then 45 # decimal (nat (- i)) else decimal (nat i))"

definition is_digit :: "rune \<Rightarrow> bool" where
  "is_digit r \<longleftrightarrow> 48 \<le> r \<and> r \<le> 57"

lemma decimal_digits: "r \<in> set (decimal n) \<Longrightarrow> is_digit r"
proof (induction n rule: decimal.induct)
  case (1 n)
  then show ?case by (subst (asm) (2) decimal.simps) (auto simp: is_digit_def split: if_splits)
qed

text \<open>\<open>strconv.FormatBool\<close>.\<close>

definition format_bool :: "bool \<Rightarrow> text_runes" where
  "format_bool b = (if b then runes ''true'' else runes ''false'')"

lemma contains_append: "contains (xs @ t @ ys) t"
  by (auto simp: contains_def list_ex_iff intro!: bexI [of _ "length xs"])

lemma trim_space_Nil [simp]: "trim_space [] = []"
  by (simp add: trim_space_def)

lemma set_trim_space: "set (trim_space s) \<subseteq> set s"
  by (auto simp: trim_space_def dest!: set_dropWhileD)

end
