(* ===== verification/Keymap.thy ===== *)
theory Keymap
  imports Type_String Text
begin

text \<open>
  The key and chord resolver, \<open>keymap.go\<close> and \<open>keycombo.go\<close>: a name such as
  \<open>Control_L+Alt_L+Delete\<close> becomes a modifier byte and at most six key usages.

  Go's maps are association lists with the literal's rows; the names in them are strings
  and are compared as code points. \<open>strings.ToLower\<close> is exact on ASCII; what it does to
  another rune is the parameter \<open>ulow\<close> (the Unicode lower-case table), as in \<open>Text\<close>.

  The lemmas characterise when resolution succeeds, and relate the resolver with the
  report encoder and with the US layout of \<open>Type_String\<close>.
\<close>

section \<open>Tables\<close>

definition ModifierLeftControl :: byte where "ModifierLeftControl = 1"
definition ModifierLeftShift :: byte where "ModifierLeftShift = 2"
definition ModifierLeftAlt :: byte where "ModifierLeftAlt = 4"
definition ModifierLeftMeta :: byte where "ModifierLeftMeta = 8"
definition ModifierRightControl :: byte where "ModifierRightControl = 16"
definition ModifierRightShift :: byte where "ModifierRightShift = 32"
definition ModifierRightAlt :: byte where "ModifierRightAlt = 64"
definition ModifierRightMeta :: byte where "ModifierRightMeta = 128"

lemmas modifier_defs = ModifierLeftControl_def ModifierLeftShift_def ModifierLeftAlt_def
  ModifierLeftMeta_def ModifierRightControl_def ModifierRightShift_def ModifierRightAlt_def
  ModifierRightMeta_def

definition MaxKeyComboNameRunes :: nat where "MaxKeyComboNameRunes = 64"

record ResolvedKeyCombo =
  rk_modifier :: byte
  rk_keys :: "byte list"

definition modifierBits :: "(string \<times> byte) list" where
  "modifierBits =
    [(''ctrl'', ModifierLeftControl), (''control'', ModifierLeftControl),
     (''controll'', ModifierLeftControl), (''leftctrl'', ModifierLeftControl),
     (''leftcontrol'', ModifierLeftControl), (''lctrl'', ModifierLeftControl),
     (''shift'', ModifierLeftShift), (''shiftl'', ModifierLeftShift),
     (''leftshift'', ModifierLeftShift), (''lshift'', ModifierLeftShift),
     (''alt'', ModifierLeftAlt), (''altl'', ModifierLeftAlt),
     (''leftalt'', ModifierLeftAlt), (''lalt'', ModifierLeftAlt),
     (''meta'', ModifierLeftMeta), (''super'', ModifierLeftMeta),
     (''win'', ModifierLeftMeta), (''windows'', ModifierLeftMeta),
     (''cmd'', ModifierLeftMeta), (''command'', ModifierLeftMeta),
     (''gui'', ModifierLeftMeta), (''controlr'', ModifierRightControl),
     (''rightctrl'', ModifierRightControl), (''rightcontrol'', ModifierRightControl),
     (''rctrl'', ModifierRightControl), (''shiftr'', ModifierRightShift),
     (''rightshift'', ModifierRightShift), (''rshift'', ModifierRightShift),
     (''altr'', ModifierRightAlt), (''altgr'', ModifierRightAlt),
     (''rightalt'', ModifierRightAlt), (''ralt'', ModifierRightAlt),
     (''metar'', ModifierRightMeta), (''rightmeta'', ModifierRightMeta),
     (''rmeta'', ModifierRightMeta), (''rightwin'', ModifierRightMeta),
     (''rightcmd'', ModifierRightMeta)]"

definition key_usage_literals :: "(string \<times> byte) list" where
  "key_usage_literals =
    [(''enter'', 0x28), (''return'', 0x28), (''ret'', 0x28), (''esc'', 0x29),
     (''escape'', 0x29), (''backspace'', 0x2a), (''bksp'', 0x2a), (''tab'', 0x2b),
     (''space'', 0x2c), (''spacebar'', 0x2c), (''capslock'', 0x39), (''caps'', 0x39),
     (''printscreen'', 0x46), (''prtsc'', 0x46), (''scrolllock'', 0x47), (''pause'', 0x48),
     (''break'', 0x48), (''insert'', 0x49), (''ins'', 0x49), (''home'', 0x4a),
     (''pageup'', 0x4b), (''pgup'', 0x4b), (''prior'', 0x4b), (''delete'', 0x4c),
     (''del'', 0x4c), (''end'', 0x4d), (''pagedown'', 0x4e), (''pgdn'', 0x4e),
     (''next'', 0x4e), (''rightarrow'', 0x4f), (''right'', 0x4f), (''arrowright'', 0x4f),
     (''leftarrow'', 0x50), (''left'', 0x50), (''arrowleft'', 0x50), (''downarrow'', 0x51),
     (''down'', 0x51), (''arrowdown'', 0x51), (''uparrow'', 0x52), (''up'', 0x52),
     (''arrowup'', 0x52), (''menu'', 0x65), (''applications'', 0x65), (''minus'', 0x2d),
     (''equal'', 0x2e), (''equals'', 0x2e), (''leftbracket'', 0x2f),
     (''rightbracket'', 0x30), (''backslash'', 0x31), (''semicolon'', 0x33),
     (''quote'', 0x34), (''grave'', 0x35), (''backtick'', 0x35), (''comma'', 0x36),
     (''period'', 0x37), (''slash'', 0x38)]"

text \<open>The rows that \<open>init\<close> adds: \<open>f1\<close> to \<open>f12\<close>, the letters and the digits.\<close>

definition key_usage_init :: "(string \<times> byte) list" where
  "key_usage_init =
    zip [''f1'', ''f2'', ''f3'', ''f4'', ''f5'', ''f6'', ''f7'', ''f8'', ''f9'', ''f10'', ''f11'', ''f12'']
      (map (\<lambda>i. word_of_int (0x3a + i - 1)) [1..12]) @
    zip (map (\<lambda>c. [c]) ''abcdefghijklmnopqrstuvwxyz'') (map (\<lambda>i. word_of_int (0x04 + i)) [0..25]) @
    zip (map (\<lambda>c. [c]) ''123456789'') (map (\<lambda>d. word_of_int (0x1e + d - 1)) [1..9]) @
    [(''0'', 0x27)]"

definition keyUsages :: "(string \<times> byte) list" where
  "keyUsages = key_usage_literals @ key_usage_init"

text \<open>A Go map lookup: the names of a table, compared as code points.\<close>

definition table_find :: "(string \<times> byte) list \<Rightarrow> text_runes \<Rightarrow> byte option" where
  "table_find t n = map_option snd (find (\<lambda>(s, _). runes s = n) t)"

definition shiftedKeys :: "(rune \<times> byte) list" where
  "shiftedKeys =
    [(code_point CHR ''!'', 0x1e), (code_point CHR ''@'', 0x1f), (code_point CHR ''#'', 0x20),
     (code_point CHR ''$'', 0x21), (code_point CHR ''%'', 0x22), (code_point CHR ''^'', 0x23),
     (code_point CHR ''&'', 0x24), (code_point CHR ''*'', 0x25), (code_point CHR ''('', 0x26),
     (code_point CHR '')'', 0x27), (code_point CHR ''_'', 0x2d), (code_point CHR ''+'', 0x2e),
     (code_point CHR ''{'', 0x2f), (code_point CHR ''}'', 0x30), (code_point CHR ''|'', 0x31),
     (code_point CHR '':'', 0x33), (code_point CHR 0x22, 0x34), (code_point CHR ''~'', 0x35),
     (code_point CHR ''<'', 0x36), (code_point CHR ''>'', 0x37), (code_point CHR ''?'', 0x38)]"

section \<open>Tokens\<close>

datatype key_error =
    NameTooLong
  | EmptyCombo
  | EmptyToken
  | UnknownKey text_runes
  | InvalidCombo control_error
  | SequenceError control_error
  | AtIndex nat key_error

definition normalizeKeyToken :: "(rune \<Rightarrow> rune) \<Rightarrow> text_runes \<Rightarrow> text_runes" where
  "normalizeKeyToken ulow s =
    filter (\<lambda>r. \<not> (r = code_point CHR ''_'' \<or> r = code_point CHR ''-'' \<or> r = code_point CHR '' ''))
      (map (to_lower ulow) s)"

text \<open>
  \<open>resolveToken\<close> gets a pointer to the shift byte; here the result carries its new value.
  \<open>resolve_named\<close> is the part of its body after the single-rune cases.
\<close>

definition resolve_named ::
  "(rune \<Rightarrow> rune) \<Rightarrow> text_runes \<Rightarrow> byte \<Rightarrow> key_error + byte \<times> byte \<times> byte" where
  "resolve_named ulow tok shift =
    (let n = normalizeKeyToken ulow tok in
     if n = [] then Inl EmptyToken
     else case table_find modifierBits n of
        Some m \<Rightarrow> Inr (m, 0, shift)
      | None \<Rightarrow> (case table_find keyUsages n of
          Some k \<Rightarrow> Inr (0, k, shift)
        | None \<Rightarrow> Inl (UnknownKey tok)))"

definition resolveToken ::
  "(rune \<Rightarrow> rune) \<Rightarrow> text_runes \<Rightarrow> byte \<Rightarrow> key_error + byte \<times> byte \<times> byte" where
  "resolveToken ulow tok shift =
    (case tok of
       [c] \<Rightarrow> (case map_of shiftedKeys c of
           Some base \<Rightarrow> Inr (0, base, shift OR ModifierLeftShift)
         | None \<Rightarrow>
             (if c \<ge> code_point CHR ''A'' \<and> c \<le> code_point CHR ''Z''
              then Inr (0, word_of_int (0x04 + (c - code_point CHR ''A'')),
                        shift OR ModifierLeftShift)
              else resolve_named ulow tok shift))
     | _ \<Rightarrow> resolve_named ulow tok shift)"

text \<open>\<open>strings.FieldsFunc\<close>: the maximal runs of runes that are no separators.\<close>

fun fields_func :: "(rune \<Rightarrow> bool) \<Rightarrow> text_runes \<Rightarrow> text_runes \<Rightarrow> text_runes list" where
  "fields_func f cur [] = (if cur = [] then [] else [cur])"
| "fields_func f cur (r # rs) =
    (if f r then (if cur = [] then [] else [cur]) @ fields_func f [] rs
     else fields_func f (cur @ [r]) rs)"

definition is_separator :: "rune \<Rightarrow> bool" where
  "is_separator r \<longleftrightarrow> r = code_point CHR ''+'' \<or> r = code_point CHR ''-'' \<or> is_space r"

definition combo_tokens :: "text_runes \<Rightarrow> text_runes list" where
  "combo_tokens name = fields_func is_separator [] name"

section \<open>Chords\<close>

text \<open>The loop of \<open>ResolveKeyCombo\<close> with its variables \<open>mod\<close>, \<open>shift\<close> and \<open>usages\<close>.\<close>

fun resolve_tokens ::
  "(rune \<Rightarrow> rune) \<Rightarrow> byte \<Rightarrow> byte \<Rightarrow> int list \<Rightarrow> text_runes list \<Rightarrow>
   key_error + byte \<times> byte \<times> int list" where
  "resolve_tokens ulow md shift usages [] = Inr (md, shift, usages)"
| "resolve_tokens ulow md shift usages (tok # toks) =
    (case resolveToken ulow tok shift of
       Inl e \<Rightarrow> Inl e
     | Inr (m, k, shift') \<Rightarrow>
         (if m \<noteq> 0 then resolve_tokens ulow (md OR m) shift' usages toks
          else resolve_tokens ulow md shift' (usages @ [uint k]) toks))"

definition ResolveKeyCombo ::
  "(rune \<Rightarrow> rune) \<Rightarrow> text_runes \<Rightarrow> key_error + byte \<times> byte list" where
  "ResolveKeyCombo ulow name =
    (if length name > MaxKeyComboNameRunes then Inl NameTooLong
     else let raw = combo_tokens name in
       if length raw = 0 then Inl EmptyCombo
       else case resolve_tokens ulow 0 0 [] raw of
          Inl e \<Rightarrow> Inl e
        | Inr (md, shift, usages) \<Rightarrow>
            (let md = md OR shift in
             case ValidateKeyCombo (uint md) usages of
               Inl e \<Rightarrow> Inl (InvalidCombo e)
             | Inr _ \<Rightarrow> Inr (md, map word_of_int usages)))"

fun resolve_names ::
  "(rune \<Rightarrow> rune) \<Rightarrow> nat \<Rightarrow> text_runes list \<Rightarrow> key_error + ResolvedKeyCombo list" where
  "resolve_names ulow i [] = Inr []"
| "resolve_names ulow i (name # names) =
    (case ResolveKeyCombo ulow name of
       Inl e \<Rightarrow> Inl (AtIndex i e)
     | Inr (md, keys) \<Rightarrow>
         (case ValidateKeyCombo (uint md) (map uint keys) of
            Inl e \<Rightarrow> Inl (AtIndex i (InvalidCombo e))
          | Inr _ \<Rightarrow> (case resolve_names ulow (i + 1) names of
               Inl e \<Rightarrow> Inl e
             | Inr rs \<Rightarrow> Inr (\<lparr>rk_modifier = md, rk_keys = keys\<rparr> # rs))))"

definition ResolveKeySequence ::
  "(rune \<Rightarrow> rune) \<Rightarrow> text_runes list \<Rightarrow> key_error + ResolvedKeyCombo list" where
  "ResolveKeySequence ulow names =
    (case ValidateKeySequenceLength (int (length names)) of
       Inl e \<Rightarrow> Inl (SequenceError e)
     | Inr _ \<Rightarrow> resolve_names ulow 0 names)"


section \<open>The tables hold no zero\<close>

definition no_zero :: "(string \<times> byte) list \<Rightarrow> bool" where
  "no_zero t = list_all (\<lambda>(_, b). b \<noteq> 0) t"

lemma tables_no_zero: "no_zero modifierBits" "no_zero keyUsages" "list_all (\<lambda>(_, b). b \<noteq> 0) shiftedKeys"
  by (simp_all add: no_zero_def modifierBits_def modifier_defs keyUsages_def key_usage_literals_def
      key_usage_init_def shiftedKeys_def upto_rec1 [of 0] upto_rec1 [of 1])

lemma table_find_nonzero: "table_find t n = Some b \<Longrightarrow> no_zero t \<Longrightarrow> b \<noteq> 0"
  by (auto simp: table_find_def no_zero_def list_all_iff find_Some_iff dest!: nth_mem)

lemma shiftedKeys_nonzero: "map_of shiftedKeys c = Some b \<Longrightarrow> b \<noteq> 0"
  using tables_no_zero(3) by (auto simp: list_all_iff dest: map_of_SomeD)

section \<open>Tokens, one by one\<close>

text \<open>What one token contributes to the modifier byte, shift included, and to the key array.\<close>

definition token_modifier :: "(rune \<Rightarrow> rune) \<Rightarrow> text_runes \<Rightarrow> byte" where
  "token_modifier ulow tok = (case resolveToken ulow tok 0 of
      Inl _ \<Rightarrow> 0
    | Inr (m, k, s) \<Rightarrow> m OR s)"

definition token_keys :: "(rune \<Rightarrow> rune) \<Rightarrow> text_runes \<Rightarrow> byte list" where
  "token_keys ulow tok = (case resolveToken ulow tok 0 of
      Inl _ \<Rightarrow> []
    | Inr (m, k, s) \<Rightarrow> (if m \<noteq> 0 then [] else [k]))"

definition known_token :: "(rune \<Rightarrow> rune) \<Rightarrow> text_runes \<Rightarrow> bool" where
  "known_token ulow tok = is_ok (resolveToken ulow tok 0)"

lemma resolve_named_shift:
  "resolve_named ulow tok s =
     (case resolve_named ulow tok 0 of Inl e \<Rightarrow> Inl e | Inr (m, k, s') \<Rightarrow> Inr (m, k, s OR s'))"
  by (simp add: resolve_named_def Let_def split: option.splits)

lemma resolveToken_cases [case_names shifted upper named]:
  obtains c b where "tok = [c]" "map_of shiftedKeys c = Some b"
      "\<And>s. resolveToken ulow tok s = Inr (0, b, s OR 2)"
  | c where "tok = [c]" "65 \<le> c" "c \<le> 90"
      "\<And>s. resolveToken ulow tok s = Inr (0, word_of_int (c - 61), s OR 2)"
  | "\<And>s. resolveToken ulow tok s = resolve_named ulow tok s"
proof (cases "\<exists>c. tok = [c]")
  case False
  then have "resolveToken ulow tok s = resolve_named ulow tok s" for s
    by (auto simp: resolveToken_def split: list.splits)
  then show thesis by (rule that(3))
next
  case True
  then obtain c where c: "tok = [c]" by blast
  show thesis
  proof (cases "map_of shiftedKeys c")
    case (Some b)
    then show thesis using c that(1) by (simp add: resolveToken_def ModifierLeftShift_def)
  next
    case None
    with c that(2,3) show thesis
      by (cases "65 \<le> c \<and> c \<le> 90") (auto simp: resolveToken_def ModifierLeftShift_def)
  qed
qed

lemma resolveToken_shift:
  "resolveToken ulow tok s =
     (case resolveToken ulow tok 0 of Inl e \<Rightarrow> Inl e | Inr (m, k, s') \<Rightarrow> Inr (m, k, s OR s'))"
  by (cases ulow tok rule: resolveToken_cases) (simp_all add: resolve_named_shift [of ulow tok s])

lemma resolve_named_meaningful:
  "resolve_named ulow tok s = Inr (m, k, s') \<Longrightarrow> s' = s \<and> (m \<noteq> 0 \<and> k = 0 \<or> m = 0 \<and> k \<noteq> 0)"
  by (auto simp: resolve_named_def Let_def split: option.splits if_splits
      dest: table_find_nonzero [OF _ tables_no_zero(1)] table_find_nonzero [OF _ tables_no_zero(2)])

lemma letter_usage: "65 \<le> c \<Longrightarrow> c \<le> 90 \<Longrightarrow> uint (word_of_int (c - 61) :: byte) = c - 61"
  by (intro uint_byte) auto

lemma resolveToken_meaningful:
  assumes "resolveToken ulow tok s = Inr (m, k, s')"
  shows "m \<noteq> 0 \<and> k = 0 \<and> s' = s \<or> m = 0 \<and> k \<noteq> 0"
  using assms
proof (cases ulow tok rule: resolveToken_cases)
  case (upper c)
  with assms letter_usage [of c] show ?thesis by auto
qed (use shiftedKeys_nonzero resolve_named_meaningful in auto)

lemma resolveToken_parts:
  assumes "known_token ulow tok"
  obtains m k s' where "resolveToken ulow tok s = Inr (m, k, s OR s')"
    "token_modifier ulow tok = m OR s'" "token_keys ulow tok = (if m \<noteq> 0 then [] else [k])"
    "m \<noteq> 0 \<and> s' = 0 \<or> m = 0 \<and> k \<noteq> 0"
proof -
  from assms obtain m k s' where "resolveToken ulow tok 0 = Inr (m, k, s')"
    by (auto simp: known_token_def is_ok_iff)
  then show ?thesis
    using resolveToken_meaningful [of ulow tok 0 m k s']
    by (intro that [of m k s'])
      (auto simp: resolveToken_shift [of ulow tok s] token_modifier_def token_keys_def)
qed

lemma resolveToken_unknown: "\<not> known_token ulow tok \<Longrightarrow> \<exists>e. resolveToken ulow tok s = Inl e"
  by (cases "resolveToken ulow tok 0") (auto simp: known_token_def resolveToken_shift [of ulow tok s])

lemma token_keys_or_modifier:
  "known_token ulow tok \<Longrightarrow> token_modifier ulow tok \<noteq> 0 \<or> token_keys ulow tok \<noteq> []"
  by (erule resolveToken_parts [where s = 0]) auto

lemma token_keys_nonzero: "k \<in> set (token_keys ulow tok) \<Longrightarrow> k \<noteq> 0"
  by (cases "resolveToken ulow tok 0")
    (auto simp: token_keys_def dest: resolveToken_meaningful split: if_splits)

section \<open>The whole chord\<close>

definition chord_modifier :: "(rune \<Rightarrow> rune) \<Rightarrow> text_runes list \<Rightarrow> byte" where
  "chord_modifier ulow toks = foldr (\<lambda>tok b. token_modifier ulow tok OR b) toks 0"

definition chord_keys :: "(rune \<Rightarrow> rune) \<Rightarrow> text_runes list \<Rightarrow> byte list" where
  "chord_keys ulow toks = concat (map (token_keys ulow) toks)"

lemma resolve_tokens_unknown:
  "tok \<in> set toks \<Longrightarrow> \<not> known_token ulow tok \<Longrightarrow> \<exists>e. resolve_tokens ulow md s us toks = Inl e"
proof (induction toks arbitrary: md s us)
  case (Cons t toks)
  show ?case
  proof (cases "known_token ulow t")
    case True
    then obtain m k s' where "resolveToken ulow t s = Inr (m, k, s OR s')"
      by (rule resolveToken_parts)
    with Cons True show ?thesis by auto
  next
    case False
    with resolveToken_unknown [OF this, of s] show ?thesis by auto
  qed
qed simp

lemma resolve_tokens_known:
  assumes "\<forall>tok \<in> set toks. known_token ulow tok"
  shows "\<exists>md' s'. resolve_tokens ulow md s us toks =
      Inr (md', s', us @ map uint (chord_keys ulow toks)) \<and>
    md' OR s' = md OR s OR chord_modifier ulow toks"
  using assms
proof (induction toks arbitrary: md s us)
  case Nil
  then show ?case by (simp add: chord_keys_def chord_modifier_def)
next
  case (Cons t toks)
  then have "known_token ulow t" by simp
  then obtain m k s' where r: "resolveToken ulow t s = Inr (m, k, s OR s')"
    "token_modifier ulow t = m OR s'" "token_keys ulow t = (if m \<noteq> 0 then [] else [k])"
    by (rule resolveToken_parts)
  show ?case
    using r Cons.prems Cons.IH [of "md OR m" "s OR s'" us]
      Cons.IH [of md "s OR s'" "us @ [uint k]"]
    by (cases "m = 0") (auto simp: chord_keys_def chord_modifier_def ac_simps)
qed

lemma chord_not_empty:
  assumes "\<forall>tok \<in> set toks. known_token ulow tok" "toks \<noteq> []"
  shows "chord_modifier ulow toks \<noteq> 0 \<or> chord_keys ulow toks \<noteq> []"
  using assms
proof (cases toks)
  case (Cons t ts)
  then show ?thesis
    using assms(1) token_keys_or_modifier [of ulow t]
    by (auto simp: chord_modifier_def chord_keys_def or_eq_0_iff)
qed simp

lemma chord_keys_nonzero: "k \<in> set (chord_keys ulow toks) \<Longrightarrow> k \<noteq> 0"
  by (auto simp: chord_keys_def dest: token_keys_nonzero)

lemma chord_validates:
  assumes "\<forall>tok \<in> set toks. known_token ulow tok" "toks \<noteq> []"
  shows "is_ok (ValidateKeyCombo (uint (chord_modifier ulow toks)) (map uint (chord_keys ulow toks)))
    \<longleftrightarrow> length (chord_keys ulow toks) \<le> 6"
proof -
  have byte: "uint (b :: byte) \<le> 255" for b
    using uint_range_size [of b] by (simp add: word_size)
  have "uint (chord_modifier ulow toks) \<noteq> 0 \<or> (\<exists>k \<in> set (map uint (chord_keys ulow toks)). k \<noteq> 0)"
    using chord_not_empty [OF assms] chord_keys_nonzero [of _ ulow toks]
    by (cases "chord_keys ulow toks") (auto simp: unsigned_eq_0_iff)
  then show ?thesis by (auto simp: ValidateKeyCombo_ok byte)
qed

lemma ResolveKeyCombo_Inr_iff:
  "ResolveKeyCombo ulow name = Inr (m, ks) \<longleftrightarrow>
     length name \<le> 64 \<and> combo_tokens name \<noteq> [] \<and>
     (\<forall>tok \<in> set (combo_tokens name). known_token ulow tok) \<and>
     length (chord_keys ulow (combo_tokens name)) \<le> 6 \<and>
     m = chord_modifier ulow (combo_tokens name) \<and> ks = chord_keys ulow (combo_tokens name)"
    (is "?l \<longleftrightarrow> ?r")
proof (cases "\<forall>tok \<in> set (combo_tokens name). known_token ulow tok")
  case False
  then obtain e where "resolve_tokens ulow 0 0 [] (combo_tokens name) = Inl e"
    using resolve_tokens_unknown by blast
  with False show ?thesis by (auto simp: ResolveKeyCombo_def Let_def)
next
  case True
  then obtain md s where r: "resolve_tokens ulow 0 0 [] (combo_tokens name) =
      Inr (md, s, map uint (chord_keys ulow (combo_tokens name)))"
    "md OR s = chord_modifier ulow (combo_tokens name)"
    using resolve_tokens_known [of "combo_tokens name" ulow 0 0 "[]"] by auto
  have v: "(\<exists>u. ValidateKeyCombo (uint (chord_modifier ulow (combo_tokens name)))
      (map uint (chord_keys ulow (combo_tokens name))) = Inr u) \<longleftrightarrow>
      length (chord_keys ulow (combo_tokens name)) \<le> 6" if "combo_tokens name \<noteq> []"
    using chord_validates [OF True that] by (simp add: is_ok_iff)
  have "map word_of_int (map uint ks) = ks" for ks :: "byte list"
    by (simp add: o_def)
  with r v True show ?thesis
    by (auto simp: ResolveKeyCombo_def Let_def MaxKeyComboNameRunes_def)
qed

lemma resolve_names_ok:
  "is_ok (resolve_names ulow i names) \<longleftrightarrow> (\<forall>n \<in> set names. is_ok (ResolveKeyCombo ulow n))"
proof (induction names arbitrary: i)
  case (Cons n names)
  have "is_ok (ValidateKeyCombo (uint m) (map uint ks))" if "ResolveKeyCombo ulow n = Inr (m, ks)" for m ks
    using that chord_validates [of "combo_tokens n" ulow] by (auto simp: ResolveKeyCombo_Inr_iff)
  then show ?case
    using Cons.IH [of "i + 1"] by (cases "ResolveKeyCombo ulow n") (auto simp: is_ok_iff)
qed simp

section \<open>Separators\<close>

lemma fields_func_tokens:
  "tok \<in> set (fields_func f cur rs) \<Longrightarrow> \<forall>c \<in> set cur. \<not> f c \<Longrightarrow> tok \<noteq> [] \<and> (\<forall>c \<in> set tok. \<not> f c)"
  by (induction f cur rs rule: fields_func.induct) (auto split: if_splits)

lemma concat_fields_func: "concat (fields_func f cur rs) = cur @ filter (\<lambda>r. \<not> f r) rs"
  by (induction f cur rs rule: fields_func.induct) auto

section \<open>Single ASCII runes\<close>

definition one_rune_usages :: "(rune \<times> byte) list" where
  "one_rune_usages = concat (map (\<lambda>(s, b). case s of [c] \<Rightarrow> [(code_point c, b)] | _ \<Rightarrow> []) keyUsages)"

lemma table_find_single:
  "table_find t [r] =
     map_of (concat (map (\<lambda>(s, b). case s of [c] \<Rightarrow> [(code_point c, b)] | _ \<Rightarrow> []) t)) r"
  by (induction t) (auto simp: table_find_def runes_def split: list.splits)

lemma no_one_rune_modifier:
  "concat (map (\<lambda>(s, b). case s of [c] \<Rightarrow> [(code_point c, b)] | _ \<Rightarrow> []) modifierBits) = []"
  by (simp add: modifierBits_def)

definition named_single :: "rune \<Rightarrow> byte option" where
  "named_single c = (if c = 95 \<or> c = 45 \<or> c = 32 then None
     else map_of one_rune_usages (if 65 \<le> c \<and> c \<le> 90 then c + 32 else c))"

lemma resolve_named_single:
  assumes "c < 128"
  shows "resolve_named ulow [c] s = (case named_single c of
      Some k \<Rightarrow> Inr (0, k, s)
    | None \<Rightarrow> Inl (if c = 95 \<or> c = 45 \<or> c = 32 then EmptyToken else UnknownKey [c]))"
  using assms
  by (auto simp: resolve_named_def normalizeKeyToken_def to_lower_def named_single_def Let_def
      table_find_single no_one_rune_modifier one_rune_usages_def [symmetric] split: option.splits)

text \<open>A resolved single ASCII rune, as its key and its shift, from the tables alone.\<close>

definition single_key :: "rune \<Rightarrow> (byte \<times> byte) option" where
  "single_key c = (case map_of shiftedKeys c of
      Some b \<Rightarrow> Some (b, 2)
    | None \<Rightarrow> (if 65 \<le> c \<and> c \<le> 90 then Some (word_of_int (c - 61), 2)
        else map_option (\<lambda>k. (k, 0)) (named_single c)))"

lemma resolveToken_single:
  assumes "c < 128"
  shows "resolveToken ulow [c] 0 = Inr (m, k, s) \<longleftrightarrow> m = 0 \<and> single_key c = Some (k, s)"
  using resolve_named_single [OF assms, of ulow 0]
  by (auto simp: resolveToken_def single_key_def ModifierLeftShift_def split: option.splits)

lemma one_rune_usages_code [code]:
  "one_rune_usages =
    zip [97..122] (map word_of_int [4..29]) @ zip [49..57] (map word_of_int [30..38]) @ [(48, 0x27)]"
  by (simp add: one_rune_usages_def keyUsages_def key_usage_literals_def key_usage_init_def
      upto_rec1 [of 0] upto_rec1 [of 1])

text \<open>The printable runes the chord resolver has no single-rune name for.\<close>

definition layout_gap :: text_runes where
  "layout_gap = runes ''-=[];,./ '' @ [92, 39, 96]"

definition agrees_with_layout :: "rune \<Rightarrow> bool" where
  "agrees_with_layout c = (case single_key c of
      None \<Rightarrow> c \<in> set layout_gap
    | Some (k, s) \<Rightarrow> c \<notin> set layout_gap \<and>
        us_keypress c = (uint s, uint k))"

text \<open>The tables in numbers, for evaluation.\<close>

lemma shiftedKeys_code [code]:
  "shiftedKeys =
    [(33, 0x1e), (64, 0x1f), (35, 0x20), (36, 0x21), (37, 0x22), (94, 0x23), (38, 0x24),
     (42, 0x25), (40, 0x26), (41, 0x27), (95, 0x2d), (43, 0x2e), (123, 0x2f), (125, 0x30),
     (124, 0x31), (58, 0x33), (34, 0x34), (126, 0x35), (60, 0x36), (62, 0x37), (63, 0x38)]"
  by (simp add: shiftedKeys_def)

lemma layout_gap_code [code]:
  "layout_gap = [45, 61, 91, 93, 59, 44, 46, 47, 32, 92, 39, 96]"
  by (simp add: layout_gap_def runes_def)

lemma single_keys_agree: "list_all agrees_with_layout [32..126]"
  by code_simp

section \<open>Properties\<close>

text \<open>
  \<open>ResolveKeyCombo\<close> succeeds exactly when the name has at most 64 runes, at least one
  token, only known tokens and at most six non-modifier tokens; the modifier byte is then
  the union of what every token contributes on its own, the key array the keys of the
  non-modifier tokens in order. No other check of the function can fail.
\<close>

theorem resolve_combo_exact:
  "ResolveKeyCombo ulow name = Inr (m, ks) \<longleftrightarrow>
     length name \<le> 64 \<and> combo_tokens name \<noteq> [] \<and>
     (\<forall>tok. tok \<in> set (combo_tokens name) \<longrightarrow> is_ok (resolveToken ulow tok 0)) \<and>
     length (chord_keys ulow (combo_tokens name)) \<le> 6 \<and>
     m = foldr (\<lambda>tok b. token_modifier ulow tok OR b) (combo_tokens name) 0 \<and>
     ks = concat (map (token_keys ulow) (combo_tokens name))"
  by (auto simp: ResolveKeyCombo_Inr_iff known_token_def chord_modifier_def chord_keys_def)

definition ctrl_alt_del :: text_runes where
  "ctrl_alt_del = runes ''Control_L+Alt_L+Delete''"

lemma ctrl_alt_del_runes:
  "ctrl_alt_del = [67,111,110,116,114,111,108,95,76,43,65,108,116,95,76,43,68,101,108,101,116,101]"
  by (simp add: ctrl_alt_del_def runes_def)

lemma ctrl_alt_del_tokens: "combo_tokens ctrl_alt_del =
   [[67,111,110,116,114,111,108,95,76], [65,108,116,95,76], [68,101,108,101,116,101]]"
  by (simp add: ctrl_alt_del_runes combo_tokens_def is_separator_def is_space_def)

lemma ctrl_alt_del_parts:
  "resolveToken id [67,111,110,116,114,111,108,95,76] 0 = Inr (1, 0, 0)"
  "resolveToken id [65,108,116,95,76] 0 = Inr (4, 0, 0)"
  "resolveToken id [68,101,108,101,116,101] 0 = Inr (0, 0x4c, 0)"
  by (simp_all add: resolveToken_def resolve_named_def normalizeKeyToken_def to_lower_def
      table_find_def modifierBits_def keyUsages_def key_usage_literals_def modifier_defs runes_def)

theorem resolve_combo_exact_witness:
  "ResolveKeyCombo id ctrl_alt_del = Inr (5, [0x4c])"
  unfolding resolve_combo_exact
  by (simp add: ctrl_alt_del_tokens ctrl_alt_del_parts chord_keys_def token_keys_def
      token_modifier_def) (simp add: ctrl_alt_del_runes)

text \<open>
  C19. Whatever the resolver accepts can be sent: the chord passes \<open>ValidateKeyCombo\<close>, no key
  of it is zero, and the keyboard encoder frames it unchanged.
\<close>

theorem resolved_combo_sendable:
  assumes "ResolveKeyCombo ulow name = Inr (m, ks)"
  shows "is_ok (ValidateKeyCombo (uint m) (map uint ks)) \<and> 0 \<notin> set ks \<and>
    EncodeKeyboardReport m ks = Inr (TypeKeyboardReport # m # ks)"
  using assms chord_validates [of "combo_tokens name" ulow] chord_keys_nonzero [of 0]
  by (auto simp: ResolveKeyCombo_Inr_iff EncodeKeyboardReport_Inr_iff)

theorem resolved_combo_sendable_witness:
  "EncodeKeyboardReport 2 [4] = Inr [2, 2, 4]"
proof -
  have "combo_tokens [65] = [[65]]" by (simp add: combo_tokens_def is_separator_def is_space_def)
  moreover have "resolveToken id [65] 0 = Inr (0, 4, 2)"
    by (simp add: resolveToken_def shiftedKeys_def ModifierLeftShift_def)
  ultimately have "ResolveKeyCombo id [65] = Inr (2, [4])"
    by (simp add: ResolveKeyCombo_Inr_iff known_token_def chord_modifier_def chord_keys_def
        token_keys_def token_modifier_def)
  from resolved_combo_sendable [OF this] show ?thesis by (simp add: TypeKeyboardReport_def)
qed

text \<open>
  A sequence is resolved completely or not at all: \<open>ResolveKeySequence\<close> succeeds exactly
  for 1 to 64 names that each resolve, its second validation of a resolved chord never
  fails, and the result has one chord per name, in order.
\<close>

theorem resolve_sequence_all_or_nothing:
  "(is_ok (ResolveKeySequence ulow names) \<longleftrightarrow>
     length names \<in> {1..64} \<and> (\<forall>n. n \<in> set names \<longrightarrow> is_ok (ResolveKeyCombo ulow n))) \<and>
   (ResolveKeySequence ulow names = Inr rs \<longrightarrow>
     map (ResolveKeyCombo ulow) names = map (\<lambda>r. Inr (rk_modifier r, rk_keys r)) rs)"
proof -
  have "map (ResolveKeyCombo ulow) names = map (\<lambda>r. Inr (rk_modifier r, rk_keys r)) rs"
    if "resolve_names ulow i names = Inr rs" for i
    using that by (induction names arbitrary: i rs) auto
  then show ?thesis
    by (auto simp: ResolveKeySequence_def ValidateKeySequenceLength_def resolve_names_ok bound_defs
        Suc_le_eq)
qed

theorem resolve_sequence_all_or_nothing_witness:
  "ResolveKeySequence id [] = Inl (SequenceError (SequenceLength 0)) \<and>
   \<not> is_ok (ResolveKeySequence id [])"
  using resolve_sequence_all_or_nothing [of id "[]" "[]"]
  by (simp add: ResolveKeySequence_def ValidateKeySequenceLength_def)

text \<open>
  On printable ASCII the chord resolver and the US typing layout agree: a single-rune
  token that resolves gets the key and the shift that \<open>MapUSKeyboardRune\<close> gives this rune,
  and the only printable runes that the layout types and no single-rune token names are
  the eleven unshifted punctuation marks and the blank.
\<close>

theorem single_rune_agrees_with_layout:
  assumes "32 \<le> c" "c \<le> 126"
  shows "(resolveToken ulow [c] 0 = Inr (m, k, s) \<longrightarrow>
      MapUSKeyboardRune t c = Inr \<lparr>tk_modifier = uint s, tk_usage = uint k\<rparr>) \<and>
    (is_ok (resolveToken ulow [c] 0) \<longleftrightarrow> c \<notin> set layout_gap)"
proof -
  have "c \<in> set [32..126]" unfolding set_upto using assms by auto
  with single_keys_agree have a: "agrees_with_layout c" unfolding list_all_iff by blast
  have "us_supported c" using assms by (simp add: us_supported_def)
  with a assms show ?thesis
    by (auto simp: agrees_with_layout_def resolveToken_single is_ok_iff MapUSKeyboardRune_Inr
        split: option.splits)
qed

theorem single_rune_agrees_with_layout_witness:
  "MapUSKeyboardRune (\<lambda>_ _. False) 43 = Inr \<lparr>tk_modifier = 2, tk_usage = 0x2e\<rparr>"
proof -
  have "resolveToken id [43] 0 = Inr (0, 0x2e, 2)"
    by (simp add: resolveToken_def shiftedKeys_def ModifierLeftShift_def)
  with single_rune_agrees_with_layout [of 43 id 0 "0x2e" 2 "\<lambda>_ _. False"] show ?thesis by simp
qed

text \<open>
  No token of a chord contains a separator, and the tokens together are the name without
  its separators. So the row of \<open>shiftedKeys\<close> for the plus sign is never used by
  \<open>ResolveKeyCombo\<close>: a lone plus is an empty chord, and a plus after a modifier is dropped
  and leaves the bare modifier.
\<close>

theorem separators_never_reach_a_token:
  "(\<forall>tok. tok \<in> set (combo_tokens name) \<longrightarrow> tok \<noteq> [] \<and> filter is_separator tok = []) \<and>
   concat (combo_tokens name) = filter (\<lambda>c. \<not> is_separator c) name \<and>
   ResolveKeyCombo ulow (runes ''+'') = Inl EmptyCombo \<and>
   ResolveKeyCombo ulow (runes ''ctrl++'') = Inr (1, [])"
proof -
  have plus: "ResolveKeyCombo ulow (runes ''+'') = Inl EmptyCombo"
    by (simp add: ResolveKeyCombo_def combo_tokens_def is_separator_def is_space_def runes_def
        MaxKeyComboNameRunes_def)
  have t: "combo_tokens (runes ''ctrl++'') = [[99,116,114,108]]"
    by (simp add: combo_tokens_def is_separator_def is_space_def runes_def)
  have "resolveToken ulow [99,116,114,108] 0 = Inr (1, 0, 0)"
    by (simp add: resolveToken_def resolve_named_def normalizeKeyToken_def to_lower_def
        table_find_def modifierBits_def modifier_defs runes_def)
  then have "ResolveKeyCombo ulow (runes ''ctrl++'') = Inr (1, [])"
    by (simp add: ResolveKeyCombo_Inr_iff t known_token_def chord_modifier_def chord_keys_def
        token_keys_def token_modifier_def)
  with plus show ?thesis
    using fields_func_tokens [of _ is_separator "[]" name]
    by (auto simp: combo_tokens_def concat_fields_func filter_empty_conv)
qed

theorem separators_never_reach_a_token_witness:
  "combo_tokens [43, 65] = [[65]] \<and> concat (combo_tokens [43, 65]) = [65]"
  using separators_never_reach_a_token [of "[43, 65]" id]
  by (simp add: combo_tokens_def is_separator_def is_space_def)

end
