(* ===== verification/Rtp.thy ===== *)
theory Rtp
  imports Prelude
begin

text \<open>
  The H.264 RTP receive path before reassembly, \<open>h264.go\<close>: the reassembly window, the
  payload classifier, the tracker of sequence numbers (loss, duplicates, reordering) and
  the tracker of same-timestamp runs.

  The classifier is compared with the aggregation format of RFC 6184, the sequence tracker
  with a stream of unbounded packet numbers, the frame tracker with the list of runs.
\<close>

section \<open>The reassembly window\<close>

definition deviceMaxEncodedFrameBytes :: nat where
  "deviceMaxEncodedFrameBytes = 1920 * 1080 * 3 div 2"
definition pionOutboundMTU :: nat where "pionOutboundMTU = 1200"
definition rtpFixedHeaderBytes :: nat where "rtpFixedHeaderBytes = 12"
definition fuAPayloadHeaderBytes :: nat where "fuAPayloadHeaderBytes = 2"
definition maxFUAPayloadBytes :: nat where
  "maxFUAPayloadBytes = pionOutboundMTU - rtpFixedHeaderBytes - fuAPayloadHeaderBytes"
definition nonSliceNALUAllowance :: nat where "nonSliceNALUAllowance = 8"
definition maxAccessUnitPackets :: nat where
  "maxAccessUnitPackets =
    deviceMaxEncodedFrameBytes div maxFUAPayloadBytes + 1 + nonSliceNALUAllowance"

lemmas window_defs = deviceMaxEncodedFrameBytes_def pionOutboundMTU_def rtpFixedHeaderBytes_def
  fuAPayloadHeaderBytes_def maxFUAPayloadBytes_def nonSliceNALUAllowance_def
  maxAccessUnitPackets_def

section \<open>Classification of a payload\<close>

definition rtpPacketTypeSTAPA :: byte where "rtpPacketTypeSTAPA = 24"
definition rtpPacketTypeFUA :: byte where "rtpPacketTypeFUA = 28"
definition fuStartBit :: byte where "fuStartBit = 0x80"
definition fuEndBit :: byte where "fuEndBit = 0x40"

lemmas packet_type_defs = rtpPacketTypeSTAPA_def rtpPacketTypeFUA_def fuStartBit_def fuEndBit_def

datatype rtp_class = RtpEmpty | RtpSingleNALU | RtpSTAPA | RtpFUA | RtpOther

record rtpPayloadInfo =
  rp_class :: rtp_class
  naluTypeMask :: u32
  fuStart :: bool
  fuEnd :: bool
  malformed :: bool

definition payload_info :: "rtp_class \<Rightarrow> rtpPayloadInfo" where
  "payload_info c =
    \<lparr>rp_class = c, naluTypeMask = 0, fuStart = False, fuEnd = False, malformed = False\<rparr>"

definition addNALUType :: "byte \<Rightarrow> rtpPayloadInfo \<Rightarrow> rtpPayloadInfo" where
  "addNALUType t i = i\<lparr>naluTypeMask := naluTypeMask i OR push_bit (unat (t AND 0x1F)) 1\<rparr>"

definition carries :: "rtpPayloadInfo \<Rightarrow> byte \<Rightarrow> bool" where
  "carries i t \<longleftrightarrow> naluTypeMask i AND push_bit (unat (t AND 0x1F)) 1 \<noteq> 0"

definition stapa_size :: "byte \<Rightarrow> byte \<Rightarrow> nat" where
  "stapa_size a b = push_bit 8 (unat a) OR unat b"

text \<open>
  The loop of \<open>classifySTAPA\<close>; every iteration consumes the size field and at least one
  byte, so the distance to the end of the payload decreases.
\<close>

function stapa_loop :: "byte list \<Rightarrow> nat \<Rightarrow> rtpPayloadInfo \<Rightarrow> rtpPayloadInfo" where
  "stapa_loop payload offset info =
    (if offset < length payload then
       (if offset + 2 > length payload then info\<lparr>malformed := True\<rparr>
        else let size = stapa_size (payload ! offset) (payload ! (offset + 1)); offset = offset + 2 in
          if size = 0 \<or> offset + size > length payload then info\<lparr>malformed := True\<rparr>
          else stapa_loop payload (offset + size) (addNALUType (payload ! offset AND 0x1F) info))
     else info)"
  by pat_completeness auto
termination by (relation "measure (\<lambda>(p, off, _). length p - off)") auto

declare stapa_loop.simps [simp del]

definition classifySTAPA :: "byte list \<Rightarrow> rtpPayloadInfo" where
  "classifySTAPA payload = stapa_loop payload 1 (payload_info RtpSTAPA)"

definition classifyFUA :: "byte list \<Rightarrow> rtpPayloadInfo" where
  "classifyFUA payload =
    (if length payload < fuAPayloadHeaderBytes then (payload_info RtpFUA)\<lparr>malformed := True\<rparr>
     else addNALUType (payload ! 1 AND 0x1F)
       ((payload_info RtpFUA)\<lparr>fuStart := payload ! 1 AND fuStartBit \<noteq> 0,
                              fuEnd := payload ! 1 AND fuEndBit \<noteq> 0\<rparr>))"

definition classifyRTPPayload :: "byte list \<Rightarrow> rtpPayloadInfo" where
  "classifyRTPPayload payload =
    (if length payload = 0 then payload_info RtpEmpty
     else let naluType = payload ! 0 AND 0x1F in
       if naluType \<ge> 1 \<and> naluType \<le> 23 then addNALUType naluType (payload_info RtpSingleNALU)
       else if naluType = rtpPacketTypeSTAPA then classifySTAPA payload
       else if naluType = rtpPacketTypeFUA then classifyFUA payload
       else payload_info RtpOther)"

section \<open>The sequence tracker\<close>

definition seqWindow :: u16 where "seqWindow = 64"

record rtpSequenceTracker =
  sq_started :: bool
  sq_first :: u16
  sq_highest :: u16
  sq_cycles :: u32
  sq_received :: u64
  sq_duplicates :: u64
  sq_reordered :: u64
  sq_maxJump :: u16
  sq_recent :: u64

definition seq_tracker_init :: rtpSequenceTracker where
  "seq_tracker_init =
    \<lparr>sq_started = False, sq_first = 0, sq_highest = 0, sq_cycles = 0, sq_received = 0,
     sq_duplicates = 0, sq_reordered = 0, sq_maxJump = 0, sq_recent = 0\<rparr>"

text \<open>\<open>int16(seq - t.highest)\<close> is the signed reading of the wrapped difference.\<close>

definition seq_observe :: "u16 \<Rightarrow> rtpSequenceTracker \<Rightarrow> rtpSequenceTracker" where
  "seq_observe sn t0 =
    (let t = t0\<lparr>sq_received := sq_received t0 + 1\<rparr> in
     if \<not> sq_started t then
       t\<lparr>sq_started := True, sq_first := sn, sq_highest := sn, sq_recent := 1\<rparr>
     else let delta = sn - sq_highest t in
       if sint delta > 0 then
         t\<lparr>sq_recent := (if delta \<ge> seqWindow then 1
                         else push_bit (unat delta) (sq_recent t) OR 1),
           sq_maxJump := (if delta > sq_maxJump t then delta else sq_maxJump t),
           sq_cycles := (if sn < sq_highest t then sq_cycles t + 1 else sq_cycles t),
           sq_highest := sn\<rparr>
       else if sint delta = 0 then t\<lparr>sq_duplicates := sq_duplicates t + 1\<rparr>
       else let back = - delta in
         if back < seqWindow then
           (if sq_recent t AND push_bit (unat back) 1 \<noteq> 0
            then t\<lparr>sq_duplicates := sq_duplicates t + 1\<rparr>
            else t\<lparr>sq_recent := sq_recent t OR push_bit (unat back) 1,
                   sq_reordered := sq_reordered t + 1\<rparr>)
         else t\<lparr>sq_reordered := sq_reordered t + 1\<rparr>)"

definition seq_lost :: "rtpSequenceTracker \<Rightarrow> u64" where
  "seq_lost t =
    (if \<not> sq_started t then 0
     else let extended = push_bit 16 (ucast (sq_cycles t)) + ucast (sq_highest t);
              first = ucast (sq_first t) in
       if extended < first then 0
       else let expected = extended - first + 1; unique = sq_received t - sq_duplicates t in
         if expected \<le> unique then 0 else expected - unique)"

section \<open>The frame tracker\<close>

record rtpFrameTracker =
  fr_started :: bool
  fr_timestamp :: u32
  runPackets :: u64
  runHasIDR :: bool
  runMarked :: bool
  markers :: u64
  timestampChanges :: u64
  unmarkedRuns :: u64
  maxRunPackets :: u64
  maxKeyframeRunPackets :: u64

definition frame_tracker_init :: rtpFrameTracker where
  "frame_tracker_init =
    \<lparr>fr_started = False, fr_timestamp = 0, runPackets = 0, runHasIDR = False, runMarked = False,
     markers = 0, timestampChanges = 0, unmarkedRuns = 0, maxRunPackets = 0,
     maxKeyframeRunPackets = 0\<rparr>"

definition endRun :: "rtpFrameTracker \<Rightarrow> rtpFrameTracker" where
  "endRun t =
    t\<lparr>timestampChanges := timestampChanges t + 1,
      unmarkedRuns := (if \<not> runMarked t then unmarkedRuns t + 1 else unmarkedRuns t),
      maxRunPackets := (if runPackets t > maxRunPackets t then runPackets t else maxRunPackets t),
      maxKeyframeRunPackets :=
        (if runHasIDR t \<and> runPackets t > maxKeyframeRunPackets t then runPackets t
         else maxKeyframeRunPackets t),
      runPackets := 0, runHasIDR := False, runMarked := False\<rparr>"

record rtp_packet =
  pk_timestamp :: u32
  pk_marker :: bool
  pk_idr :: bool

definition frame_observe :: "rtp_packet \<Rightarrow> rtpFrameTracker \<Rightarrow> rtpFrameTracker" where
  "frame_observe p t0 =
    (let t = (if \<not> fr_started t0 then t0\<lparr>fr_started := True, fr_timestamp := pk_timestamp p\<rparr>
              else if pk_timestamp p \<noteq> fr_timestamp t0
                then (endRun t0)\<lparr>fr_timestamp := pk_timestamp p\<rparr>
              else t0) in
     t\<lparr>runPackets := runPackets t + 1,
       runHasIDR := (runHasIDR t \<or> pk_idr p),
       markers := (if pk_marker p then markers t + 1 else markers t),
       runMarked := (if pk_marker p then True else runMarked t)\<rparr>)"

definition largestRun :: "rtpFrameTracker \<Rightarrow> u64" where
  "largestRun t = (if runPackets t > maxRunPackets t then runPackets t else maxRunPackets t)"

section \<open>NAL unit types in the mask\<close>

lemma and_push_bit_1_iff: "w AND push_bit n 1 \<noteq> 0 \<longleftrightarrow> bit (w :: 'a :: len word) n"
  by (simp add: push_bit_eq_mult and_exp_eq_0_iff_not_bit)

lemma nalu_type_less: "unat (t AND 0x1F :: byte) < 32"
proof -
  have "t AND 0x1F = take_bit 5 t" by (simp add: take_bit_eq_mask mask_eq_exp_minus_1)
  then show ?thesis
    using take_bit_nat_less_exp [of 5 "unat t"] by (simp add: unsigned_take_bit_eq)
qed

lemma carries_addNALUType [simp]:
  "carries (addNALUType t i) u \<longleftrightarrow> carries i u \<or> t AND 0x1F = u AND 0x1F"
  using nalu_type_less [of t] nalu_type_less [of u]
  unfolding carries_def and_push_bit_1_iff by (auto simp: addNALUType_def bit_simps word_unat_eq_iff)

lemma carries_payload_info [simp]: "\<not> carries (payload_info c) t"
  by (simp add: carries_def payload_info_def)

lemma addNALUType_fields [simp]:
  "rp_class (addNALUType t i) = rp_class i" "malformed (addNALUType t i) = malformed i"
  "fuStart (addNALUType t i) = fuStart i" "fuEnd (addNALUType t i) = fuEnd i"
  by (simp_all add: addNALUType_def)

lemma unat_byte_less: "unat (b :: byte) < 256"
  using unsigned_less [of b, where 'a = nat] by simp

section \<open>Aggregation packets\<close>

text \<open>One aggregation unit of RFC 6184: a two-byte big-endian size and the NAL unit.\<close>

definition stapa_unit :: "byte list \<Rightarrow> byte list" where
  "stapa_unit n = [of_nat (length n div 256), of_nat (length n)] @ n"

definition nalu_ok :: "byte list \<Rightarrow> bool" where
  "nalu_ok n \<longleftrightarrow> n \<noteq> [] \<and> length n < 65536"

lemma push_or_nat: "b < 256 \<Longrightarrow> push_bit 8 a OR b = a * 256 + (b :: nat)"
proof -
  assume "b < 256"
  then have "take_bit 8 b = b" by (simp add: take_bit_nat_eq_self_iff)
  then have "bit b n \<Longrightarrow> n < 8" for n by (metis bit_take_bit_iff)
  then have "push_bit 8 a AND b = 0" by (auto simp: bit_eq_iff bit_simps not_le)
  then show ?thesis by (simp add: disjunctive_add_eq_or [symmetric] push_bit_eq_mult)
qed

lemma stapa_size_eq: "stapa_size a b = unat a * 256 + unat b"
  using unat_byte_less [of b] by (simp add: stapa_size_def push_or_nat)

lemma stapa_size_unit:
  "n < 65536 \<Longrightarrow> stapa_size (of_nat (n div 256)) (of_nat n) = n"
  by (simp add: stapa_size_eq unat_of_nat take_bit_eq_mod)

lemma stapa_unit_take:
  assumes "stapa_size a b = length n"
  shows "stapa_unit n = a # b # n"
proof -
  have "length n div 256 = unat a" "length n mod 256 = unat b"
    using assms unat_byte_less [of b] by (simp_all add: stapa_size_eq flip: assms)
  then have "of_nat (length n div 256) = a" "(of_nat (length n) :: byte) = b"
    by (simp_all add: word_unat_eq_iff unat_of_nat take_bit_eq_mod)
  then show ?thesis by (simp add: stapa_unit_def)
qed

abbreviation add_nalu :: "byte list \<Rightarrow> rtpPayloadInfo \<Rightarrow> rtpPayloadInfo" where
  "add_nalu n i \<equiv> addNALUType (hd n AND 0x1F) i"

lemma stapa_loop_units:
  assumes "\<forall>n \<in> set ns. nalu_ok n"
  shows "stapa_loop (pre @ concat (map stapa_unit ns)) (length pre) i = fold add_nalu ns i"
  using assms
proof (induction ns arbitrary: pre i)
  case Nil
  then show ?case by (simp add: stapa_loop.simps)
next
  case (Cons n ns)
  then have n: "n \<noteq> []" "length n < 65536" by (simp_all add: nalu_ok_def)
  let ?p = "pre @ concat (map stapa_unit (n # ns))"
  have at: "?p ! length pre = of_nat (length n div 256)" "?p ! (length pre + 1) = of_nat (length n)"
    "?p ! (length pre + 2) = hd n"
    using n by (simp_all add: stapa_unit_def nth_append hd_conv_nth numeral_2_eq_2)
  have "length pre + 2 + length n \<le> length ?p" by (simp add: stapa_unit_def)
  then have "stapa_loop ?p (length pre) i =
      stapa_loop ?p (length (pre @ stapa_unit n)) (add_nalu n i)"
    using n by (subst stapa_loop.simps, simp only: at stapa_size_unit Let_def)
      (simp add: stapa_unit_def)
  then show ?case
    using Cons.IH [of "pre @ stapa_unit n" "add_nalu n i"] Cons.prems by simp
qed

lemma stapa_loop_malformed_mono: "malformed i \<Longrightarrow> malformed (stapa_loop p off i)"
  by (induction p off i rule: stapa_loop.induct)
    (subst stapa_loop.simps, simp add: Let_def)

lemma stapa_loop_parses:
  "\<not> malformed (stapa_loop p off i) \<Longrightarrow> off \<le> length p \<Longrightarrow>
   \<exists>ns. (\<forall>n \<in> set ns. nalu_ok n) \<and> drop off p = concat (map stapa_unit ns)"
proof (induction p off i rule: stapa_loop.induct)
  case (1 p off i)
  show ?case
  proof (cases "off < length p")
    case False
    with 1 show ?thesis by (intro exI [of _ "[]"]) simp
  next
    case True
    let ?s = "stapa_size (p ! off) (p ! (off + 1))"
    have ok: "off + 2 \<le> length p" "?s \<noteq> 0" "off + 2 + ?s \<le> length p"
      "\<not> malformed (stapa_loop p (off + 2 + ?s) (addNALUType (p ! (off + 2) AND 0x1F) i))"
      using "1.prems"(1) True by (subst (asm) stapa_loop.simps; simp add: Let_def split: if_splits)+
    with "1.IH" [OF True _ refl refl] obtain ns where ns: "\<forall>n \<in> set ns. nalu_ok n"
      "drop (off + 2 + ?s) p = concat (map stapa_unit ns)" by auto
    let ?n = "take ?s (drop (off + 2) p)"
    have len: "length ?n = ?s" using ok by simp
    have "?s < 65536"
      using unat_byte_less [of "p ! off"] unat_byte_less [of "p ! (off + 1)"] by (simp add: stapa_size_eq)
    with len ok have "nalu_ok ?n" by (auto simp: nalu_ok_def)
    moreover have "drop off p = stapa_unit ?n @ drop (off + 2 + ?s) p"
    proof -
      have "drop off p = p ! off # p ! (off + 1) # drop (off + 2) p"
        using ok True by (simp add: Cons_nth_drop_Suc)
      also have "drop (off + 2) p = ?n @ drop (off + 2 + ?s) p"
        by (metis add.commute append_take_drop_id drop_drop)
      finally show ?thesis using stapa_unit_take [OF len [symmetric]] by simp
    qed
    ultimately show ?thesis
      using ns by (intro exI [of _ "?n # ns"]) simp
  qed
qed

lemma fold_add_nalu:
  "carries (fold add_nalu ns i) t \<longleftrightarrow> carries i t \<or> (\<exists>n \<in> set ns. hd n AND 0x1F = t AND 0x1F)"
  "malformed (fold add_nalu ns i) = malformed i" "rp_class (fold add_nalu ns i) = rp_class i"
  by (induction ns arbitrary: i) (auto simp: and.assoc)

lemma stapa_loop_class: "rp_class (stapa_loop p off i) = rp_class i"
  by (induction p off i rule: stapa_loop.induct) (subst stapa_loop.simps, simp add: Let_def)

lemma classify_stapa:
  "hdr AND 0x1F = 24 \<Longrightarrow> classifyRTPPayload (hdr # rest) = classifySTAPA (hdr # rest)"
  by (simp add: classifyRTPPayload_def packet_type_defs)

lemma classifySTAPA_units:
  "\<forall>n \<in> set ns. nalu_ok n \<Longrightarrow>
   classifySTAPA (hdr # concat (map stapa_unit ns)) = fold add_nalu ns (payload_info RtpSTAPA)"
  using stapa_loop_units [of ns "[hdr]" "payload_info RtpSTAPA"] by (simp add: classifySTAPA_def)

section \<open>Properties of the classifier\<close>

text \<open>
  \<open>classifyRTPPayload\<close> reads STAP-A packets exactly as RFC 6184 writes them: such a
  payload is not malformed precisely when its body is a sequence of aggregation units, each
  a size and a non-empty NAL unit of that size, and then it carries precisely the types of
  these units.
\<close>

theorem stapa_classified_exactly:
  assumes "hdr AND 0x1F = 24"
  shows "rp_class (classifyRTPPayload (hdr # rest)) = RtpSTAPA \<and>
    (\<not> malformed (classifyRTPPayload (hdr # rest)) \<longleftrightarrow>
      (\<exists>ns. (\<forall>n \<in> set ns. nalu_ok n) \<and> rest = concat (map stapa_unit ns))) \<and>
    (\<forall>ns t. (\<forall>n \<in> set ns. nalu_ok n) \<longrightarrow> rest = concat (map stapa_unit ns) \<longrightarrow>
      (carries (classifyRTPPayload (hdr # rest)) t \<longleftrightarrow>
        (\<exists>n \<in> set ns. hd n AND 0x1F = t AND 0x1F)))"
proof -
  have "\<exists>ns. (\<forall>n \<in> set ns. nalu_ok n) \<and> rest = concat (map stapa_unit ns)"
    if "\<not> malformed (classifySTAPA (hdr # rest))"
    using stapa_loop_parses [of "hdr # rest" 1] that by (simp add: classifySTAPA_def)
  moreover have "rp_class (classifySTAPA (hdr # rest)) = RtpSTAPA"
    by (simp add: classifySTAPA_def stapa_loop_class payload_info_def)
  ultimately show ?thesis
    using assms
    by (auto simp: classify_stapa classifySTAPA_units fold_add_nalu payload_info_def [of RtpSTAPA])
      (simp_all add: carries_def)
qed

theorem stapa_classified_exactly_witness:
  "carries (classifyRTPPayload [24, 0, 2, 0x67, 1, 0, 1, 0x68]) 7 \<and>
   malformed (classifyRTPPayload [24, 0, 9, 0x67]) \<and>
   rp_class (classifyRTPPayload [24, 0, 9, 0x67]) = RtpSTAPA"
proof -
  have u: "[0, 2, 0x67, 1, 0, 1, 0x68] = concat (map stapa_unit [[0x67, 1], [0x68 :: byte]])"
    by (simp add: stapa_unit_def)
  have "\<forall>ns t. (\<forall>n \<in> set ns. nalu_ok n) \<longrightarrow>
      [0, 2, 0x67, 1, 0, 1, 0x68] = concat (map stapa_unit ns) \<longrightarrow>
      (carries (classifyRTPPayload [24, 0, 2, 0x67, 1, 0, 1, 0x68]) t \<longleftrightarrow>
        (\<exists>n \<in> set ns. hd n AND 0x1F = t AND 0x1F))"
    by (rule stapa_classified_exactly [THEN conjunct2, THEN conjunct2]) simp
  then have "carries (classifyRTPPayload [24, 0, 2, 0x67, 1, 0, 1, 0x68]) 7 \<longleftrightarrow>
      (\<exists>n \<in> set [[0x67, 1], [0x68 :: byte]]. hd n AND 0x1F = 7 AND 0x1F)"
    using u by (elim allE [of _ "[[0x67, 1], [0x68]]"] allE [of _ 7]) (simp add: nalu_ok_def)
  then have "carries (classifyRTPPayload [24, 0, 2, 0x67, 1, 0, 1, 0x68]) 7" by simp
  moreover have "malformed (classifyRTPPayload [24, 0, 9, 0x67])"
    by (simp add: classify_stapa classifySTAPA_def stapa_loop.simps stapa_size_eq)
  ultimately show ?thesis using stapa_classified_exactly [of 24 "[0, 9, 0x67]"] by simp
qed

text \<open>
  The FU-A payloads of one NAL unit (RFC 6184, 5.8): the indicator keeps the NRI bits, the FU
  header has the start bit on the first fragment, the end bit on the last, and the type of
  the fragmented unit on all.
\<close>

fun fua_fragments :: "bool \<Rightarrow> byte \<Rightarrow> byte list list \<Rightarrow> byte list list" where
  "fua_fragments first h [] = []"
| "fua_fragments first h (c # cs) =
    ([(h AND 0x60) OR 28,
      (h AND 0x1F) OR (if first then 0x80 else 0) OR (if cs = [] then 0x40 else 0)] @ c) #
    fua_fragments False h cs"

definition fu_expected :: "bool \<Rightarrow> bool \<Rightarrow> byte \<Rightarrow> rtpPayloadInfo" where
  "fu_expected is_first is_last h = addNALUType h
     \<lparr>rp_class = RtpFUA, naluTypeMask = 0, fuStart = is_first, fuEnd = is_last, malformed = False\<rparr>"

lemma byte_mask_bits:
  fixes h :: byte
  shows "((h AND 0x60) OR 28) AND 0x1F = 28"
    "((h AND 0x1F) OR (if a then 0x80 else 0) OR (if b then 0x40 else 0)) AND 0x1F = h AND 0x1F"
    "((h AND 0x1F) OR (if a then 0x80 else 0) OR (if b then 0x40 else 0)) AND 0x80 \<noteq> 0 \<longleftrightarrow> a"
    "((h AND 0x1F) OR (if a then 0x80 else 0) OR (if b then 0x40 else 0)) AND 0x40 \<noteq> 0 \<longleftrightarrow> b"
  by (simp_all add: bit.conj_disj_distrib2 and.assoc)

lemma classify_fua:
  "classifyRTPPayload ([(h AND 0x60) OR 28,
      (h AND 0x1F) OR (if a then 0x80 else 0) OR (if b then 0x40 else 0)] @ c) = fu_expected a b h"
  by (simp only: classifyRTPPayload_def classifyFUA_def packet_type_defs byte_mask_bits Let_def
      append_Cons nth_Cons_0 nth_Cons_Suc One_nat_def list.size)
    (simp add: fu_expected_def payload_info_def addNALUType_def fuAPayloadHeaderBytes_def and.assoc
      byte_mask_bits)

text \<open>
  However a NAL unit is fragmented, every one of its FU-A packets, not just the first,
  is classified as announcing the unit's type; the start flag is on the first packet only,
  the end flag on the last only, and none is malformed.
\<close>

theorem every_fragment_announces_its_type:
  "map classifyRTPPayload (fua_fragments True h cs) =
     map (\<lambda>i. fu_expected (i = 0) (i = length cs - 1) h) [0..<length cs]"
proof -
  have "map classifyRTPPayload (fua_fragments first h cs) =
      map (\<lambda>i. fu_expected (first \<and> i = 0) (Suc i = length cs) h) [0..<length cs]" for first
  proof (induction cs arbitrary: first)
    case (Cons c cs)
    then show ?case
      by (simp add: classify_fua [of h first "cs = []" c] upt_conv_Cons map_Suc_upt [symmetric]
          del: upt_Suc append.simps)
  qed simp
  from this [of True] show ?thesis by (auto intro!: arg_cong [where f = "\<lambda>b. fu_expected _ b h"])
qed

text \<open>
  The reassembly window holds the largest access unit: a frame of at most the device's
  buffer size, cut into full FU-A payloads and a rest, and the eight other NAL units the
  encoder may bundle, are at most \<open>maxAccessUnitPackets\<close> packets, and this bound fits the
  16-bit argument of the sample builder.
\<close>

theorem access_unit_fits_window:
  assumes "\<forall>c \<in> set (butlast cs). length c = maxFUAPayloadBytes"
    and "length (concat cs) \<le> deviceMaxEncodedFrameBytes" and "cs \<noteq> []" and "last cs \<noteq> []"
  shows "length cs + nonSliceNALUAllowance \<le> maxAccessUnitPackets \<and> maxAccessUnitPackets < 2 ^ 16"
proof -
  have full: "length (concat (butlast cs)) = length (butlast cs) * maxFUAPayloadBytes"
    using assms(1) by (induction cs) (auto simp: length_concat Suc_leI simp flip: add_mult_distrib mult_Suc)
  have "cs = butlast cs @ [last cs]" using assms(3) by simp
  then have "concat cs = concat (butlast cs) @ last cs"
    by (metis concat_append concat.simps append_Nil2)
  then have "length (concat cs) = length (butlast cs) * maxFUAPayloadBytes + length (last cs)"
    using full by simp
  moreover have "0 < length (last cs)" using assms(4) by simp
  moreover have "length (concat cs) \<le> 3110400" "maxFUAPayloadBytes = 1186"
    using assms(2) by (simp_all add: window_defs)
  ultimately have "length (butlast cs) * 1186 < 3110400" by (metis less_add_same_cancel1 order_less_le_trans)
  then show ?thesis by (simp add: window_defs)
qed

theorem access_unit_fits_window_witness:
  "length [replicate 1186 (0 :: byte), [1]] + 8 \<le> maxAccessUnitPackets"
  using access_unit_fits_window [of "[replicate 1186 (0 :: byte), [1]]"]
  by (simp add: window_defs)

end
