(* ===== verification/Rtp_Sequence.thy ===== *)
theory Rtp_Sequence
  imports Rtp
begin

text \<open>
  The sequence tracker of \<open>h264.go\<close> against a stream of unbounded packet numbers: the
  sender numbers its packets by integers, the wire carries them modulo \<open>2 ^ 16\<close>, and the
  tracker reconstructs cycle, highest number, duplicates and loss.
\<close>

section \<open>The abstract stream\<close>

text \<open>
  The tracker's working assumption: a packet is less than 64 behind or less than 32768 ahead
  of the highest number seen.
\<close>

fun reorder_ok :: "int \<Rightarrow> int list \<Rightarrow> bool" where
  "reorder_ok h [] = True"
| "reorder_ok h (e # es) = (h - 64 < e \<and> e < h + 32768 \<and> reorder_ok (max h e) es)"

text \<open>
  What the tracker stands for after the packets \<open>S\<close> (a set) in \<open>n\<close> arrivals, first number
  \<open>f\<close> and highest number \<open>h\<close>.
\<close>

definition seq_rel :: "int \<Rightarrow> int \<Rightarrow> int set \<Rightarrow> nat \<Rightarrow> rtpSequenceTracker \<Rightarrow> bool" where
  "seq_rel f h S n t \<longleftrightarrow>
     finite S \<and> h \<in> S \<and> (\<forall>e \<in> S. e \<le> h) \<and> 0 \<le> h \<and>
     sq_started t \<and> sq_first t = word_of_int f \<and> sq_highest t = word_of_int h \<and>
     sq_cycles t = word_of_int (h div 65536) \<and> sq_received t = of_nat n \<and>
     sq_received t - sq_duplicates t = of_nat (card S) \<and>
     (\<forall>i < 64. bit (sq_recent t) i \<longleftrightarrow> h - int i \<in> S)"

lemma seq_rel_start:
  assumes "0 \<le> f" "f < 65536"
  shows "seq_rel f f {f} 1 (seq_observe (word_of_int f) seq_tracker_init)"
  using assms
  by (auto simp: seq_rel_def seq_observe_def seq_tracker_init_def Let_def bit_1_iff)

lemma sint_u16_small: "-32768 \<le> d \<Longrightarrow> d < 32768 \<Longrightarrow> sint (word_of_int d :: u16) = d"
  by (simp add: sint_sbintrunc' signed_take_bit_int_eq_self)

lemma uint_u16_small: "0 \<le> d \<Longrightarrow> d < 65536 \<Longrightarrow> uint (word_of_int d :: u16) = d"
  by (simp add: uint_word_of_int)

lemma u16_less_iff:
  "(word_of_int a :: u16) < word_of_int b \<longleftrightarrow> a mod 65536 < b mod 65536"
  by (simp add: word_less_def uint_word_of_int)

lemma cycle_step:
  fixes e h :: int
  assumes "h < e" "e < h + 32768"
  shows "e div 65536 = (if e mod 65536 < h mod 65536 then h div 65536 + 1 else h div 65536)"
proof -
  define q r q' r' where d: "q = e div 65536" "r = e mod 65536" "q' = h div 65536" "r' = h mod 65536"
  have eq: "e = 65536 * q + r" "h = 65536 * q' + r'" by (simp_all add: d)
  have b: "0 \<le> r" "r < 65536" "0 \<le> r'" "r' < 65536" by (simp_all add: d)
  have "q = q' + 1" if "r < r'"
  proof -
    have "0 < q - q'" "q - q' < 2" using that eq b assms by linarith+
    then show ?thesis by linarith
  qed
  moreover have "q = q'" if "\<not> r < r'"
  proof -
    have "-1 < q - q'" "q - q' < 1" using that eq b assms by linarith+
    then show ?thesis by linarith
  qed
  ultimately show ?thesis by (simp flip: d)
qed

lemma recent_forward:
  fixes r :: u64
  assumes "\<forall>i < 64. bit r i \<longleftrightarrow> h - int i \<in> S" "\<forall>e \<in> S. e \<le> h" "h < e" "i < 64"
  shows "bit (if e - h \<ge> 64 then 1 else push_bit (nat (e - h)) r OR 1) i \<longleftrightarrow>
    e - int i \<in> insert e S"
proof (cases "e - h \<ge> 64")
  case True
  then have "h < e - int i" using assms(4) by simp
  then have "e - int i \<notin> S" using assms(2) by force
  with True show ?thesis by (auto simp: bit_1_iff)
next
  case False
  define d where "d = nat (e - h)"
  have d: "e = h + int d" "0 < d" "d < 64" using False assms(3) by (auto simp: d_def)
  have new: "bit (if e - h \<ge> 64 then 1 else push_bit (nat (e - h)) r OR 1) i \<longleftrightarrow>
      i = 0 \<or> (d \<le> i \<and> bit r (i - d))"
    using False assms(4) by (auto simp: d_def [symmetric] bit_simps bit_1_iff)
  show ?thesis
  proof (cases "d \<le> i")
    case True
    then have eq: "e - int i = h - int (i - d)" using d(1) by simp
    have "bit r (i - d) \<longleftrightarrow> h - int (i - d) \<in> S" using assms(1,4) by simp
    then show ?thesis using new True d(2) unfolding eq [symmetric] by auto
  next
    case i: False
    then have "e - int i \<notin> S" using d(1) assms(2) by auto
    with new i show ?thesis by auto
  qed
qed

lemma seq_observe_forward:
  assumes "sq_started t" "sint (sn - sq_highest t) > 0"
  shows "seq_observe sn t =
    t\<lparr>sq_received := sq_received t + 1,
      sq_recent := (if sn - sq_highest t \<ge> seqWindow then 1
                    else push_bit (unat (sn - sq_highest t)) (sq_recent t) OR 1),
      sq_maxJump := (if sn - sq_highest t > sq_maxJump t then sn - sq_highest t else sq_maxJump t),
      sq_cycles := (if sn < sq_highest t then sq_cycles t + 1 else sq_cycles t),
      sq_highest := sn\<rparr>"
  using assms by (simp add: seq_observe_def Let_def)

lemma seq_observe_ahead:
  assumes r: "seq_rel f h S n t" and e: "h < e" "e < h + 32768"
  shows "seq_rel f e (insert e S) (Suc n) (seq_observe (word_of_int e) t)"
proof -
  let ?d = "word_of_int e - sq_highest t"
  have d: "?d = word_of_int (e - h)" using r by (simp add: seq_rel_def)
  have sd: "sint ?d = e - h" "uint ?d = e - h"
    using e by (simp_all only: d sint_u16_small uint_u16_small)
  have win: "?d \<ge> seqWindow \<longleftrightarrow> e - h \<ge> 64" "unat ?d = nat (e - h)"
    using sd by (simp_all add: word_le_def seqWindow_def unat_eq_nat_uint)
  have new: "e \<notin> S" using r e by (auto simp: seq_rel_def)
  have bits: "\<forall>i < 64. bit (if e - h \<ge> 64 then 1 else push_bit (nat (e - h)) (sq_recent t) OR 1) i
      \<longleftrightarrow> e - int i \<in> insert e S"
    using r e recent_forward [of "sq_recent t" h S e] by (auto simp: seq_rel_def)
  have wrap: "word_of_int e < sq_highest t \<longleftrightarrow> e mod 65536 < h mod 65536"
    using r by (simp add: seq_rel_def u16_less_iff)
  have st: "sq_started t" "0 < sint ?d" using r e sd(1) by (simp_all add: seq_rel_def)
  show ?thesis
    using r e new bits cycle_step [OF e]
    unfolding seq_rel_def seq_observe_forward [OF st] win wrap by (auto simp: algebra_simps)
qed

lemma seq_observe_same:
  assumes r: "seq_rel f h S n t"
  shows "seq_rel f h S (Suc n) (seq_observe (word_of_int h) t)"
  using r by (auto simp: seq_rel_def seq_observe_def Let_def)

lemma seq_observe_backward:
  assumes "sq_started t" "sint (sn - sq_highest t) < 0" "sq_highest t - sn < seqWindow"
  shows "seq_observe sn t =
    (if bit (sq_recent t) (unat (sq_highest t - sn))
     then t\<lparr>sq_received := sq_received t + 1, sq_duplicates := sq_duplicates t + 1\<rparr>
     else t\<lparr>sq_received := sq_received t + 1,
            sq_recent := sq_recent t OR push_bit (unat (sq_highest t - sn)) 1,
            sq_reordered := sq_reordered t + 1\<rparr>)"
  using assms unfolding seq_observe_def Let_def by (simp add: and_exp_eq_0_iff_not_bit)

lemma seq_observe_behind:
  assumes r: "seq_rel f h S n t" and e: "h - 64 < e" "e < h"
  shows "seq_rel f h (insert e S) (Suc n) (seq_observe (word_of_int e) t)"
proof -
  define b where "b = nat (h - e)"
  have b: "e = h - int b" "b < 64" "0 < b" using e by (auto simp: b_def)
  have st: "sq_started t" using r by (simp add: seq_rel_def)
  have d: "word_of_int e - sq_highest t = word_of_int (e - h)"
    "sq_highest t - word_of_int e = word_of_int (h - e)" using r by (simp_all add: seq_rel_def)
  have neg: "sint (word_of_int e - sq_highest t) < 0"
    using e unfolding d by (subst sint_u16_small) auto
  have u: "uint (sq_highest t - word_of_int e) = h - e"
    using e unfolding d by (subst uint_u16_small) auto
  then have win: "sq_highest t - word_of_int e < seqWindow" "unat (sq_highest t - word_of_int e) = b"
    using e by (simp_all add: word_less_def seqWindow_def unat_eq_nat_uint b_def)
  have seen: "bit (sq_recent t) b \<longleftrightarrow> e \<in> S" using r b by (simp add: seq_rel_def)
  have bits: "\<forall>i < 64. bit (sq_recent t OR push_bit b 1) i \<longleftrightarrow> h - int i \<in> insert e S"
    using r b by (auto simp: seq_rel_def bit_simps)
  show ?thesis
    using r e seen bits unfolding seq_rel_def seq_observe_backward [OF st neg win(1)] win(2)
    by (auto simp: insert_absorb algebra_simps)
qed

lemma seq_observe_step:
  assumes "seq_rel f h S n t" "h - 64 < e" "e < h + 32768"
  shows "seq_rel f (max h e) (insert e S) (Suc n) (seq_observe (word_of_int e) t)"
proof -
  consider "h < e" | "e = h" | "e < h" by linarith
  then show ?thesis
  proof cases
    case 2
    moreover have "h \<in> S" using assms by (simp add: seq_rel_def)
    ultimately show ?thesis using seq_observe_same [OF assms(1)] by (simp add: insert_absorb)
  qed (use assms seq_observe_ahead seq_observe_behind in \<open>simp_all add: max_def\<close>)
qed

lemma seq_run:
  "seq_rel f h S n t \<Longrightarrow> reorder_ok h es \<Longrightarrow>
   \<exists>h'. seq_rel f h' (S \<union> set es) (n + length es) (fold seq_observe (map word_of_int es) t)"
proof (induction es arbitrary: h S n t)
  case (Cons e es)
  then have "seq_rel f (max h e) (insert e S) (Suc n) (seq_observe (word_of_int e) t)"
    by (intro seq_observe_step) auto
  from Cons.IH [OF this] Cons.prems show ?case by auto
qed auto

section \<open>Loss\<close>

lemma extended_number:
  assumes "0 \<le> h" "h < 2 ^ 48"
  shows "push_bit 16 (ucast (word_of_int (h div 65536) :: u32)) + ucast (word_of_int h :: u16)
    = (word_of_int h :: u64)"
proof -
  have "h div 65536 < 2 ^ 32" using assms by simp
  then have "ucast (word_of_int (h div 65536) :: u32) = (word_of_int (h div 65536) :: u64)"
    using assms by (simp add: unsigned_of_int take_bit_int_eq_self)
  moreover have "ucast (word_of_int h :: u16) = (word_of_int (h mod 65536) :: u64)"
    by (simp add: unsigned_of_int take_bit_eq_mod)
  moreover have "push_bit 16 (word_of_int (h div 65536) :: u64) = word_of_int (h div 65536 * 65536)"
    by (simp add: push_bit_eq_mult)
  moreover have "word_of_int (h div 65536 * 65536) + word_of_int (h mod 65536) = (word_of_int h :: u64)"
    by (subst of_int_add [symmetric]) simp
  ultimately show ?thesis by simp
qed

lemma seq_lost_rel:
  assumes r: "seq_rel f h S n t" and S: "\<forall>e \<in> S. f \<le> e" and f: "0 \<le> f" "f < 65536"
    and h: "h < 2 ^ 48"
  shows "unat (seq_lost t) = card ({f..h} - S)"
proof -
  have fh: "f \<le> h" "0 \<le> h" using r S by (auto simp: seq_rel_def)
  have sub: "S \<subseteq> {f..h}" "finite S" using r S by (auto simp: seq_rel_def)
  have card: "card {f..h} = nat (h - f + 1)" "card S \<le> card {f..h}"
    using card_mono [OF _ sub(1)] by simp_all
  have small: "uint (word_of_int x :: u64) = x" if "0 \<le> x" "x < 2 ^ 64" for x
    using that by (simp add: uint_word_of_int)
  have first: "ucast (sq_first t) = (word_of_int f :: u64)"
    using r f by (simp add: seq_rel_def unsigned_of_int take_bit_int_eq_self)
  have ext: "push_bit 16 (ucast (sq_cycles t)) + ucast (sq_highest t) = (word_of_int h :: u64)"
    using r extended_number [OF fh(2) h] by (simp add: seq_rel_def)
  have exp: "word_of_int h - word_of_int f + 1 = (word_of_int (h - f + 1) :: u64)" by simp
  have unique: "sq_received t - sq_duplicates t = (word_of_int (int (card S)) :: u64)"
    using r unfolding seq_rel_def of_int_of_nat_eq by blast
  have u: "uint (word_of_int (h - f + 1) :: u64) = h - f + 1"
    "uint (word_of_int (int (card S)) :: u64) = int (card S)"
    by (rule small; use fh f h card in simp)+
  have le: "\<not> (word_of_int h :: u64) < word_of_int f"
    "(word_of_int (h - f + 1) :: u64) \<le> word_of_int (int (card S)) \<longleftrightarrow> h - f + 1 \<le> int (card S)"
    unfolding word_le_def u using fh f h by (simp_all add: word_less_def small)
  have "seq_lost t = (if h - f + 1 \<le> int (card S) then 0
      else word_of_int (h - f + 1) - word_of_int (int (card S)))"
    using r unfolding seq_lost_def Let_def first ext exp unique le by (simp add: seq_rel_def le)
  moreover have "uint (word_of_int (h - f + 1 - int (card S)) :: u64) = h - f + 1 - int (card S)"
    if "\<not> h - f + 1 \<le> int (card S)"
    by (rule small) (use that fh f h in simp_all)
  ultimately have "uint (seq_lost t) =
      (if h - f + 1 \<le> int (card S) then 0 else h - f + 1 - int (card S))"
    by (simp only: of_int_diff [symmetric] split: if_split) simp
  then have "unat (seq_lost t) = nat (h - f + 1) - card S"
    by (simp add: unat_eq_nat_uint split: if_splits)
  then show ?thesis using sub card by (simp add: card_Diff_subset)
qed

section \<open>Properties\<close>

text \<open>
  C16. The loss figure is exact: if the first packet number is in \<open>[0,65535]\<close>, no packet is
  numbered before it, every packet arrives within the tracker's reordering window, and the
  numbers stay below \<open>2 ^ 48\<close>, then \<open>lost\<close> is the number of packet numbers between the first
  and the highest that never arrived, across every wrap of the 16-bit counter; a late packet
  leaves no phantom loss and a duplicate hides none.
\<close>

theorem loss_is_exact:
  assumes "0 \<le> f" "f < 65536" "reorder_ok f es" "\<forall>e \<in> set es. f \<le> e \<and> e < 2 ^ 48"
  shows "unat (seq_lost (fold seq_observe (map word_of_int (f # es)) seq_tracker_init)) =
    card ({f..Max (insert f (set es))} - insert f (set es))"
proof -
  from seq_run [OF seq_rel_start [OF assms(1,2)] assms(3)] obtain h where
    r: "seq_rel f h ({f} \<union> set es) (1 + length es)
      (fold seq_observe (map word_of_int es) (seq_observe (word_of_int f) seq_tracker_init))"
    by blast
  have "h = Max (insert f (set es))" using r by (intro Max_eqI [symmetric]) (auto simp: seq_rel_def)
  moreover have "h < 2 ^ 48" using r assms by (auto simp: seq_rel_def)
  ultimately show ?thesis using seq_lost_rel [OF r _ assms(1,2)] assms by auto
qed

theorem loss_is_exact_witness:
  "unat (seq_lost (fold seq_observe [65534, 65535, 1, 3, 2, 3, 5] seq_tracker_init)) =
     card ({65534..65541 :: int} - {65534, 65535, 65537, 65538, 65539, 65541})"
proof -
  let ?es = "[65535, 65537, 65539, 65538, 65539, 65541] :: int list"
  have w: "map word_of_int (65534 # ?es) = ([65534, 65535, 1, 3, 2, 3, 5] :: u16 list)" by simp
  have m: "Max (insert 65534 (set ?es)) = 65541" by simp
  have s: "insert 65534 (set ?es) = {65534, 65535, 65537, 65538, 65539, 65541}" by auto
  have "unat (seq_lost (fold seq_observe (map word_of_int (65534 # ?es)) seq_tracker_init)) =
      card ({65534..Max (insert 65534 (set ?es))} - insert 65534 (set ?es))"
    by (rule loss_is_exact) simp_all
  then show ?thesis unfolding w m unfolding s .
qed

text \<open>
  Packets numbered before the first one observed break the loss figure: each of them
  counts as received but not as expected, so that it hides one genuine loss. A stream that
  starts inside a reordered burst (10, then 9, then 12) reports no loss although 11 never
  arrived.
\<close>

theorem early_packets_hide_loss:
  "seq_lost (fold seq_observe [10, 9, 12] seq_tracker_init) = 0 \<and>
   seq_lost (fold seq_observe [10, 12] seq_tracker_init) = 1"
  by (simp add: seq_lost_def seq_observe_def seq_tracker_init_def seqWindow_def Let_def)

section \<open>An invariant of every stream\<close>

definition seq_inv :: "rtpSequenceTracker \<Rightarrow> bool" where
  "seq_inv t \<longleftrightarrow> (if sq_started t then bit (sq_recent t) 0 else sq_recent t = 0)"

lemma seq_inv_step: "seq_inv t \<Longrightarrow> seq_inv (seq_observe sn t)"
  by (auto simp: seq_inv_def seq_observe_def Let_def bit_simps)

interpretation seq_track: run_invariant seq_observe "\<lambda>_. True" seq_inv
  by unfold_locales (rule seq_inv_step)

text \<open>
  On any stream, however disordered: once a packet was seen the window bitmap marks the
  highest number itself, so observing that number again is counted as a duplicate and
  changes nothing but the two counters.
\<close>

theorem repeated_packet_is_duplicate:
  "let t = fold seq_observe sns seq_tracker_init in
   (sns \<noteq> [] \<longrightarrow> bit (sq_recent t) 0 \<and>
     seq_observe (sq_highest t) t =
       t\<lparr>sq_received := sq_received t + 1, sq_duplicates := sq_duplicates t + 1\<rparr>)"
proof -
  have started: "sq_started t \<Longrightarrow> sq_started (fold seq_observe sns t)" for sns t
    by (induction sns arbitrary: t) (auto simp: seq_observe_def Let_def)
  have "sq_started (fold seq_observe sns seq_tracker_init)" if "sns \<noteq> []"
    using that started by (cases sns) (auto simp: seq_observe_def Let_def)
  moreover have "seq_inv (fold seq_observe sns seq_tracker_init)"
    by (rule seq_track.run_inv) (simp_all add: seq_inv_def seq_tracker_init_def)
  ultimately show ?thesis by (auto simp: Let_def seq_inv_def seq_observe_def)
qed

theorem repeated_packet_is_duplicate_witness:
  "bit (sq_recent (fold seq_observe [7, 6] seq_tracker_init)) 0"
  using repeated_packet_is_duplicate [of "[7, 6]"] by (simp add: Let_def)

end
