(* ===== verification/Rtp_Frames.thy ===== *)
theory Rtp_Frames
  imports Rtp
begin

text \<open>
  The frame tracker of \<open>h264.go\<close> against the list of runs: a run is a maximal stretch of
  consecutive packets with one timestamp, and the tracker's figures are figures of that list.
\<close>

section \<open>Runs\<close>

fun ts_runs :: "rtp_packet list \<Rightarrow> rtp_packet list list" where
  "ts_runs [] = []"
| "ts_runs (p # ps) = (case ts_runs ps of
      [] \<Rightarrow> [[p]]
    | g # gs \<Rightarrow> if pk_timestamp (hd g) = pk_timestamp p then (p # g) # gs else [p] # g # gs)"

definition has_idr :: "rtp_packet list \<Rightarrow> bool" where
  "has_idr g \<longleftrightarrow> list_ex pk_idr g"

definition has_marker :: "rtp_packet list \<Rightarrow> bool" where
  "has_marker g \<longleftrightarrow> list_ex pk_marker g"

definition longest :: "rtp_packet list list \<Rightarrow> nat" where
  "longest gs = foldr (\<lambda>g. max (length g)) gs 0"

lemma ts_runs_Nil_iff [simp]: "ts_runs ps = [] \<longleftrightarrow> ps = []"
  by (cases ps) (auto split: list.splits)

lemma concat_ts_runs [simp]: "concat (ts_runs ps) = ps"
  by (induction ps rule: ts_runs.induct) (auto split: list.splits)

lemma ts_runs_nonempty: "g \<in> set (ts_runs ps) \<Longrightarrow> g \<noteq> []"
  by (induction ps arbitrary: g rule: ts_runs.induct) (auto split: list.splits if_splits)

lemma hd_ts_runs: "ps \<noteq> [] \<Longrightarrow> hd (hd (ts_runs ps)) = hd ps"
  by (cases ps) (auto split: list.splits)

lemma last_ts_runs: "ps \<noteq> [] \<Longrightarrow> last (last (ts_runs ps)) = last ps"
  by (metis concat_ts_runs ts_runs_Nil_iff last_in_set ts_runs_nonempty append_butlast_last_id
      concat_append concat.simps append_Nil2 last_appendR)

lemma ts_runs_snoc:
  "ps \<noteq> [] \<Longrightarrow> ts_runs (ps @ [p]) =
     (if pk_timestamp (last ps) = pk_timestamp p
      then butlast (ts_runs ps) @ [last (ts_runs ps) @ [p]] else ts_runs ps @ [[p]])"
proof (induction ps)
  case (Cons a ps)
  show ?case
  proof (cases ps)
    case Nil
    then show ?thesis by auto
  next
    case (Cons b qs)
    then have "ts_runs ps \<noteq> []" by (subst ts_runs_Nil_iff) simp
    then obtain g gs where g: "ts_runs ps = g # gs" by (meson neq_Nil_conv)
    then have "g \<noteq> []" using ts_runs_nonempty [of g ps] by simp
    then show ?thesis using Cons.IH Cons g by (cases gs) auto
  qed
qed simp

section \<open>The tracker and the runs\<close>

definition frame_rel :: "rtp_packet list \<Rightarrow> rtpFrameTracker \<Rightarrow> bool" where
  "frame_rel ps t \<longleftrightarrow>
    (if ps = [] then t = frame_tracker_init
     else let gs = ts_runs ps; done = butlast gs; cur = last gs in
       fr_started t \<and> fr_timestamp t = pk_timestamp (last ps) \<and>
       runPackets t = of_nat (length cur) \<and> runHasIDR t = has_idr cur \<and>
       runMarked t = has_marker cur \<and>
       markers t = of_nat (length (filter pk_marker ps)) \<and>
       timestampChanges t = of_nat (length done) \<and>
       unmarkedRuns t = of_nat (length (filter (\<lambda>g. \<not> has_marker g) done)) \<and>
       maxRunPackets t = of_nat (longest done) \<and>
       maxKeyframeRunPackets t = of_nat (longest (filter has_idr done)))"

lemma longest_snoc: "longest (gs @ [g]) = max (longest gs) (length g)"
  by (induction gs) (auto simp: longest_def)

lemma longest_le: "longest gs \<le> length (concat gs)"
  by (induction gs) (auto simp: longest_def)

lemma longest_filter_le: "longest (filter P gs) \<le> length (concat gs)"
  by (induction gs) (auto simp: longest_def)

lemma of_nat_less_u64:
  "a < 2 ^ 64 \<Longrightarrow> b < 2 ^ 64 \<Longrightarrow> (of_nat a :: u64) < of_nat b \<longleftrightarrow> a < b"
  by (simp add: word_less_nat_alt unat_of_nat take_bit_nat_eq_self)

lemma pick_larger_u64:
  "a < 2 ^ 64 \<Longrightarrow> b < 2 ^ 64 \<Longrightarrow>
   (if (of_nat a :: u64) < of_nat b then of_nat b else of_nat a) = of_nat (max a b)"
  by (auto simp: of_nat_less_u64 max_def)

lemma frame_rel_step:
  assumes r: "frame_rel ps t" and len: "length ps < 2 ^ 64"
  shows "frame_rel (ps @ [p]) (frame_observe p t)"
proof (cases "ps = []")
  case True
  with r show ?thesis
    by (auto simp: frame_rel_def frame_observe_def frame_tracker_init_def Let_def has_idr_def
        has_marker_def longest_def)
next
  case False
  let ?gs = "ts_runs ps"
  define dn cur where dc: "dn = butlast ?gs" "cur = last ?gs"
  have gs: "?gs = dn @ [cur]" using False by (simp add: dc)
  have "length (concat dn) + length cur = length ps"
    using concat_ts_runs [of ps] unfolding gs by (metis concat_append concat.simps append_Nil2 length_append)
  then have small: "longest dn < 2 ^ 64" "longest (filter has_idr dn) < 2 ^ 64" "length cur < 2 ^ 64"
    using len longest_le [of dn] longest_filter_le [of has_idr dn] by linarith+
  have t: "fr_started t" "fr_timestamp t = pk_timestamp (last ps)"
    "runPackets t = of_nat (length cur)" "runHasIDR t = has_idr cur" "runMarked t = has_marker cur"
    "markers t = of_nat (length (filter pk_marker ps))" "timestampChanges t = of_nat (length dn)"
    "unmarkedRuns t = of_nat (length (filter (\<lambda>g. \<not> has_marker g) dn))"
    "maxRunPackets t = of_nat (longest dn)"
    "maxKeyframeRunPackets t = of_nat (longest (filter has_idr dn))"
    using r False by (simp_all add: frame_rel_def Let_def dc)
  show ?thesis
  proof (cases "pk_timestamp (last ps) = pk_timestamp p")
    case True
    then have "ts_runs (ps @ [p]) = dn @ [cur @ [p]]" using False by (simp add: ts_runs_snoc dc)
    with True t show ?thesis
      by (simp add: frame_rel_def frame_observe_def Let_def has_idr_def has_marker_def)
  next
    case new: False
    then have "ts_runs (ps @ [p]) = (dn @ [cur]) @ [[p]]" using False by (simp add: ts_runs_snoc gs)
    with new t show ?thesis
      by (simp add: frame_rel_def frame_observe_def endRun_def Let_def longest_snoc
          has_idr_def [of "[p]"] has_marker_def [of "[p]"] pick_larger_u64 [OF small(1,3)]
          pick_larger_u64 [OF small(2,3)] of_nat_less_u64 [OF small(1,3)]
          of_nat_less_u64 [OF small(2,3)] butlast_append max_def)
  qed
qed

lemma frame_rel_run: "length ps < 2 ^ 64 \<Longrightarrow> frame_rel ps (fold frame_observe ps frame_tracker_init)"
  by (induction ps rule: rev_induct) (auto simp: frame_rel_def [of "[]"] intro!: frame_rel_step)

section \<open>Properties\<close>

text \<open>
  The frame tracker's figures are those of the runs of the packet list: the number of
  timestamp changes is the number of completed runs, \<open>unmarkedRuns\<close> counts the completed
  runs without a marker bit, the keyframe maximum is the longest completed run with an IDR
  packet, and \<open>largestRun\<close> is the longest run including the one still in progress.
\<close>

theorem frame_tracker_measures_runs:
  assumes "length ps < 2 ^ 64" "ps \<noteq> []"
  shows "let t = fold frame_observe ps frame_tracker_init; gs = ts_runs ps in
    unat (timestampChanges t) = length gs - 1 \<and>
    unat (unmarkedRuns t) = length (filter (\<lambda>g. \<not> has_marker g) (butlast gs)) \<and>
    unat (maxKeyframeRunPackets t) = longest (filter has_idr (butlast gs)) \<and>
    unat (largestRun t) = longest gs \<and>
    unat (markers t) = length (filter pk_marker ps)"
proof -
  let ?gs = "ts_runs ps"
  have r: "frame_rel ps (fold frame_observe ps frame_tracker_init)"
    using frame_rel_run [OF assms(1)] .
  have gs: "?gs = butlast ?gs @ [last ?gs]" using assms(2) by simp
  have len: "length (concat (butlast ?gs)) + length (last ?gs) = length ps"
    using concat_ts_runs [of ps] gs by (metis concat_append concat.simps append_Nil2 length_append)
  have "length xs \<le> length (concat xs)" if "\<forall>x \<in> set xs. x \<noteq> []" for xs :: "rtp_packet list list"
    using that by (induction xs) (auto simp: Suc_le_eq add_strict_increasing)
  from this [of "butlast ?gs"] have n: "length (butlast ?gs) \<le> length (concat (butlast ?gs))"
    using ts_runs_nonempty in_set_butlastD by metis
  have f: "length (filter P xs) \<le> length xs" for P and xs :: "'z list" by simp
  have u: "unat (of_nat k :: u64) = k" if "k \<le> length ps" for k
    using that assms(1) by (simp add: unat_of_nat take_bit_nat_eq_self)
  have le: "longest (butlast ?gs) \<le> length ps" "longest (filter has_idr (butlast ?gs)) \<le> length ps"
    "length (butlast ?gs) \<le> length ps" "length (last ?gs) \<le> length ps"
    "length (filter (\<lambda>g. \<not> has_marker g) (butlast ?gs)) \<le> length ps"
    "length (filter pk_marker ps) \<le> length ps"
    using len n longest_le [of "butlast ?gs"] longest_filter_le [of has_idr "butlast ?gs"]
      f [of "\<lambda>g. \<not> has_marker g" "butlast ?gs"] by (linarith | simp)+
  have "longest ?gs = max (longest (butlast ?gs)) (length (last ?gs))"
    by (subst gs) (rule longest_snoc)
  moreover have "largestRun (fold frame_observe ps frame_tracker_init) =
      of_nat (max (longest (butlast ?gs)) (length (last ?gs)))"
    using r assms(2) le(1,4) assms(1)
    by (simp add: frame_rel_def Let_def largestRun_def of_nat_less_u64 max_def)
  ultimately have "unat (largestRun (fold frame_observe ps frame_tracker_init)) = longest ?gs"
    using le(1,4) by (simp add: u)
  then show ?thesis
    using r assms(2) le by (simp add: frame_rel_def Let_def u)
qed

theorem frame_tracker_measures_runs_witness:
  "let t = fold frame_observe
      [\<lparr>pk_timestamp = 1, pk_marker = False, pk_idr = True\<rparr>,
       \<lparr>pk_timestamp = 1, pk_marker = True, pk_idr = False\<rparr>,
       \<lparr>pk_timestamp = 5, pk_marker = False, pk_idr = False\<rparr>] frame_tracker_init in
   unat (timestampChanges t) = 1 \<and> unat (maxKeyframeRunPackets t) = 2 \<and> unat (largestRun t) = 2"
  using frame_tracker_measures_runs
    [of "[\<lparr>pk_timestamp = 1, pk_marker = False, pk_idr = True\<rparr>,
       \<lparr>pk_timestamp = 1, pk_marker = True, pk_idr = False\<rparr>,
       \<lparr>pk_timestamp = 5, pk_marker = False, pk_idr = False\<rparr>]"]
  by (simp add: Let_def has_idr_def longest_def)

end
