(* ===== verification/Annexb.thy ===== *)
theory Annexb
  imports Prelude
begin

text \<open>
  The Annex-B byte stream of \<open>video.go\<close>: \<open>indexStartCode\<close>, \<open>splitAnnexB\<close> and
  \<open>buildAnnexB\<close>. Building and splitting form a codec for lists of NAL units without a start
  code inside, and what splitting returns is always free of start codes.
\<close>

section \<open>The code\<close>

definition annexBStartCode :: "byte list" where
  "annexBStartCode = [0x00, 0x00, 0x00, 0x01]"

definition is_start :: "byte list \<Rightarrow> nat \<Rightarrow> bool" where
  "is_start data i \<longleftrightarrow>
     i + 3 \<le> length data \<and> data ! i = 0 \<and> data ! (i + 1) = 0 \<and> data ! (i + 2) = 1"

text \<open>\<open>None\<close> is the result -1.\<close>

function indexStartCode :: "byte list \<Rightarrow> nat \<Rightarrow> nat option" where
  "indexStartCode data i =
    (if i + 3 \<le> length data then
       (if data ! i = 0 \<and> data ! (i + 1) = 0 \<and> data ! (i + 2) = 1 then Some i
        else indexStartCode data (i + 1))
     else None)"
  by pat_completeness auto
termination by (relation "measure (\<lambda>(data, i). length data - i)") auto

declare indexStartCode.simps [simp del]

lemma indexStartCode_Some_iff:
  "indexStartCode data i = Some j \<longleftrightarrow>
     i \<le> j \<and> is_start data j \<and> (\<forall>k. i \<le> k \<and> k < j \<longrightarrow> \<not> is_start data k)"
proof (induction data i rule: indexStartCode.induct)
  case (1 data i)
  have step: "indexStartCode data i =
      (if is_start data i then Some i else if i + 3 \<le> length data then indexStartCode data (i + 1)
       else None)"
    by (subst indexStartCode.simps) (auto simp: is_start_def)
  show ?case
  proof (cases "is_start data i")
    case True
    then show ?thesis by (auto simp: step)
  next
    case False
    have none: "\<not> is_start data j" if "\<not> i + 3 \<le> length data" "i \<le> j" for j
      using that by (auto simp: is_start_def)
    have IH: "indexStartCode data (i + 1) = Some j \<longleftrightarrow>
       i + 1 \<le> j \<and> is_start data j \<and> (\<forall>k. i + 1 \<le> k \<and> k < j \<longrightarrow> \<not> is_start data k)"
      if "i + 3 \<le> length data"
      using 1 [OF that] False that by (auto simp: is_start_def)
    show ?thesis
    proof (cases "i + 3 \<le> length data")
      case True
      have "(\<forall>k. i \<le> k \<and> k < j \<longrightarrow> \<not> is_start data k) \<longleftrightarrow>
          (\<forall>k. i + 1 \<le> k \<and> k < j \<longrightarrow> \<not> is_start data k)"
        using False by (metis Suc_eq_plus1 Suc_leD Suc_leI le_neq_implies_less)
      moreover have "i \<le> j \<and> is_start data j \<longleftrightarrow> i + 1 \<le> j \<and> is_start data j"
        using False by (metis Suc_eq_plus1 Suc_leD Suc_leI le_neq_implies_less)
      ultimately show ?thesis using IH [OF True] False True unfolding step by (simp only: if_False if_True) blast
    next
      case short: False
      with none False show ?thesis by (auto simp: step)
    qed
  qed
qed

lemma indexStartCode_None_iff:
  "indexStartCode data i = None \<longleftrightarrow> (\<forall>k \<ge> i. \<not> is_start data k)"
proof
  assume none: "indexStartCode data i = None"
  show "\<forall>k \<ge> i. \<not> is_start data k"
  proof (intro allI impI notI)
    fix k assume k: "i \<le> k" "is_start data k"
    define j where "j = (LEAST j. i \<le> j \<and> is_start data j)"
    have "i \<le> j \<and> is_start data j" unfolding j_def by (rule LeastI [of _ k]) (use k in simp)
    moreover have "\<not> is_start data m" if "i \<le> m \<and> m < j" for m
      using that not_less_Least [of m "\<lambda>j. i \<le> j \<and> is_start data j"] by (auto simp: j_def)
    ultimately have "indexStartCode data i = Some j" by (simp add: indexStartCode_Some_iff)
    with none show False by simp
  qed
next
  assume "\<forall>k \<ge> i. \<not> is_start data k"
  then show "indexStartCode data i = None"
    by (cases "indexStartCode data i") (auto simp: indexStartCode_Some_iff)
qed

text \<open>
  The loop of \<open>splitAnnexB\<close>, entered with \<open>idx\<close> at a start code; the next start code lies
  behind it, so the distance to the end decreases.
\<close>

function split_loop :: "byte list \<Rightarrow> nat \<Rightarrow> byte list list" where
  "split_loop data idx =
    (let contentStart = idx + 3 in
     case indexStartCode data contentStart of
       None \<Rightarrow> [drop contentStart data]
     | Some nxt \<Rightarrow>
         (let end' = (if nxt > contentStart \<and> data ! (nxt - 1) = 0 then nxt - 1 else nxt) in
          take (end' - contentStart) (drop contentStart data) # split_loop data nxt))"
  by pat_completeness auto
termination
  by (relation "measure (\<lambda>(data, i). length data - i)")
    (auto simp: indexStartCode_Some_iff is_start_def)

declare split_loop.simps [simp del]

definition splitAnnexB :: "byte list \<Rightarrow> byte list list" where
  "splitAnnexB data = (case indexStartCode data 0 of
      None \<Rightarrow> []
    | Some idx \<Rightarrow> split_loop data idx)"

fun buildAnnexB :: "byte list list \<Rightarrow> byte list" where
  "buildAnnexB [] = []"
| "buildAnnexB (n # nalus) = annexBStartCode @ n @ buildAnnexB nalus"

section \<open>Start codes\<close>

definition start_free :: "byte list \<Rightarrow> bool" where
  "start_free n \<longleftrightarrow> indexStartCode n 0 = None"

lemma start_free_iff: "start_free n \<longleftrightarrow> (\<forall>k. \<not> is_start n k)"
  by (simp add: start_free_def indexStartCode_None_iff)

lemma is_start_append: "is_start (p @ d) (length p + k) \<longleftrightarrow> is_start d k"
  by (auto simp: is_start_def nth_append)

lemma indexStartCode_append:
  "indexStartCode (p @ d) (length p + k) = map_option ((+) (length p)) (indexStartCode d k)"
proof (cases "indexStartCode d k")
  case None
  then have "\<not> is_start (p @ d) j" if "length p + k \<le> j" for j
    using that is_start_append [of p d "j - length p"] by (auto simp: indexStartCode_None_iff)
  then have "indexStartCode (p @ d) (length p + k) = None" by (simp add: indexStartCode_None_iff)
  with None show ?thesis by simp
next
  case (Some j)
  have "\<not> is_start (p @ d) m" if "length p + k \<le> m" "m < length p + j" for m
  proof -
    have "k \<le> m - length p" "m - length p < j" "length p + (m - length p) = m" using that by auto
    then show ?thesis
      using Some is_start_append [of p d "m - length p"] by (simp add: indexStartCode_Some_iff)
  qed
  then have "indexStartCode (p @ d) (length p + k) = Some (length p + j)"
    using Some by (auto simp: indexStartCode_Some_iff is_start_append)
  with Some show ?thesis by simp
qed

lemma start_code_after:
  assumes "start_free n"
  shows "indexStartCode (n @ annexBStartCode @ m) 0 = Some (length n + 1)"
proof -
  let ?d = "n @ annexBStartCode @ m"
  have "\<not> is_start ?d k" if "k \<le> length n" for k
  proof
    assume s: "is_start ?d k"
    have "k + 2 < length n \<or> k + 2 = length n \<or> k + 1 = length n \<or> k = length n" using that by auto
    then show False
      using s assms
      by (elim disjE) (auto simp: is_start_def start_free_iff nth_append annexBStartCode_def)
  qed
  moreover have "is_start ?d (length n + 1)"
    by (simp add: is_start_def nth_append annexBStartCode_def)
  ultimately show ?thesis by (auto simp: indexStartCode_Some_iff)
qed

lemma split_loop_build:
  "\<lbrakk>start_free n; \<forall>m \<in> set ns. start_free m\<rbrakk> \<Longrightarrow>
   split_loop (pre @ [0, 0, 1] @ n @ buildAnnexB ns) (length pre) = n # ns"
proof (induction ns arbitrary: pre n)
  case Nil
  then have "indexStartCode ((pre @ [0, 0, 1]) @ n) (length (pre @ [0, 0, 1]) + 0) = None"
    unfolding indexStartCode_append by (simp add: start_free_def)
  then show ?case by (subst split_loop.simps) (simp add: Let_def numeral_3_eq_3)
next
  case (Cons m ns)
  let ?d = "pre @ [0, 0, 1] @ n @ annexBStartCode @ m @ buildAnnexB ns"
  have "indexStartCode ((pre @ [0, 0, 1]) @ n @ annexBStartCode @ m @ buildAnnexB ns)
      (length (pre @ [0, 0, 1]) + 0) = Some (length pre + 3 + (length n + 1))"
    unfolding indexStartCode_append using Cons.prems by (simp add: start_code_after)
  then have nxt: "indexStartCode ?d (length pre + 3) = Some (length pre + 3 + (length n + 1))"
    by (simp add: numeral_3_eq_3)
  have zero: "?d ! (length pre + 3 + (length n + 1) - 1) = 0"
    by (simp add: nth_append annexBStartCode_def)
  have "split_loop ?d (length pre) =
      take (length n) (drop (length pre + 3) ?d) # split_loop ?d (length pre + 3 + (length n + 1))"
    by (subst split_loop.simps) (simp only: Let_def nxt zero option.case, simp)
  also have "take (length n) (drop (length pre + 3) ?d) = n" by simp
  also have "split_loop ?d (length pre + 3 + (length n + 1)) =
      split_loop ((pre @ [0, 0, 1] @ n @ [0]) @ [0, 0, 1] @ m @ buildAnnexB ns)
        (length (pre @ [0, 0, 1] @ n @ [0]))"
    by (simp add: annexBStartCode_def numeral_eq_Suc)
  also have "\<dots> = m # ns" using Cons.prems by (intro Cons.IH) auto
  finally show ?case by simp
qed

lemma splitAnnexB_buildAnnexB:
  assumes "\<forall>n \<in> set ns. start_free n"
  shows "splitAnnexB (buildAnnexB ns) = ns"
proof (cases ns)
  case Nil
  then show ?thesis by (simp add: splitAnnexB_def indexStartCode.simps)
next
  case (Cons n ms)
  have "indexStartCode (buildAnnexB ns) 0 = Some 1"
    using Cons start_code_after [of "[]" "n @ buildAnnexB ms"]
    by (simp add: start_free_def indexStartCode.simps)
  moreover have "split_loop (buildAnnexB ns) 1 = ns"
    using split_loop_build [of n ms "[0]"] assms Cons by (simp add: annexBStartCode_def)
  ultimately show ?thesis by (simp add: splitAnnexB_def)
qed

text \<open>
  Units that contain start codes: the stream is split unit by unit, each into its own pieces.
\<close>

lemma split_loop_shift: "split_loop (p @ d) (length p + k) = split_loop d k"
proof (induction d k rule: split_loop.induct)
  case (1 d k)
  have idx: "indexStartCode (p @ d) (length p + k + 3) = map_option ((+) (length p)) (indexStartCode d (k + 3))"
    using indexStartCode_append [of p d "k + 3"] by (simp add: add.assoc)
  show ?case
  proof (cases "indexStartCode d (k + 3)")
    case None
    then show ?thesis
      using idx by (subst split_loop.simps, subst (2) split_loop.simps) (simp add: Let_def add.assoc)
  next
    case (Some j)
    then have j: "k + 3 \<le> j" by (simp add: indexStartCode_Some_iff)
    have IH: "split_loop (p @ d) (length p + j) = split_loop d j"
      by (rule "1" [OF refl Some refl])
    have piece: "take (e - (k + 3)) (drop (length p + k + 3) (p @ d)) = take (e - (k + 3)) (drop (k + 3) d)" for e
      by (simp add: add.assoc)
    have zero: "(p @ d) ! (length p + j - 1) = d ! (j - 1)" if "k + 3 < j"
      using that by (cases j) (simp_all add: nth_append)
    define e where "e = (if j > k + 3 \<and> d ! (j - 1) = 0 then j - 1 else j)"
    have "split_loop d k = take (e - (k + 3)) (drop (k + 3) d) # split_loop d j"
      by (subst split_loop.simps) (simp add: Some Let_def e_def)
    moreover have "(if length p + j > length p + k + 3 \<and> (p @ d) ! (length p + j - 1) = 0
        then length p + j - 1 else length p + j) = length p + e"
      using zero j by (auto simp: e_def)
    then have "split_loop (p @ d) (length p + k) =
        take (length p + e - (length p + k + 3)) (drop (length p + k + 3) (p @ d)) # split_loop (p @ d) (length p + j)"
      by (subst split_loop.simps) (simp only: idx Some Let_def option.map option.case)
    ultimately show ?thesis using IH piece [of e] by simp
  qed
qed

definition pieces :: "byte list \<Rightarrow> byte list list" where
  "pieces n = split_loop ([0, 0, 1] @ n) 0"

lemma pieces_start_free: "start_free n \<Longrightarrow> pieces n = [n]"
  using split_loop_build [of n "[]" "[]"] by (simp add: pieces_def)

lemma is_start_prefix: "k + 3 \<le> length n \<Longrightarrow> is_start (n @ x) k \<longleftrightarrow> is_start n k"
  by (auto simp: is_start_def nth_append)

lemma indexStartCode_prefix: "indexStartCode n 0 = Some j \<Longrightarrow> indexStartCode (n @ x) 0 = Some j"
  by (auto simp: indexStartCode_Some_iff is_start_prefix is_start_def [of n j])

text \<open>The split of a unit at its first start code.\<close>

lemma split_loop_at:
  assumes "indexStartCode n 0 = Some j"
  shows "split_loop ([0, 0, 1] @ n) 0 =
    take (if 0 < j \<and> n ! (j - 1) = 0 then j - 1 else j) n # split_loop n j"
proof -
  have "indexStartCode ([0, 0, 1] @ n) (length [0, 0, 1::byte] + 0) = Some (3 + j)"
    unfolding indexStartCode_append assms by simp
  then have idx: "indexStartCode ([0, 0, 1] @ n) (0 + 3) = Some (3 + j)" by (simp add: numeral_3_eq_3)
  have loop: "split_loop ([0, 0, 1] @ n) (3 + j) = split_loop n j"
    using split_loop_shift [of "[0, 0, 1]" n j] by (simp add: numeral_3_eq_3)
  have "([0, 0, 1] @ n) ! (3 + j - 1) = n ! (j - 1)" if "0 < j"
    using that by (cases j) (simp_all add: numeral_eq_Suc)
  then have e: "(if 3 + j > 0 + 3 \<and> ([0, 0, 1] @ n) ! (3 + j - 1) = 0 then 3 + j - 1 else 3 + j) =
      3 + (if 0 < j \<and> n ! (j - 1) = 0 then j - 1 else j)" by auto
  show ?thesis
    by (subst split_loop.simps) (simp only: Let_def idx option.case e loop, simp add: numeral_3_eq_3)
qed

lemma split_loop_from:
  assumes "is_start n j"
  shows "split_loop n j = pieces (drop (j + 3) n)"
proof -
  have "drop j n = [0, 0, 1] @ drop (j + 3) n"
  proof (rule nth_equalityI)
    show "length (drop j n) = length ([0, 0, 1] @ drop (j + 3) n)"
      using assms by (auto simp: is_start_def)
    show "drop j n ! i = ([0, 0, 1] @ drop (j + 3) n) ! i" if "i < length (drop j n)" for i
    proof -
      have "i = 0 \<or> i = 1 \<or> i = 2 \<or> (\<exists>m. i = m + 3)"
        using le_add_diff_inverse2 [of 3 i] by (cases "3 \<le> i") (metis, linarith)
      then show ?thesis using assms that by (auto simp: is_start_def ac_simps numeral_eq_Suc)
    qed
  qed
  then have n: "n = take j n @ [0, 0, 1] @ drop (j + 3) n" by (metis append_take_drop_id)
  have "length (take j n) = j" using assms by (simp add: is_start_def)
  then show ?thesis
    using split_loop_shift [of "take j n" "[0, 0, 1] @ drop (j + 3) n" 0] n by (simp add: pieces_def)
qed

lemma pieces_append: "pieces (n @ annexBStartCode @ m) = pieces n @ pieces m"
proof (induction "length n" arbitrary: n rule: less_induct)
  case less
  show ?case
  proof (cases "indexStartCode n 0")
    case None
    then have free: "start_free n" by (simp add: start_free_def)
    have at: "indexStartCode (n @ annexBStartCode @ m) 0 = Some (length n + 1)"
      using free by (rule start_code_after)
    have "is_start (n @ annexBStartCode @ m) (length n + 1)"
      using at by (simp add: indexStartCode_Some_iff)
    then have "split_loop (n @ annexBStartCode @ m) (length n + 1) = pieces m"
      by (subst split_loop_from) (simp_all add: annexBStartCode_def)
    moreover have "(n @ annexBStartCode @ m) ! (length n + 1 - 1) = 0"
      by (simp add: nth_append annexBStartCode_def)
    ultimately show ?thesis
      using split_loop_at [OF at] pieces_start_free [OF free] by (simp add: pieces_def)
  next
    case (Some j)
    then have j: "is_start n j" "j + 3 \<le> length n" by (auto simp: indexStartCode_Some_iff is_start_def)
    let ?d = "n @ annexBStartCode @ m"
    have at: "indexStartCode ?d 0 = Some j" using Some by (rule indexStartCode_prefix)
    have head: "take (if 0 < j \<and> ?d ! (j - 1) = 0 then j - 1 else j) ?d =
        take (if 0 < j \<and> n ! (j - 1) = 0 then j - 1 else j) n"
      using j by (auto simp: nth_append)
    have "is_start ?d j" using j by (simp add: is_start_prefix)
    then have "split_loop ?d j = pieces (drop (j + 3) n @ annexBStartCode @ m)"
      using j by (simp add: split_loop_from)
    also have "\<dots> = pieces (drop (j + 3) n) @ pieces m" using j by (intro less) simp
    also have "pieces (drop (j + 3) n) = split_loop n j" using j by (simp add: split_loop_from)
    finally have "split_loop ?d j = split_loop n j @ pieces m" .
    then show ?thesis using split_loop_at [OF at] split_loop_at [OF Some] head by (simp add: pieces_def)
  qed
qed

lemma split_build_Cons: "splitAnnexB (buildAnnexB (n # ns)) = pieces n @ splitAnnexB (buildAnnexB ns)"
proof -
  have split: "splitAnnexB (annexBStartCode @ d) = pieces d" for d
  proof -
    have "indexStartCode (annexBStartCode @ d) 0 = Some 1"
      using start_code_after [of "[]" d] by (simp add: start_free_def indexStartCode.simps)
    moreover have "split_loop (annexBStartCode @ d) 1 = pieces d"
      using split_loop_shift [of "[0]" "[0, 0, 1] @ d" 0] by (simp add: pieces_def annexBStartCode_def)
    ultimately show ?thesis by (simp add: splitAnnexB_def)
  qed
  show ?thesis
  proof (cases ns)
    case Nil
    then show ?thesis using split [of n] by (simp add: splitAnnexB_def indexStartCode.simps)
  next
    case (Cons m ms)
    then show ?thesis
      using split [of "n @ annexBStartCode @ m @ buildAnnexB ms"] split [of "m @ buildAnnexB ms"]
        pieces_append [of n "m @ buildAnnexB ms"] by simp
  qed
qed

text \<open>A unit whose first byte is not zero keeps it: its first piece starts with it.\<close>

lemma pieces_head:
  assumes "n \<noteq> []" "n ! 0 \<noteq> 0"
  shows "pieces n \<noteq> [] \<and> hd (pieces n) \<noteq> [] \<and> hd (pieces n) ! 0 = n ! 0"
proof (cases "indexStartCode n 0")
  case None
  then show ?thesis using assms pieces_start_free [of n] by (simp add: start_free_def)
next
  case (Some j)
  then have "is_start n j" by (simp add: indexStartCode_Some_iff)
  then have "j \<noteq> 0" using assms(2) by (intro notI) (simp add: is_start_def)
  then have "0 < (if 0 < j \<and> n ! (j - 1) = 0 then j - 1 else j)"
    using assms(2) by (cases "j = 1") auto
  then show ?thesis using split_loop_at [OF Some] assms(1) by (simp add: pieces_def)
qed

interpretation annexb: codec buildAnnexB "\<lambda>d. Some (splitAnnexB d)" "\<lambda>ns. \<forall>n \<in> set ns. start_free n"
  by unfold_locales (simp add: splitAnnexB_buildAnnexB)

lemma split_loop_start_free: "n \<in> set (split_loop data idx) \<Longrightarrow> start_free n"
proof (induction data idx rule: split_loop.induct)
  case (1 data idx)
  have sub: "start_free (take l (drop (idx + 3) data))"
    if "\<And>k. idx + 3 \<le> k \<Longrightarrow> k + 3 \<le> idx + 3 + l \<Longrightarrow> \<not> is_start data k" for l
    using that [of "idx + 3 + _"] by (auto simp: start_free_iff is_start_def)
  show ?case
  proof (cases "indexStartCode data (idx + 3)")
    case None
    then have "split_loop data idx = [take (length data) (drop (idx + 3) data)]"
      by (subst split_loop.simps) simp
    moreover have "start_free (take (length data) (drop (idx + 3) data))"
      using None by (intro sub) (simp add: indexStartCode_None_iff)
    ultimately show ?thesis using 1 by simp
  next
    case (Some nxt)
    define e where "e = (if nxt > idx + 3 \<and> data ! (nxt - 1) = 0 then nxt - 1 else nxt)"
    have e: "e \<le> nxt" by (simp add: e_def)
    have "start_free (take (e - (idx + 3)) (drop (idx + 3) data))"
      using Some e by (intro sub) (auto simp: indexStartCode_Some_iff)
    moreover have "split_loop data idx =
        take (e - (idx + 3)) (drop (idx + 3) data) # split_loop data nxt"
      by (subst split_loop.simps) (simp add: Let_def Some e_def)
    ultimately show ?thesis using 1 Some by auto
  qed
qed

lemma splitAnnexB_start_free: "n \<in> set (splitAnnexB data) \<Longrightarrow> start_free n"
  by (auto simp: splitAnnexB_def split_loop_start_free split: option.splits)

section \<open>Properties\<close>

text \<open>
  C15. Splitting what \<open>buildAnnexB\<close> built gives the NAL units back, whatever zero bytes they
  begin or end with, exactly when none of them contains a start code; and no NAL unit that
  \<open>splitAnnexB\<close> ever returns, from any input, contains one.
\<close>

theorem annexb_roundtrip:
  "(splitAnnexB (buildAnnexB ns) = ns \<longleftrightarrow> (\<forall>n. n \<in> set ns \<longrightarrow> indexStartCode n 0 = None)) \<and>
   (n \<in> set (splitAnnexB data) \<longrightarrow> indexStartCode n 0 = None)"
proof -
  have "indexStartCode n 0 = None" if "n \<in> set (splitAnnexB data)" for n data
    using splitAnnexB_start_free [OF that] by (simp add: start_free_def)
  then show ?thesis
    using splitAnnexB_buildAnnexB [of ns] by (auto simp: start_free_def) metis
qed

theorem annexb_roundtrip_witness:
  "splitAnnexB (buildAnnexB [[0x67, 0], [0, 0x65]]) = [[0x67, 0], [0, 0x65]]"
proof -
  have "indexStartCode [0x67, 0] 0 = None" "indexStartCode [0, 0x65] 0 = None"
    by (simp_all add: indexStartCode.simps)
  then show ?thesis using annexb_roundtrip [of "[[0x67, 0], [0, 0x65]]" "[]" "[]"] by auto
qed

end
