(* ===== verification/Vocabulary.thy ===== *)
theory Vocabulary
  imports Text
begin

text \<open>
  The pure functions of \<open>diagnostics.go\<close> that map errors and device-supplied text to fixed
  names: NAL unit types, MIME types, the two codec parameters, and the categories of read and
  decode errors.
\<close>

section \<open>Names\<close>

definition naluTypeName :: "nat \<Rightarrow> text_runes" where
  "naluTypeName t =
    (if t = 1 then runes ''non-IDR'' else if t = 5 then runes ''IDR''
     else if t = 6 then runes ''SEI'' else if t = 7 then runes ''SPS''
     else if t = 8 then runes ''PPS'' else if t = 9 then runes ''AUD''
     else if t = 12 then runes ''filler'' else if t = 24 then runes ''STAP-A''
     else if t = 28 then runes ''FU-A'' else runes ''type-'' @ decimal t)"

text \<open>
  The MIME types of the WebRTC library are \<open>video/H264\<close> and so on, in the case written here.
\<close>

definition sanitizeMimeType :: "(rune \<Rightarrow> rune) \<Rightarrow> text_runes \<Rightarrow> text_runes" where
  "sanitizeMimeType ulow mime =
    (let l = lowered ulow mime in
     if l = lowered ulow (runes ''video/H264'') then runes ''video/H264''
     else if l = lowered ulow (runes ''video/H265'') then runes ''video/H265''
     else if l = lowered ulow (runes ''video/VP8'') then runes ''video/VP8''
     else if l = lowered ulow (runes ''video/VP9'') then runes ''video/VP9''
     else if l = lowered ulow (runes ''video/AV1'') then runes ''video/AV1''
     else if l = [] then [] else runes ''other'')"

definition validHexToken :: "(rune \<Rightarrow> rune) \<Rightarrow> text_runes \<Rightarrow> nat \<Rightarrow> text_runes" where
  "validHexToken ulow v maxLen =
    (if v = [] \<or> byte_len v > maxLen then runes ''invalid''
     else if list_ex (\<lambda>r. r \<notin> set (runes ''0123456789abcdefABCDEF'')) v then runes ''invalid''
     else lowered ulow v)"

definition validSmallInt :: "text_runes \<Rightarrow> text_runes" where
  "validSmallInt v =
    (if byte_len v = 1 \<and> v ! 0 \<ge> 48 \<and> v ! 0 \<le> 50 then v else runes ''invalid'')"

text \<open>The loop of \<open>parseH264Fmtp\<close> with its two results as accumulators.\<close>

fun parse_fmtp ::
  "(rune \<Rightarrow> rune) \<Rightarrow> text_runes list \<Rightarrow> text_runes \<times> text_runes \<Rightarrow> text_runes \<times> text_runes" where
  "parse_fmtp ulow [] acc = acc"
| "parse_fmtp ulow (part # parts) (profile, mode) =
    (case cut_at 61 (trim_space part) of
       None \<Rightarrow> parse_fmtp ulow parts (profile, mode)
     | Some (k, v) \<Rightarrow>
        (let k = lowered ulow (trim_space k) in
         if k = runes ''profile-level-id''
         then parse_fmtp ulow parts (validHexToken ulow (trim_space v) 6, mode)
         else if k = runes ''packetization-mode''
         then parse_fmtp ulow parts (profile, validSmallInt (trim_space v))
         else parse_fmtp ulow parts (profile, mode)))"

definition parseH264Fmtp :: "(rune \<Rightarrow> rune) \<Rightarrow> text_runes \<Rightarrow> text_runes \<times> text_runes" where
  "parseH264Fmtp ulow fmtp = parse_fmtp ulow (split_at 59 fmtp) ([], [])"

section \<open>Errors\<close>

text \<open>
  An error value as the classifiers see it: which of the library's errors it wraps
  (\<open>errors.Is\<close>), the exit code if it wraps an \<open>exec.ExitError\<close>, and its text.
\<close>

datatype go_sentinel =
    IoEOF | IoUnexpectedEOF | IoClosedPipe | CtxCanceled | CtxDeadlineExceeded | ExecNotFound

record go_error =
  ge_is :: "go_sentinel list"
  ge_exit :: "int option"
  ge_text :: text_runes

definition classifyTrackReadError :: "(rune \<Rightarrow> rune) \<Rightarrow> go_error option \<Rightarrow> text_runes" where
  "classifyTrackReadError ulow err = (case err of
      None \<Rightarrow> []
    | Some e \<Rightarrow>
       (if IoEOF \<in> set (ge_is e) \<or> IoUnexpectedEOF \<in> set (ge_is e) then runes ''track-ended''
        else if CtxCanceled \<in> set (ge_is e) then runes ''canceled''
        else if CtxDeadlineExceeded \<in> set (ge_is e) then runes ''timeout''
        else if IoClosedPipe \<in> set (ge_is e) then runes ''closed''
        else let low = lowered ulow (ge_text e) in
          if contains low (runes ''closed'') then runes ''closed''
          else if contains low (runes ''timeout'') \<or> contains low (runes ''deadline'')
            then runes ''timeout''
          else if contains low (runes ''reset'') then runes ''reset''
          else runes ''read-error''))"

definition classifyDecodeError :: "(rune \<Rightarrow> rune) \<Rightarrow> go_error option \<Rightarrow> text_runes" where
  "classifyDecodeError ulow err = (case err of
      None \<Rightarrow> []
    | Some e \<Rightarrow>
       (if CtxCanceled \<in> set (ge_is e) then runes ''canceled''
        else if CtxDeadlineExceeded \<in> set (ge_is e) then runes ''timeout''
        else if ExecNotFound \<in> set (ge_is e) then runes ''decoder-not-found''
        else case ge_exit e of
          Some code \<Rightarrow> runes ''decoder-exit-'' @ decimal_int code
        | None \<Rightarrow> (let low = lowered ulow (ge_text e) in
            if contains low (runes ''no output'') then runes ''decoder-no-output''
            else if contains low (runes ''executable file not found'') \<or>
                    contains low (runes ''no such file'') then runes ''decoder-not-found''
            else if contains low (runes ''png'') \<or> contains low (runes ''image'')
              then runes ''decoder-bad-image''
            else runes ''decode-failed'')))"

end
