(* ===== verification/Device_Error.thy ===== *)
theory Device_Error
  imports Vocabulary
begin

text \<open>
  Errors of the client and what of them may be shown: \<open>errors.go\<close>, the credential wrapper and
  the body filter of \<open>redact.go\<close>, and the metadata check of \<open>compat.go\<close>.

  An error value is a tree: \<open>Wrap\<close> is \<open>fmt.Errorf\<close> with one \<open>%w\<close> (the text before and after
  it), \<open>Plain\<close> one without, \<open>Foreign\<close> an error of a dependency with the library errors it
  wraps. \<open>errors.Is\<close> and \<open>errors.As\<close> search the tree. The replacements of the three patterns
  of \<open>redact.go\<close> are the fields of \<open>redactor\<close>; \<open>Redaction\<close> defines those of the program.
\<close>

section \<open>Error values\<close>

datatype error_kind = AuthFailed | Unreachable | TimedOut | BadFrame

datatype errval =
    Plain text_runes
  | Wrap text_runes errval text_runes
  | Device error_kind text_runes text_runes "errval option"
  | APIError text_runes int text_runes
  | CompatibilityError text_runes text_runes
  | Foreign go_error
  | HIDClosed
  | Join "errval list"

definition ctx_canceled :: errval where
  "ctx_canceled = Foreign \<lparr>ge_is = [CtxCanceled], ge_exit = None, ge_text = runes ''context canceled''\<rparr>"

definition ctx_deadline :: errval where
  "ctx_deadline = Foreign \<lparr>ge_is = [CtxDeadlineExceeded], ge_exit = None,
     ge_text = runes ''context deadline exceeded''\<rparr>"

fun kind_name :: "error_kind \<Rightarrow> text_runes" where
  "kind_name AuthFailed = runes ''auth-failed''"
| "kind_name Unreachable = runes ''unreachable''"
| "kind_name TimedOut = runes ''timeout''"
| "kind_name BadFrame = runes ''bad-frame''"

fun description :: "error_kind \<Rightarrow> text_runes" where
  "description AuthFailed = runes ''device authentication failed''"
| "description Unreachable = runes ''device is unreachable''"
| "description TimedOut = runes ''device operation timed out''"
| "description BadFrame = runes ''device returned a malformed or oversized protocol frame''"

definition device_message :: "error_kind \<Rightarrow> text_runes \<Rightarrow> text_runes \<Rightarrow> text_runes" where
  "device_message kind operation detail =
    runes ''jetkvm: '' @ kind_name kind @ runes '': '' @ description kind @
    (if operation \<noteq> [] then runes '' during '' @ operation else []) @
    (if detail \<noteq> [] then runes '': '' @ detail else [])"

definition compat_message :: "text_runes \<Rightarrow> text_runes \<Rightarrow> text_runes" where
  "compat_message stage detail =
    runes ''jetkvm: firmware protocol compatibility check failed at '' @ stage @ runes '': '' @ detail @
    runes '' (this client's protocol assumptions were read from jetkvm/kvm dev branch commit b3c29a4; the device's behavior no longer matches - see README.md#firmware-compatibility)''"

definition api_message :: "text_runes \<Rightarrow> int \<Rightarrow> text_runes \<Rightarrow> text_runes" where
  "api_message path status body =
    runes ''jetkvm: '' @ path @ runes '' returned HTTP '' @ decimal_int status @ runes '': '' @ body"

text \<open>\<open>Error()\<close>; \<open>errors.Join\<close> puts the messages on lines of their own.\<close>

fun message :: "errval \<Rightarrow> text_runes" and message_lines :: "errval list \<Rightarrow> text_runes" where
  "message (Plain t) = t"
| "message (Wrap pre e post) = pre @ message e @ post"
| "message (Device kind operation detail s) = device_message kind operation detail"
| "message (APIError path status body) = api_message path status body"
| "message (CompatibilityError stage detail) = compat_message stage detail"
| "message (Foreign e) = ge_text e"
| "message HIDClosed = runes ''jetkvm: HID control channel is closed''"
| "message (Join es) = message_lines es"
| "message_lines [] = []"
| "message_lines [e] = message e"
| "message_lines (e # e' # es) = message e @ [10] @ message_lines (e' # es)"

text \<open>
  \<open>errors.As\<close> for a \<open>*DeviceError\<close> and a \<open>*CompatibilityError\<close>, and \<open>errors.Is\<close> for the closed
  channel and for a library error: depth first, the node before what it wraps.
\<close>

fun as_device :: "errval \<Rightarrow> error_kind option" and first_device :: "errval list \<Rightarrow> error_kind option" where
  "as_device (Device kind operation detail s) = Some kind"
| "as_device (Wrap pre e post) = as_device e"
| "as_device (Join es) = first_device es"
| "as_device (Plain t) = None"
| "as_device (APIError path status body) = None"
| "as_device (CompatibilityError stage detail) = None"
| "as_device (Foreign e) = None"
| "as_device HIDClosed = None"
| "first_device [] = None"
| "first_device (e # es) = (case as_device e of Some k \<Rightarrow> Some k | None \<Rightarrow> first_device es)"

fun as_api :: "errval \<Rightarrow> int option" and first_api :: "errval list \<Rightarrow> int option" where
  "as_api (APIError path status body) = Some status"
| "as_api (Wrap pre e post) = as_api e"
| "as_api (Join es) = first_api es"
| "as_api (Device kind operation detail s) = (case s of Some e \<Rightarrow> as_api e | None \<Rightarrow> None)"
| "as_api (Plain t) = None"
| "as_api (CompatibilityError stage detail) = None"
| "as_api (Foreign e) = None"
| "as_api HIDClosed = None"
| "first_api [] = None"
| "first_api (e # es) = (case as_api e of Some c \<Rightarrow> Some c | None \<Rightarrow> first_api es)"

fun is_compat :: "errval \<Rightarrow> bool" where
  "is_compat (CompatibilityError stage detail) = True"
| "is_compat (Wrap pre e post) = is_compat e"
| "is_compat (Join es) = list_ex is_compat es"
| "is_compat (Device kind operation detail s) = (case s of Some e \<Rightarrow> is_compat e | None \<Rightarrow> False)"
| "is_compat (Plain t) = False"
| "is_compat (APIError path status body) = False"
| "is_compat (Foreign e) = False"
| "is_compat HIDClosed = False"

fun is_hid_closed :: "errval \<Rightarrow> bool" where
  "is_hid_closed HIDClosed = True"
| "is_hid_closed (Wrap pre e post) = is_hid_closed e"
| "is_hid_closed (Join es) = list_ex is_hid_closed es"
| "is_hid_closed (Device kind operation detail s) = (case s of Some e \<Rightarrow> is_hid_closed e | None \<Rightarrow> False)"
| "is_hid_closed (Plain t) = False"
| "is_hid_closed (APIError path status body) = False"
| "is_hid_closed (CompatibilityError stage detail) = False"
| "is_hid_closed (Foreign e) = False"

fun is_library :: "go_sentinel \<Rightarrow> errval \<Rightarrow> bool" where
  "is_library g (Foreign e) = (g \<in> set (ge_is e))"
| "is_library g (Wrap pre e post) = is_library g e"
| "is_library g (Join es) = list_ex (is_library g) es"
| "is_library g (Device kind operation detail s) = (case s of Some e \<Rightarrow> is_library g e | None \<Rightarrow> False)"
| "is_library g (Plain t) = False"
| "is_library g (APIError path status body) = False"
| "is_library g (CompatibilityError stage detail) = False"
| "is_library g HIDClosed = False"

text \<open>\<open>None\<close> is the empty kind.\<close>

definition ErrorKindOf :: "errval \<Rightarrow> error_kind option" where
  "ErrorKindOf err = (case as_device err of
      Some kind \<Rightarrow> Some kind
    | None \<Rightarrow>
       (if is_hid_closed err then Some Unreachable
        else if is_library CtxDeadlineExceeded err \<or> is_library CtxCanceled err then Some TimedOut
        else None))"

section \<open>Redaction\<close>

record redactor =
  rd_urls :: "text_runes \<Rightarrow> text_runes"
  rd_keys :: "text_runes \<Rightarrow> text_runes"
  rd_opaque :: "text_runes \<Rightarrow> text_runes"

definition redactSensitive :: "redactor \<Rightarrow> text_runes \<Rightarrow> text_runes" where
  "redactSensitive rd s = rd_opaque rd (rd_keys rd s)"

definition RedactError :: "redactor \<Rightarrow> errval option \<Rightarrow> text_runes" where
  "RedactError rd err = (case err of None \<Rightarrow> [] | Some e \<Rightarrow> redactSensitive rd (rd_urls rd (message e)))"

definition newDeviceError :: "redactor \<Rightarrow> error_kind \<Rightarrow> text_runes \<Rightarrow> errval option \<Rightarrow> errval" where
  "newDeviceError rd kind operation err = (case err of
      Some e \<Rightarrow> (if as_device e \<noteq> None then e else Device kind operation (RedactError rd err) None)
    | None \<Rightarrow> Device kind operation [] None)"

definition timeoutError :: "redactor \<Rightarrow> text_runes \<Rightarrow> errval option \<Rightarrow> errval" where
  "timeoutError rd operation err = Device TimedOut operation (RedactError rd err) None"

text \<open>\<open>Secret\<close>: the value and what it shows of itself.\<close>

datatype secret = NewSecret text_runes

fun Expose :: "secret \<Rightarrow> text_runes" where "Expose (NewSecret v) = v"
fun secret_Empty :: "secret \<Rightarrow> bool" where "secret_Empty (NewSecret v) = (v = [])"
fun ContainedIn :: "secret \<Rightarrow> text_runes \<Rightarrow> bool" where
  "ContainedIn (NewSecret v) public = (v \<noteq> [] \<and> contains public v)"
fun secret_String :: "secret \<Rightarrow> text_runes" where
  "secret_String (NewSecret v) = (if v = [] then runes ''<empty>'' else runes ''<redacted>'')"
fun secret_MarshalJSON :: "secret \<Rightarrow> text_runes" where
  "secret_MarshalJSON (NewSecret v) = [34] @ runes ''<redacted>'' @ [34]"

definition isAuthPath :: "(rune \<Rightarrow> rune) \<Rightarrow> text_runes \<Rightarrow> bool" where
  "isAuthPath ulow path =
    (let p = lowered ulow path in contains p (runes ''/auth/'') \<or> has_suffix p (runes ''/auth''))"

text \<open>
  \<open>s[:n]\<close> counts bytes. A rune cut in the middle leaves its first bytes, each on its own.
\<close>

fun cut_bytes :: "nat \<Rightarrow> text_runes \<Rightarrow> text_runes" where
  "cut_bytes n [] = []"
| "cut_bytes n (r # rs) =
    (if rune_len r \<le> n then r # cut_bytes (n - rune_len r) rs else map raw_byte (take n (rune_bytes r)))"

definition sanitizeErrorBody ::
  "redactor \<Rightarrow> (rune \<Rightarrow> rune) \<Rightarrow> text_runes \<Rightarrow> text_runes \<Rightarrow> secret list \<Rightarrow> text_runes" where
  "sanitizeErrorBody rd ulow path body known =
    (if isAuthPath ulow path then runes ''<response body omitted: authentication endpoint>''
     else if list_ex (\<lambda>c. ContainedIn c body) known
       then runes ''<response body omitted: credential reflection>''
     else let s = redactSensitive rd body in
       if byte_len s > 500 then cut_bytes 500 s @ runes ''...(truncated)'' else s)"

section \<open>Firmware metadata\<close>

text \<open>
  \<open>decode\<close> is the JSON decoder at the metadata structure: the version it finds (empty when
  the field is missing) or the decoder's error text.
\<close>

definition metadata_stage :: text_runes where "metadata_stage = runes ''signaling-metadata''"

definition checkDeviceMetadata ::
  "('raw \<Rightarrow> text_runes + text_runes) \<Rightarrow> text_runes \<Rightarrow> 'raw \<Rightarrow> errval + text_runes" where
  "checkDeviceMetadata decode msgType raw =
    (if msgType \<noteq> runes ''device-metadata'' then
       Inl (CompatibilityError metadata_stage (runes ''expected the first signaling message to have type '' @
         [34] @ runes ''device-metadata'' @ [34] @ runes ''; received an unexpected message type''))
     else case decode raw of
        Inl err \<Rightarrow> Inl (CompatibilityError metadata_stage
          (runes ''device-metadata payload did not decode as expected: '' @ err))
      | Inr version \<Rightarrow>
         (if version = [] then Inl (CompatibilityError metadata_stage
            (runes ''device-metadata payload had an empty deviceVersion field''))
          else Inr version))"

section \<open>Kinds\<close>

lemma as_device_new [simp]: "as_device (newDeviceError rd k op e) =
    (case e of Some e' \<Rightarrow> (case as_device e' of Some k' \<Rightarrow> Some k' | None \<Rightarrow> Some k) | None \<Rightarrow> Some k)"
  by (auto simp: newDeviceError_def split: option.splits)

lemma classified_new [simp]: "ErrorKindOf (newDeviceError rd k op e) \<noteq> None"
  by (auto simp: ErrorKindOf_def split: option.splits)

lemma ErrorKindOf_Wrap [simp]: "ErrorKindOf (Wrap pre e post) = ErrorKindOf e"
  by (simp add: ErrorKindOf_def)

lemma secrets_look_alike:
  "secret_Empty a = secret_Empty b \<Longrightarrow> secret_String a = secret_String b"
  "secret_MarshalJSON a = secret_MarshalJSON b"
  by (cases a; cases b; simp)+

end
