(* ===== verification/Frame_Capture.thy ===== *)
theory Frame_Capture
  imports Annexb Rtp Device_Error
begin

text \<open>
  The frame store of \<open>video.go\<close>: it caches parameter sets, assembles a self-contained frame
  from every access unit with an IDR slice, records the first media error and hands waiters
  a frame newer than their request.

  Each critical section of the mutex is one operation; \<open>ingest\<close> is their composition. A
  concurrent run is a sequence of critical sections (\<open>store_event\<close>) in any order, so the
  invariant holds for every interleaving of the read loop, the SDP seeding and failures.
  The channel \<open>updated\<close> is the number of broadcasts: a waiter that captured the channel at
  broadcast \<open>n\<close> is woken once the count exceeds \<open>n\<close>. Calls to the diagnostics collector
  are kept in order in \<open>diag\<close>. Times are opaque.
\<close>

section \<open>State\<close>

definition naluTypeIDR :: byte where "naluTypeIDR = 5"
definition naluTypeSPS :: byte where "naluTypeSPS = 7"
definition naluTypePPS :: byte where "naluTypePPS = 8"

lemmas nalu_type_defs = naluTypeIDR_def naluTypeSPS_def naluTypePPS_def

datatype param_source = ParamRTP | ParamSDP

text \<open>What the client reads of an \<open>rtp.Packet\<close>.\<close>

record media_packet =
  mp_payload :: "byte list"
  mp_sequence :: u16
  mp_timestamp :: u32
  mp_marker :: bool
  mp_ssrc :: u32

type_synonym time = int

datatype diag_call =
    DiagRtpPacket time media_packet
  | DiagSampleAssembled u16
  | DiagNaluSeen byte
  | DiagParameterSetSource param_source
  | DiagFrameAssembled
  | DiagTrackReadFailed text_runes

record frame =
  annexB :: "byte list"
  capturedAt :: time
  frame_generation :: u64

record frameCapture =
  fc_sps :: "byte list option"
  fc_pps :: "byte list option"
  fc_latest :: "frame option"
  fc_generation :: u64
  fc_err :: "errval option"
  fc_updated :: nat
  fc_diag :: "diag_call list"

definition newFrameCapture :: frameCapture where
  "newFrameCapture = \<lparr>fc_sps = None, fc_pps = None, fc_latest = None, fc_generation = 0,
     fc_err = None, fc_updated = 0, fc_diag = []\<rparr>"

section \<open>Operations\<close>

definition fc_record :: "diag_call \<Rightarrow> frameCapture \<Rightarrow> frameCapture" where
  "fc_record d f = f\<lparr>fc_diag := fc_diag f @ [d]\<rparr>"

definition notifyLocked :: "frameCapture \<Rightarrow> frameCapture" where
  "notifyLocked f = f\<lparr>fc_updated := fc_updated f + 1\<rparr>"

definition fc_fail :: "errval \<Rightarrow> frameCapture \<Rightarrow> frameCapture" where
  "fc_fail err f =
    (case fc_err f of
       Some _ \<Rightarrow> f
     | None \<Rightarrow> notifyLocked (f\<lparr>fc_err := Some err\<rparr>))"

definition fc_endRun :: "redactor \<Rightarrow> (rune \<Rightarrow> rune) \<Rightarrow> go_error option \<Rightarrow> frameCapture \<Rightarrow> frameCapture" where
  "fc_endRun rd ulow err f =
    (if err = None then f
     else let category = classifyTrackReadError ulow err in
       fc_fail (newDeviceError rd Unreachable (runes ''reading video track'')
           (Some (Plain (runes ''video track read ended '' @ [40] @ category @ [41]))))
         (fc_record (DiagTrackReadFailed category) f))"

definition store_sps :: "byte list \<Rightarrow> frameCapture \<Rightarrow> frameCapture" where
  "store_sps n f = fc_record (DiagParameterSetSource ParamRTP) (f\<lparr>fc_sps := Some n\<rparr>)"

definition store_pps :: "byte list \<Rightarrow> frameCapture \<Rightarrow> frameCapture" where
  "store_pps n f = fc_record (DiagParameterSetSource ParamRTP) (f\<lparr>fc_pps := Some n\<rparr>)"

definition scan_nalu :: "byte list \<Rightarrow> frameCapture \<Rightarrow> frameCapture" where
  "scan_nalu n f0 =
    (let t = n ! 0 AND 0x1F; f = fc_record (DiagNaluSeen t) f0 in
     if t = naluTypeSPS then store_sps n f
     else if t = naluTypePPS then store_pps n f
     else f)"

text \<open>The loop of \<open>ingest\<close> over the NAL units, with \<open>idrNALUs\<close> as accumulator.\<close>

fun ingest_nalus :: "byte list list \<Rightarrow> byte list list \<Rightarrow> frameCapture \<Rightarrow> byte list list \<times> frameCapture" where
  "ingest_nalus [] idrs f = (idrs, f)"
| "ingest_nalus (n # ns) idrs f =
    (if length n = 0 then ingest_nalus ns idrs f
     else ingest_nalus ns (if n ! 0 AND 0x1F = naluTypeIDR then idrs @ [n] else idrs) (scan_nalu n f))"

text \<open>The last critical section of \<open>ingest\<close>.\<close>

definition commit_frame :: "byte list list \<Rightarrow> time \<Rightarrow> frameCapture \<Rightarrow> frameCapture" where
  "commit_frame idrs now f =
    (if fc_err f \<noteq> None then f
     else case (fc_sps f, fc_pps f) of
        (Some sps, Some pps) \<Rightarrow>
          (let parts = sps # pps # idrs; g = fc_generation f + 1 in
           notifyLocked (fc_record DiagFrameAssembled
             (f\<lparr>fc_generation := g,
                fc_latest := Some \<lparr>annexB = buildAnnexB parts, capturedAt = now,
                                   frame_generation = g\<rparr>\<rparr>)))
      | _ \<Rightarrow> f)"

definition ingest :: "byte list \<Rightarrow> time \<Rightarrow> frameCapture \<Rightarrow> frameCapture" where
  "ingest data now f =
    (let (idrs, f') = ingest_nalus (splitAnnexB data) [] f in
     if length idrs = 0 then f' else commit_frame idrs now f')"

text \<open>
  \<open>push\<close>: the samples are what the sample builder (pion, not in this repository) pops after
  the packet was pushed, each with its count of dropped packets and the time of ingestion. \<open>t\<close> is the time
  since the start at which the packet is recorded.
\<close>

definition push ::
  "time \<Rightarrow> media_packet \<Rightarrow> (u16 \<times> byte list \<times> time) list \<Rightarrow> frameCapture \<Rightarrow> frameCapture" where
  "push t pkt samples f =
    fold (\<lambda>(dropped, data, now) f. ingest data now (fc_record (DiagSampleAssembled dropped) f))
      samples (fc_record (DiagRtpPacket t pkt) f)"

definition seedParameterSets ::
  "byte list option \<Rightarrow> byte list option \<Rightarrow> frameCapture \<Rightarrow> frameCapture" where
  "seedParameterSets sps pps f =
    (if sps = None \<and> pps = None then f
     else
       (let f = (if sps \<noteq> None \<and> fc_sps f = None
                 then fc_record (DiagParameterSetSource ParamSDP) (f\<lparr>fc_sps := sps\<rparr>) else f)
        in if pps \<noteq> None \<and> fc_pps f = None
           then fc_record (DiagParameterSetSource ParamSDP) (f\<lparr>fc_pps := pps\<rparr>) else f))"

definition generationBoundary :: "frameCapture \<Rightarrow> u64" where
  "generationBoundary f = fc_generation f"

text \<open>
  \<open>waitForFrameAfter\<close>: one locked check, which returns, or blocks on the channel it saw; and
  the loop over what the waiter then observes, the store at each wake-up or the end of its
  context.
\<close>

datatype wait_result = GotFrame frame | GotError errval | Blocked nat

definition wait_check :: "u64 \<Rightarrow> frameCapture \<Rightarrow> wait_result" where
  "wait_check after f =
    (case fc_latest f of
       Some fr \<Rightarrow> (if frame_generation fr > after then GotFrame fr
                  else case fc_err f of Some e \<Rightarrow> GotError e | None \<Rightarrow> Blocked (fc_updated f))
     | None \<Rightarrow> (case fc_err f of Some e \<Rightarrow> GotError e | None \<Rightarrow> Blocked (fc_updated f)))"

datatype wake = Updated frameCapture | ContextDone errval

fun waitForFrameAfter :: "u64 \<Rightarrow> frameCapture \<Rightarrow> wake list \<Rightarrow> wait_result" where
  "waitForFrameAfter after f wakes = (case wait_check after f of
      GotFrame fr \<Rightarrow> GotFrame fr
    | GotError e \<Rightarrow> GotError e
    | Blocked u \<Rightarrow> (case wakes of
          [] \<Rightarrow> Blocked u
        | ContextDone e # _ \<Rightarrow> GotError e
        | Updated f' # ws \<Rightarrow> waitForFrameAfter after f' ws))"

section \<open>Concurrent runs\<close>

datatype store_event =
    ScanNalu "byte list"
  | CommitFrame "byte list list" time
  | Seed "byte list option" "byte list option"
  | Fail errval

fun store_step :: "store_event \<Rightarrow> frameCapture \<Rightarrow> frameCapture" where
  "store_step (ScanNalu n) f = scan_nalu n f"
| "store_step (CommitFrame idrs now) f = commit_frame idrs now f"
| "store_step (Seed sps pps) f = seedParameterSets sps pps f"
| "store_step (Fail e) f = fc_fail e f"

definition nalu_type :: "byte list \<Rightarrow> byte" where
  "nalu_type n = n ! 0 AND 0x1F"

definition clean_nalu :: "byte list \<Rightarrow> bool" where
  "clean_nalu n \<longleftrightarrow> n \<noteq> [] \<and> start_free n"

text \<open>
  What the events carry: units of an access unit are free of start codes, because \<open>splitAnnexB\<close>
  returned them; a seeded set is a unit of its type, with start codes only if \<open>P\<close> allows them.
  \<open>ingest_events_ok\<close> below and \<open>Sprop.seed_event_ok\<close> show that every event of the code is of this
  kind, for the \<open>P\<close> that is always true.
\<close>

definition set_ok :: "(byte list \<Rightarrow> bool) \<Rightarrow> byte \<Rightarrow> byte list \<Rightarrow> bool" where
  "set_ok P t n \<longleftrightarrow> n \<noteq> [] \<and> nalu_type n = t \<and> (start_free n \<or> P n)"

fun event_ok :: "(byte list \<Rightarrow> bool) \<Rightarrow> store_event \<Rightarrow> bool" where
  "event_ok P (ScanNalu n) \<longleftrightarrow> clean_nalu n"
| "event_ok P (CommitFrame idrs now) \<longleftrightarrow>
     idrs \<noteq> [] \<and> (\<forall>n \<in> set idrs. clean_nalu n \<and> nalu_type n = naluTypeIDR)"
| "event_ok P (Seed sps pps) \<longleftrightarrow>
     (\<forall>n. sps = Some n \<longrightarrow> set_ok P naluTypeSPS n) \<and> (\<forall>n. pps = Some n \<longrightarrow> set_ok P naluTypePPS n)"
| "event_ok P (Fail e) \<longleftrightarrow> True"

text \<open>The critical sections of one \<open>ingest\<close>, in order.\<close>

definition idr_nalus :: "byte list list \<Rightarrow> byte list list" where
  "idr_nalus ns = filter (\<lambda>n. n \<noteq> [] \<and> nalu_type n = naluTypeIDR) ns"

definition ingest_events :: "byte list \<Rightarrow> time \<Rightarrow> store_event list" where
  "ingest_events data now =
    (let ns = splitAnnexB data in
     map ScanNalu (filter (\<lambda>n. n \<noteq> []) ns) @
     (if idr_nalus ns = [] then [] else [CommitFrame (idr_nalus ns) now]))"

lemma ingest_nalus_eq:
  "ingest_nalus ns idrs f =
     (idrs @ idr_nalus ns, fold store_step (map ScanNalu (filter (\<lambda>n. n \<noteq> []) ns)) f)"
  by (induction ns arbitrary: idrs f) (auto simp: idr_nalus_def nalu_type_def)

lemma ingest_is_events: "ingest data now f = fold store_step (ingest_events data now) f"
  by (simp add: ingest_def ingest_nalus_eq ingest_events_def Let_def)

lemma ingest_events_ok: "e \<in> set (ingest_events data now) \<Longrightarrow> event_ok P e"
  using splitAnnexB_start_free [of _ data]
  by (auto simp: ingest_events_def Let_def clean_nalu_def idr_nalus_def split: if_splits)

section \<open>The invariant\<close>

definition self_contained :: "byte list \<Rightarrow> bool" where
  "self_contained bs \<longleftrightarrow> (case splitAnnexB bs of
      sps # pps # idrs \<Rightarrow> nalu_type sps = naluTypeSPS \<and> nalu_type pps = naluTypePPS \<and>
        idrs \<noteq> [] \<and> (\<forall>n \<in> set idrs. nalu_type n = naluTypeIDR)
    | _ \<Rightarrow> False)"

text \<open>The frame that is published is built from stored sets and the slices of one access unit.\<close>

definition built_from :: "(byte list \<Rightarrow> bool) \<Rightarrow> byte list \<Rightarrow> bool" where
  "built_from P bs \<longleftrightarrow> (\<exists>sps pps idrs. bs = buildAnnexB (sps # pps # idrs) \<and>
     set_ok P naluTypeSPS sps \<and> set_ok P naluTypePPS pps \<and>
     idrs \<noteq> [] \<and> (\<forall>n \<in> set idrs. clean_nalu n \<and> nalu_type n = naluTypeIDR))"

definition store_inv :: "(byte list \<Rightarrow> bool) \<Rightarrow> frameCapture \<Rightarrow> bool" where
  "store_inv P f \<longleftrightarrow>
     (\<forall>n. fc_sps f = Some n \<longrightarrow> set_ok P naluTypeSPS n) \<and>
     (\<forall>n. fc_pps f = Some n \<longrightarrow> set_ok P naluTypePPS n) \<and>
     (\<forall>fr. fc_latest f = Some fr \<longrightarrow> built_from P (annexB fr))"

lemmas store_defs = fc_record_def notifyLocked_def fc_fail_def store_sps_def store_pps_def
  scan_nalu_def seedParameterSets_def

lemma commit_frame_inv:
  assumes "store_inv P f" "event_ok P (CommitFrame idrs now)"
  shows "store_inv P (commit_frame idrs now f)"
proof (cases "fc_err f = None \<and> fc_sps f \<noteq> None \<and> fc_pps f \<noteq> None")
  case True
  then obtain sps pps where sp: "fc_sps f = Some sps" "fc_pps f = Some pps" by auto
  then have "built_from P (buildAnnexB (sps # pps # idrs))"
    using assms unfolding built_from_def store_inv_def
    by (intro exI [of _ sps] exI [of _ pps] exI [of _ idrs]) simp
  with True sp assms show ?thesis
    by (simp add: commit_frame_def store_inv_def store_defs Let_def)
next
  case False
  then show ?thesis using assms(1) by (auto simp: commit_frame_def split: option.splits)
qed

lemma clean_set_ok: "clean_nalu n \<Longrightarrow> nalu_type n = t \<Longrightarrow> set_ok P t n"
  by (simp add: clean_nalu_def set_ok_def)

lemma scan_nalu_inv:
  assumes "store_inv P f" "clean_nalu n"
  shows "store_inv P (scan_nalu n f)"
  using assms(1) clean_set_ok [OF assms(2), of naluTypeSPS P] clean_set_ok [OF assms(2), of naluTypePPS P]
  by (simp add: store_inv_def store_defs nalu_type_def Let_def)

lemma seed_inv:
  assumes "store_inv P f" "event_ok P (Seed sps pps)"
  shows "store_inv P (seedParameterSets sps pps f)"
  using assms by (simp add: store_inv_def store_defs Let_def)

lemma store_step_inv: "event_ok P e \<Longrightarrow> store_inv P f \<Longrightarrow> store_inv P (store_step e f)"
proof (cases e)
  case (Fail err)
  assume "store_inv P f"
  with Fail show ?thesis by (simp add: store_inv_def store_defs split: option.split)
qed (simp_all add: commit_frame_inv scan_nalu_inv seed_inv del: event_ok.simps(3))

lemma newFrameCapture_inv: "store_inv P newFrameCapture"
  by (simp add: store_inv_def newFrameCapture_def)

interpretation frames: run_invariant store_step "event_ok P" "store_inv P" for P
  by unfold_locales (rule store_step_inv)

lemma returned_frame_built:
  assumes "\<forall>e \<in> set evs. event_ok P e"
    and "fc_latest (fold store_step evs newFrameCapture) = Some fr"
  shows "built_from P (annexB fr)"
  using assms frames.run_inv [OF assms(1) newFrameCapture_inv] by (auto simp: store_inv_def)

lemma clean_frame_splits:
  assumes "built_from (\<lambda>_. False) bs"
  shows "self_contained bs"
proof -
  obtain sps pps idrs where f: "bs = buildAnnexB (sps # pps # idrs)"
    "set_ok (\<lambda>_. False) naluTypeSPS sps" "set_ok (\<lambda>_. False) naluTypePPS pps"
    "idrs \<noteq> []" "\<forall>n \<in> set idrs. clean_nalu n \<and> nalu_type n = naluTypeIDR"
    using assms by (auto simp: built_from_def)
  then have "splitAnnexB bs = sps # pps # idrs"
    using annexb.decode_encode [of "sps # pps # idrs"] by (simp add: set_ok_def clean_nalu_def)
  with f show ?thesis by (simp add: self_contained_def set_ok_def)
qed

text \<open>In general each set is split into pieces of its own, and the slices are kept.\<close>

lemma built_frame_splits:
  assumes "built_from P bs"
  shows "\<exists>ss ps idrs. splitAnnexB bs = ss @ ps @ idrs \<and> ss \<noteq> [] \<and> ps \<noteq> [] \<and> idrs \<noteq> [] \<and>
    nalu_type (hd ss) = naluTypeSPS \<and> nalu_type (hd ps) = naluTypePPS \<and>
    (\<forall>n \<in> set idrs. nalu_type n = naluTypeIDR)"
proof -
  obtain sps pps idrs where f: "bs = buildAnnexB (sps # pps # idrs)"
    "set_ok P naluTypeSPS sps" "set_ok P naluTypePPS pps"
    "idrs \<noteq> []" "\<forall>n \<in> set idrs. clean_nalu n \<and> nalu_type n = naluTypeIDR"
    using assms by (auto simp: built_from_def)
  have head: "pieces n \<noteq> [] \<and> nalu_type (hd (pieces n)) = t" if "set_ok P t n" "t \<noteq> 0" for t n
  proof -
    have n: "n \<noteq> []" "nalu_type n = t" using that(1) by (simp_all add: set_ok_def)
    then have "n ! 0 \<noteq> 0" using that(2) by (auto simp: nalu_type_def)
    with pieces_head [OF n(1)] n(2) show ?thesis by (simp add: nalu_type_def)
  qed
  have "splitAnnexB bs = pieces sps @ pieces pps @ idrs"
    using f annexb.decode_encode [of idrs] by (simp add: split_build_Cons clean_nalu_def del: buildAnnexB.simps)
  moreover have "(naluTypeSPS :: byte) \<noteq> 0" "(naluTypePPS :: byte) \<noteq> 0" by (simp_all add: nalu_type_defs)
  ultimately show ?thesis using head [OF f(2)] head [OF f(3)] f(4,5) by blast
qed

text \<open>The newest frame has the newest generation.\<close>

definition generation_inv :: "frameCapture \<Rightarrow> bool" where
  "generation_inv f \<longleftrightarrow> (\<forall>fr. fc_latest f = Some fr \<longrightarrow> frame_generation fr = fc_generation f)"

interpretation frame_generations: run_invariant store_step "\<lambda>_. True" generation_inv
proof unfold_locales
  fix e f
  assume "generation_inv f"
  then show "generation_inv (store_step e f)"
    by (cases e) (auto simp: generation_inv_def store_defs commit_frame_def Let_def split: option.splits)
qed

lemma latest_generation:
  assumes "f = fold store_step evs newFrameCapture" "fc_latest f = Some fr"
  shows "frame_generation fr = fc_generation f"
proof -
  have "generation_inv newFrameCapture" by (simp add: generation_inv_def newFrameCapture_def)
  from frame_generations.run_inv [OF _ this, of evs] assms show ?thesis by (simp add: generation_inv_def)
qed

section \<open>What a step can change\<close>

lemma wait_check_GotFrame_iff:
  "wait_check after f = GotFrame fr \<longleftrightarrow> fc_latest f = Some fr \<and> frame_generation fr > after"
  by (auto simp: wait_check_def split: option.splits if_splits)

lemma wait_check_Blocked_iff:
  "wait_check after f = Blocked u \<longleftrightarrow> u = fc_updated f \<and> fc_err f = None \<and>
     (\<forall>fr. fc_latest f = Some fr \<longrightarrow> \<not> frame_generation fr > after)"
  by (auto simp: wait_check_def split: option.splits if_splits)

lemma store_step_latest:
  "fc_latest (store_step e f) = fc_latest f \<and> fc_generation (store_step e f) = fc_generation f \<or>
   (\<exists>idrs now sps pps. e = CommitFrame idrs now \<and> fc_err f = None \<and>
      fc_sps f = Some sps \<and> fc_pps f = Some pps \<and>
      fc_latest (store_step e f) = Some \<lparr>annexB = buildAnnexB (sps # pps # idrs), capturedAt = now,
        frame_generation = fc_generation f + 1\<rparr>)"
  by (cases e) (auto simp: commit_frame_def store_defs Let_def split: option.splits)

lemma store_step_updated:
  "fc_updated f \<le> fc_updated (store_step e f) \<and>
   (fc_latest (store_step e f) \<noteq> fc_latest f \<or> fc_err (store_step e f) \<noteq> fc_err f \<longrightarrow>
     fc_updated f < fc_updated (store_step e f))"
  by (cases e) (auto simp: commit_frame_def store_defs Let_def split: option.splits)

lemma store_run_updated:
  "fc_updated f \<le> fc_updated (fold store_step evs f) \<and>
   (fc_latest (fold store_step evs f) \<noteq> fc_latest f \<or> fc_err (fold store_step evs f) \<noteq> fc_err f \<longrightarrow>
     fc_updated f < fc_updated (fold store_step evs f))"
proof (induction evs arbitrary: f)
  case (Cons e evs)
  show ?case
    using Cons [of "store_step e f"] store_step_updated [of f e] by (auto intro: order_trans)
qed simp

lemma store_step_failed:
  "fc_err f = Some err \<Longrightarrow> fc_err (store_step e f) = Some err \<and>
     fc_latest (store_step e f) = fc_latest f \<and> fc_generation (store_step e f) = fc_generation f"
  by (cases e) (auto simp: commit_frame_def store_defs Let_def split: option.splits)

lemma store_run_commits:
  assumes "fc_latest (fold store_step evs f) \<noteq> fc_latest f"
  shows "\<exists>pre idrs now post sps pps. evs = pre @ CommitFrame idrs now # post \<and>
    fc_sps (fold store_step pre f) = Some sps \<and> fc_pps (fold store_step pre f) = Some pps \<and>
    fc_latest (fold store_step evs f) =
      Some \<lparr>annexB = buildAnnexB (sps # pps # idrs), capturedAt = now,
        frame_generation = fc_generation (fold store_step pre f) + 1\<rparr> \<and>
    fc_latest (store_step (CommitFrame idrs now) (fold store_step pre f)) = fc_latest (fold store_step evs f)"
  using assms
proof (induction evs rule: rev_induct)
  case (snoc e evs)
  let ?f = "fold store_step evs f"
  from store_step_latest [of e ?f] show ?case
  proof
    assume same: "fc_latest (store_step e ?f) = fc_latest ?f \<and>
      fc_generation (store_step e ?f) = fc_generation ?f"
    with snoc obtain pre idrs now post sps pps where "evs = pre @ CommitFrame idrs now # post"
       "fc_sps (fold store_step pre f) = Some sps" "fc_pps (fold store_step pre f) = Some pps"
       "fc_latest ?f = Some \<lparr>annexB = buildAnnexB (sps # pps # idrs), capturedAt = now,
          frame_generation = fc_generation (fold store_step pre f) + 1\<rparr>"
       "fc_latest (store_step (CommitFrame idrs now) (fold store_step pre f)) = fc_latest ?f"
      by auto
    with same show ?thesis
      by (intro exI [of _ pre] exI [of _ idrs] exI [of _ now] exI [of _ "post @ [e]"] exI [of _ sps]
          exI [of _ pps]) auto
  next
    assume "\<exists>idrs now sps pps. e = CommitFrame idrs now \<and> fc_err ?f = None \<and>
      fc_sps ?f = Some sps \<and> fc_pps ?f = Some pps \<and>
      fc_latest (store_step e ?f) = Some \<lparr>annexB = buildAnnexB (sps # pps # idrs), capturedAt = now,
        frame_generation = fc_generation ?f + 1\<rparr>"
    then show ?thesis by (intro exI [of _ evs]) fastforce
  qed
qed simp

text \<open>So a frame above the generation the store had was committed since.\<close>

lemma later_frame_commits:
  assumes "f0 = fold store_step evs0 newFrameCapture"
    and "fc_latest (fold store_step evs f0) = Some fr" and "frame_generation fr > generationBoundary f0"
  shows "\<exists>pre idrs now post sps pps. evs = pre @ CommitFrame idrs now # post \<and>
    fc_sps (fold store_step pre f0) = Some sps \<and> fc_pps (fold store_step pre f0) = Some pps \<and>
    annexB fr = buildAnnexB (sps # pps # idrs) \<and> capturedAt fr = now \<and>
    fc_latest (store_step (CommitFrame idrs now) (fold store_step pre f0)) = Some fr"
proof -
  have "fc_latest (fold store_step evs f0) \<noteq> fc_latest f0"
    using assms latest_generation [OF assms(1), of fr] by (auto simp: generationBoundary_def)
  from store_run_commits [OF this] obtain pre idrs now post sps pps where c:
    "evs = pre @ CommitFrame idrs now # post"
    "fc_sps (fold store_step pre f0) = Some sps" "fc_pps (fold store_step pre f0) = Some pps"
    "fr = \<lparr>annexB = buildAnnexB (sps # pps # idrs), capturedAt = now,
        frame_generation = fc_generation (fold store_step pre f0) + 1\<rparr>"
    "fc_latest (store_step (CommitFrame idrs now) (fold store_step pre f0)) = Some fr"
    using assms(2) by auto
  moreover have "annexB fr = buildAnnexB (sps # pps # idrs)" "capturedAt fr = now" by (simp_all add: c(4))
  ultimately show ?thesis by blast
qed

section \<open>Properties\<close>

definition example_events :: "store_event list" where
  "example_events = [ScanNalu [0x67, 1], ScanNalu [0x68, 2], ScanNalu [0x65, 3],
     CommitFrame [[0x65, 3]] 40]"

lemma example_store: "wait_check 0 (fold store_step example_events newFrameCapture) =
  GotFrame \<lparr>annexB = [0, 0, 0, 1, 0x67, 1, 0, 0, 0, 1, 0x68, 2, 0, 0, 0, 1, 0x65, 3],
    capturedAt = 40, frame_generation = 1\<rparr>"
  by (simp add: example_events_def newFrameCapture_def store_defs nalu_type_defs commit_frame_def
      wait_check_def annexBStartCode_def Let_def)

text \<open>
  C14. No wake-up is lost: if a waiter's check blocks on the channel it saw, and anything later
  would let the check return, then that channel has been closed in between, and the woken
  waiter returns exactly what the new state has.
\<close>

theorem no_lost_wakeup:
  assumes "wait_check after f = Blocked u"
    and "f' = fold store_step evs f" and "\<nexists>v. wait_check after f' = Blocked v"
  shows "u < fc_updated f' \<and> waitForFrameAfter after f [Updated f'] = wait_check after f'"
proof -
  have "fc_latest f' \<noteq> fc_latest f \<or> fc_err f' \<noteq> fc_err f"
    using assms(1,3) by (auto simp: wait_check_Blocked_iff)
  then have "u < fc_updated f'"
    using assms(1,2) store_run_updated [of f evs] by (simp add: wait_check_Blocked_iff)
  then show ?thesis using assms(1,3) by (auto split: wait_result.splits)
qed

theorem no_lost_wakeup_witness:
  "0 < fc_updated (fold store_step [Fail HIDClosed] newFrameCapture)"
  using no_lost_wakeup [of 0 newFrameCapture 0 "fold store_step [Fail HIDClosed] newFrameCapture"
      "[Fail HIDClosed]"]
  by (simp add: wait_check_def newFrameCapture_def store_defs)

text \<open>
  The first media error is terminal: it is never replaced, and no later event publishes a
  frame or moves the generation.
\<close>

theorem media_error_is_terminal:
  assumes "fc_err f = Some err"
  shows "fc_err (fold store_step evs f) = Some err \<and>
    fc_latest (fold store_step evs f) = fc_latest f \<and>
    generationBoundary (fold store_step evs f) = generationBoundary f"
  using assms
proof (induction evs arbitrary: f)
  case (Cons e evs)
  then show ?case
    using store_step_failed [OF Cons.prems, of e] by (simp add: generationBoundary_def)
qed simp

theorem media_error_is_terminal_witness:
  "fc_latest (fold store_step example_events (fc_fail HIDClosed newFrameCapture)) = None"
  using media_error_is_terminal
    [of "fc_fail HIDClosed newFrameCapture" HIDClosed example_events]
  by (simp add: store_defs newFrameCapture_def)

text \<open>
  A complete keyframe is never lost: when no error was recorded, ingesting an access unit
  whose NAL units include an SPS, a PPS and an IDR slice, in any order and among others,
  publishes a frame of the next generation made of the unit's last SPS, last PPS and all its
  IDR slices, and wakes the waiters.
\<close>

theorem keyframe_is_published:
  assumes "fc_err f = None" and ns: "splitAnnexB data = ns"
    and "sps = last (filter (\<lambda>n. n \<noteq> [] \<and> nalu_type n = naluTypeSPS) ns)"
      "filter (\<lambda>n. n \<noteq> [] \<and> nalu_type n = naluTypeSPS) ns \<noteq> []"
    and "pps = last (filter (\<lambda>n. n \<noteq> [] \<and> nalu_type n = naluTypePPS) ns)"
      "filter (\<lambda>n. n \<noteq> [] \<and> nalu_type n = naluTypePPS) ns \<noteq> []"
    and "idr_nalus ns \<noteq> []"
  shows "fc_latest (ingest data now f) = Some
      \<lparr>annexB = buildAnnexB (sps # pps # idr_nalus ns), capturedAt = now,
       frame_generation = fc_generation f + 1\<rparr> \<and>
    fc_updated (ingest data now f) = fc_updated f + 1"
proof -
  let ?scan = "\<lambda>ns f. fold store_step (map ScanNalu (filter (\<lambda>n. n \<noteq> []) ns)) f"
  let ?last = "\<lambda>t old ns. case filter (\<lambda>n. n \<noteq> [] \<and> nalu_type n = t) ns of [] \<Rightarrow> old | xs \<Rightarrow> Some (last xs)"
  have scan: "fc_sps (?scan ns f) = ?last naluTypeSPS (fc_sps f) ns \<and>
    fc_pps (?scan ns f) = ?last naluTypePPS (fc_pps f) ns \<and> fc_err (?scan ns f) = fc_err f \<and>
    fc_generation (?scan ns f) = fc_generation f \<and> fc_updated (?scan ns f) = fc_updated f" for ns f
    by (induction ns arbitrary: f)
      (auto simp: store_defs Let_def nalu_type_def nalu_type_defs split: list.splits)
  have "ingest data now f = commit_frame (idr_nalus ns) now (?scan ns f)"
    using assms by (simp add: ingest_def ingest_nalus_eq)
  moreover have "fc_sps (?scan ns f) = Some sps" "fc_pps (?scan ns f) = Some pps"
    using scan [of ns f] assms by (auto split: list.splits)
  ultimately show ?thesis
    using scan [of ns f] assms(1) by (simp add: commit_frame_def store_defs Let_def)
qed

theorem keyframe_is_published_witness:
  "fc_updated (ingest [0, 0, 1, 0x67, 1, 0, 0, 1, 0x68, 2, 0, 0, 1, 0x65, 3] 40 newFrameCapture) = 1"
proof -
  have "splitAnnexB [0, 0, 1, 0x67, 1, 0, 0, 1, 0x68, 2, 0, 0, 1, 0x65, 3] =
      [[0x67, 1], [0x68, 2], [0x65, 3]]"
    by (simp add: splitAnnexB_def split_loop.simps indexStartCode.simps)
  from keyframe_is_published [OF _ this refl _ refl, of newFrameCapture 40] show ?thesis
    by (simp add: newFrameCapture_def nalu_type_def nalu_type_defs idr_nalus_def)
qed

end
