(* ===== verification/Hid_Control.thy ===== *)
theory Hid_Control
  imports Hidproto
begin

text \<open>
  The sequential part of the HID control plane, \<open>hid.go\<close>: the state machine of one
  \<open>hidrpc\<close> channel, lease generations, the conservative record of held input, the checks at
  the final validation point, the neutralization plan, and the requests the send methods
  build. Every function here is one critical section of \<open>stateMu\<close>, or pure code; how the
  goroutines interleave them is \<open>Hid_System\<close>.

  A generation's \<open>activeDone\<close> channel is a channel number; it is closed as soon as it is no
  longer the current one. Causes of a close are opaque numbers.
\<close>

section \<open>States and errors\<close>

datatype hidState = Negotiating | Handshaking | Ready | HidClosed

primrec state_rank :: "hidState \<Rightarrow> nat" where
  "state_rank Negotiating = 0"
| "state_rank Handshaking = 1"
| "state_rank Ready = 2"
| "state_rank HidClosed = 3"

text \<open>The order of the \<open>iota\<close> constants.\<close>

instantiation hidState :: linorder
begin

definition less_eq_hidState :: "hidState \<Rightarrow> hidState \<Rightarrow> bool" where
  "less_eq_hidState a b \<longleftrightarrow> state_rank a \<le> state_rank b"

definition less_hidState :: "hidState \<Rightarrow> hidState \<Rightarrow> bool" where
  "less_hidState a b \<longleftrightarrow> state_rank a < state_rank b"

lemma state_rank_inj: "state_rank a = state_rank b \<Longrightarrow> a = b"
  by (cases a; cases b) simp_all

instance
  by standard (auto simp: less_eq_hidState_def less_hidState_def intro: state_rank_inj)

end

definition hidState_String :: "hidState \<Rightarrow> string" where
  "hidState_String s = (case s of
      Negotiating \<Rightarrow> ''negotiating''
    | Handshaking \<Rightarrow> ''handshaking''
    | Ready \<Rightarrow> ''ready''
    | HidClosed \<Rightarrow> ''closed'')"

type_synonym close_cause = nat

datatype hid_error =
    ErrHIDNotReady
  | ErrHIDClosed "close_cause option"
  | ErrStaleControlToken
  | ErrHIDBufferFull nat nat nat
  | ErrNeutralizeUnverified
  | ErrNoCoordinates
  | ErrContext
  | ErrSend
  | ErrHandshakeInProgress
  | ErrControlLifecycleBusy
  | ErrEncode proto_error

definition hidSendQueueDepth :: nat where "hidSendQueueDepth = 16"
definition hidPriorityQueueDepth :: nat where "hidPriorityQueueDepth = 4"
definition hidMaxBufferedAmount :: nat where "hidMaxBufferedAmount = 4 * 1024"
definition hidNeutralBufferReserve :: nat where "hidNeutralBufferReserve = 22"
definition hidBufferedAmountLowThreshold :: nat where "hidBufferedAmountLowThreshold = 0"
definition hidReleaseAttempts :: nat where "hidReleaseAttempts = 2"

lemmas hid_limits = hidSendQueueDepth_def hidPriorityQueueDepth_def hidMaxBufferedAmount_def
  hidNeutralBufferReserve_def hidBufferedAmountLowThreshold_def hidReleaseAttempts_def

section \<open>Held input\<close>

record heldInput =
  hi_keyboard :: bool
  hi_absoluteButtons :: bool
  hi_relativeButtons :: bool
  hi_absolutePositionKnown :: bool
  hi_absoluteX :: u32
  hi_absoluteY :: u32

definition no_held :: heldInput where
  "no_held = \<lparr>hi_keyboard = False, hi_absoluteButtons = False, hi_relativeButtons = False,
     hi_absolutePositionKnown = False, hi_absoluteX = 0, hi_absoluteY = 0\<rparr>"

definition held_any :: "heldInput \<Rightarrow> bool" where
  "held_any h \<longleftrightarrow> hi_keyboard h \<or> hi_absoluteButtons h \<or> hi_relativeButtons h"

definition held_add :: "heldInput \<Rightarrow> heldInput \<Rightarrow> heldInput" where
  "held_add h nxt =
    (let h = h\<lparr>hi_keyboard := (hi_keyboard h \<or> hi_keyboard nxt),
               hi_absoluteButtons := (hi_absoluteButtons h \<or> hi_absoluteButtons nxt),
               hi_relativeButtons := (hi_relativeButtons h \<or> hi_relativeButtons nxt)\<rparr> in
     if hi_absolutePositionKnown nxt then
       h\<lparr>hi_absolutePositionKnown := True, hi_absoluteX := hi_absoluteX nxt,
         hi_absoluteY := hi_absoluteY nxt\<rparr>
     else h)"

section \<open>The client's locked state\<close>

record hid_core =
  hc_state :: hidState
  hc_closeCause :: "close_cause option"
  hc_activeGen :: u64
  hc_activeDone :: "nat option"
  hc_nextDone :: nat
  hc_genCounter :: u64
  hc_held :: heldInput

definition newHIDClient_core :: hid_core where
  "newHIDClient_core = \<lparr>hc_state = Negotiating, hc_closeCause = None, hc_activeGen = 0,
     hc_activeDone = None, hc_nextDone = 0, hc_genCounter = 0, hc_held = no_held\<rparr>"

record hidRequest =
  rq_id :: nat
  rq_frame :: "byte list"
  rq_ctx :: nat
  rq_token :: u64
  rq_privileged :: bool
  rq_held :: "heldInput option"
  rq_drain :: bool

definition closedErrLocked :: "hid_core \<Rightarrow> hid_error" where
  "closedErrLocked h = ErrHIDClosed (hc_closeCause h)"

definition checkWritableLocked :: "hidRequest \<Rightarrow> hid_core \<Rightarrow> hid_error + unit" where
  "checkWritableLocked req h = (case hc_state h of
      HidClosed \<Rightarrow> Inl (closedErrLocked h)
    | Negotiating \<Rightarrow> Inl ErrHIDNotReady
    | Handshaking \<Rightarrow> (if \<not> rq_privileged req then Inl ErrHIDNotReady else Inr ())
    | Ready \<Rightarrow>
        (if rq_privileged req then Inr ()
         else if rq_token req = 0 \<or> rq_token req \<noteq> hc_activeGen h then Inl ErrStaleControlToken
         else Inr ()))"

definition checkBufferedAmount :: "hidRequest \<Rightarrow> nat \<Rightarrow> hid_error + unit" where
  "checkBufferedAmount req amount =
    (let limit = (if rq_privileged req then hidMaxBufferedAmount
                  else hidMaxBufferedAmount - hidNeutralBufferReserve);
         frameBytes = length (rq_frame req) in
     if frameBytes > limit \<or> amount > limit - frameBytes
     then Inl (ErrHIDBufferFull amount frameBytes limit) else Inr ())"

text \<open>
  The second locked section of \<open>write\<close>: it revalidates, checks the context for the last
  time, records what the frame may leave held, and captures the drain channel.
\<close>

definition commit_write :: "hidRequest \<Rightarrow> bool \<Rightarrow> hid_core \<Rightarrow> (hid_error + nat option) \<times> hid_core" where
  "commit_write req ctx_done h =
    (case checkWritableLocked req h of
       Inl e \<Rightarrow> (Inl e, h)
     | Inr _ \<Rightarrow>
         (if ctx_done then (Inl ErrContext, h)
          else let h' = (case rq_held req of None \<Rightarrow> h
                         | Some n \<Rightarrow> h\<lparr>hc_held := held_add (hc_held h) n\<rparr>) in
            if rq_drain req then
              (case hc_activeDone h of
                 None \<Rightarrow> (Inl ErrStaleControlToken, h')
               | Some c \<Rightarrow> (Inr (Some c), h'))
            else (Inr None, h')))"

definition invalidateLeaseLocked :: "hid_core \<Rightarrow> hid_core" where
  "invalidateLeaseLocked h =
    h\<lparr>hc_activeDone := None, hc_activeGen := 0, hc_genCounter := hc_genCounter h + 1\<rparr>"

definition beginLeaseLocked :: "bool \<Rightarrow> hid_core \<Rightarrow> hid_error + u64 \<times> hid_core" where
  "beginLeaseLocked ctx_done h =
    (if ctx_done then Inl ErrContext
     else case hc_state h of
        HidClosed \<Rightarrow> Inl (closedErrLocked h)
      | Ready \<Rightarrow>
          (if held_any (hc_held h) then Inl ErrNeutralizeUnverified
           else let g = hc_genCounter h + 1 in
             Inr (g, h\<lparr>hc_genCounter := g, hc_activeGen := g,
                       hc_activeDone := Some (hc_nextDone h),
                       hc_nextDone := hc_nextDone h + 1\<rparr>))
      | _ \<Rightarrow> Inl ErrHIDNotReady)"

definition closeWith :: "close_cause \<Rightarrow> hid_core \<Rightarrow> hid_core" where
  "closeWith cause h =
    (if hc_state h \<noteq> HidClosed
     then invalidateLeaseLocked (h\<lparr>hc_state := HidClosed, hc_closeCause := Some cause\<rparr>)
     else h)"

definition hasHeldState :: "hid_core \<Rightarrow> bool" where
  "hasHeldState h = held_any (hc_held h)"

definition handshake_start :: "hid_core \<Rightarrow> hid_error + bool \<times> hid_core" where
  "handshake_start h = (case hc_state h of
      Ready \<Rightarrow> Inr (False, h)
    | HidClosed \<Rightarrow> Inl (closedErrLocked h)
    | Handshaking \<Rightarrow> Inl ErrHandshakeInProgress
    | Negotiating \<Rightarrow> Inr (True, h\<lparr>hc_state := Handshaking\<rparr>))"

definition is_handshake_echo :: "byte list \<Rightarrow> bool" where
  "is_handshake_echo data = (case Unmarshal data of
      Inl _ \<Rightarrow> False
    | Inr m \<Rightarrow> msg_type m = TypeHandshake \<and> length (msg_payload m) = 1 \<and>
        msg_payload m ! 0 = ProtocolVersion)"

section \<open>Neutralization\<close>

record neutralizationPlan =
  np_frames :: "byte list list"
  np_keyboard :: bool
  np_relativeButtons :: bool
  np_absoluteButtons :: bool

definition buildNeutralizationPlan :: "heldInput \<Rightarrow> hid_error + neutralizationPlan" where
  "buildNeutralizationPlan held = (case ReleaseAllKeyboardReport of
      Inl e \<Rightarrow> Inl (ErrEncode e)
    | Inr kb \<Rightarrow> (case ReleaseAllMouseReport of
        Inl e \<Rightarrow> Inl (ErrEncode e)
      | Inr mouse \<Rightarrow>
          (let plan = \<lparr>np_frames = [kb, mouse], np_keyboard = True, np_relativeButtons = True,
                       np_absoluteButtons = False\<rparr> in
           if \<not> hi_absoluteButtons held then Inr plan
           else if \<not> hi_absolutePositionKnown held then Inl ErrNoCoordinates
           else case EncodePointerReport (hi_absoluteX held) (hi_absoluteY held) 0 of
              Inl e \<Rightarrow> Inl (ErrEncode e)
            | Inr pointer \<Rightarrow> Inr (plan\<lparr>np_frames := np_frames plan @ [pointer],
                                        np_absoluteButtons := True\<rparr>))))"

definition clear_held :: "neutralizationPlan \<Rightarrow> hid_core \<Rightarrow> hid_core" where
  "clear_held plan h =
    h\<lparr>hc_held := (hc_held h)
       \<lparr>hi_keyboard := (if np_keyboard plan then False else hi_keyboard (hc_held h)),
        hi_relativeButtons :=
          (if np_relativeButtons plan then False else hi_relativeButtons (hc_held h)),
        hi_absoluteButtons :=
          (if np_absoluteButtons plan then False else hi_absoluteButtons (hc_held h))\<rparr>\<rparr>"

section \<open>What the send methods hand to the queue\<close>

definition request :: "byte list \<Rightarrow> nat \<Rightarrow> nat \<Rightarrow> u64 \<Rightarrow> heldInput option \<Rightarrow> bool \<Rightarrow> hidRequest" where
  "request frm i ctx tok held drn = \<lparr>rq_id = i, rq_frame = frm, rq_ctx = ctx, rq_token = tok,
     rq_privileged = False, rq_held = held, rq_drain = drn\<rparr>"

definition privileged_request :: "byte list \<Rightarrow> nat \<Rightarrow> nat \<Rightarrow> hidRequest" where
  "privileged_request frm i ctx = \<lparr>rq_id = i, rq_frame = frm, rq_ctx = ctx, rq_token = 0,
     rq_privileged = True, rq_held = None, rq_drain = False\<rparr>"

fun any_key :: "byte list \<Rightarrow> bool" where
  "any_key [] = False"
| "any_key (k # ks) = (if k \<noteq> 0 then True else any_key ks)"

datatype hid_send =
    SendKeyboardReport byte "byte list"
  | ReleaseKeyboard
  | SendPointerReport u32 u32 byte
  | SendMouseReport byte byte byte

fun send_request :: "hid_send \<Rightarrow> nat \<Rightarrow> nat \<Rightarrow> u64 \<Rightarrow> proto_error + hidRequest" where
  "send_request (SendKeyboardReport modifier keys) i ctx tok =
    (case EncodeKeyboardReport modifier keys of
       Inl e \<Rightarrow> Inl e
     | Inr frm \<Rightarrow>
         (let held = no_held\<lparr>hi_keyboard := modifier \<noteq> 0\<rparr>;
              held = (if any_key keys then held\<lparr>hi_keyboard := True\<rparr> else held) in
          Inr (request frm i ctx tok (Some held) False)))"
| "send_request ReleaseKeyboard i ctx tok =
    (case ReleaseAllKeyboardReport of
       Inl e \<Rightarrow> Inl e
     | Inr frm \<Rightarrow> Inr (request frm i ctx tok None True))"
| "send_request (SendPointerReport x y buttons) i ctx tok =
    (case EncodePointerReport x y buttons of
       Inl e \<Rightarrow> Inl e
     | Inr frm \<Rightarrow> Inr (request frm i ctx tok
         (Some (no_held\<lparr>hi_absoluteButtons := buttons \<noteq> 0, hi_absolutePositionKnown := True,
                        hi_absoluteX := x, hi_absoluteY := y\<rparr>)) False))"
| "send_request (SendMouseReport dx dy buttons) i ctx tok =
    (case EncodeMouseReport dx dy buttons of
       Inl e \<Rightarrow> Inl e
     | Inr frm \<Rightarrow> Inr (request frm i ctx tok
         (Some (no_held\<lparr>hi_relativeButtons := buttons \<noteq> 0\<rparr>)) False))"

section \<open>What the device may hold\<close>

text \<open>
  The three interfaces of the device as far as holding is concerned, a specification by the
  message formats of \<open>hidproto.go\<close>: each well-formed report replaces the state of its own
  interface. For the two pointers it agrees with the fake device of the tests
  (\<open>Hid_Properties.dev_apply_device\<close>), which keeps no keyboard state.
\<close>

record dev_held =
  dh_keyboard :: bool
  dh_absolute :: bool
  dh_relative :: bool

definition dev_neutral :: dev_held where
  "dev_neutral = \<lparr>dh_keyboard = False, dh_absolute = False, dh_relative = False\<rparr>"

definition dev_apply :: "byte list \<Rightarrow> dev_held \<Rightarrow> dev_held" where
  "dev_apply frm d = (case Unmarshal frm of
      Inl _ \<Rightarrow> d
    | Inr m \<Rightarrow> (let p = msg_payload m in
        if msg_type m = TypeKeyboardReport then d\<lparr>dh_keyboard := any_key p\<rparr>
        else if msg_type m = TypePointerReport then
          (if length p = 9 then d\<lparr>dh_absolute := p ! 8 \<noteq> 0\<rparr> else d)
        else if msg_type m = TypeMouseReport then
          (if length p = 3 then d\<lparr>dh_relative := p ! 2 \<noteq> 0\<rparr> else d)
        else d))"

definition dev_le :: "dev_held \<Rightarrow> heldInput \<Rightarrow> bool" where
  "dev_le d h \<longleftrightarrow> (dh_keyboard d \<longrightarrow> hi_keyboard h) \<and> (dh_absolute d \<longrightarrow> hi_absoluteButtons h) \<and>
     (dh_relative d \<longrightarrow> hi_relativeButtons h)"

end
