(* ===== verification/Hid_System.thy ===== *)
theory Hid_System
  imports Hid_Control
begin

text \<open>
  The goroutines of \<open>hid.go\<close> as one transition system. A step is one atomic action of one
  goroutine: a critical section of \<open>stateMu\<close>, a channel operation, a transport call. The
  event names the action and resolves its nondeterminism (which \<open>select\<close> case, whether
  \<open>Send\<close> fails, how much the peer has acknowledged), so \<open>hid_step\<close> is a partial function
  and runs are computable. A step that the code cannot take at that point is \<open>None\<close>.

  The world holds the locked state, the two queues, the writer's position inside
  \<open>write\<close>, the bytes offered to the transport in order and how many frames the peer has
  acknowledged, the results delivered to callers, the position of the goroutine inside
  \<open>releaseAll\<close> or \<open>handshake\<close>, and the ended contexts.

  The transport is pion's data channel. What is assumed of it: it keeps order, its
  \<open>BufferedAmount\<close> is the byte count of the accepted frames the peer has not acknowledged,
  and a failed \<open>Send\<close> may or may not have accepted the frame.

  Fields starting with \<open>g_\<close> are observations for the theorems; no step reads them.
\<close>

section \<open>The world\<close>

datatype writer_pc =
    WTop
  | WSelect
  | WContext hidRequest
  | WWritable hidRequest
  | WBuffer hidRequest
  | WCommit hidRequest
  | WSend hidRequest "nat option"
  | WDrain hidRequest "nat option"
  | WDone

datatype release_outcome = Neutralized | Unverified

datatype release_pc =
    RelIdle
  | RelSend nat nat
  | RelWait nat nat nat
  | RelDrain nat
  | RelClear
  | RelRetry
  | RelClose release_outcome

datatype handshake_pc =
    HsIdle
  | HsEnqueue
  | HsWait nat
  | HsEcho
  | HsConfirm
  | HsFinished "hid_error + unit"

record world =
  w_core :: hid_core
  w_sendCh :: "hidRequest list"
  w_priorityCh :: "hidRequest list"
  w_writer :: writer_pc
  w_stop :: bool
  w_wire :: "hidRequest list"
  w_acked :: nat
  w_results :: "nat \<Rightarrow> (hid_error + unit) option"
  w_nextId :: nat
  w_deadCtx :: "nat \<Rightarrow> bool"
  w_handshakeDone :: bool
  w_rel :: release_pc
  w_relPlan :: neutralizationPlan
  w_relCtx :: nat
  w_relCause :: "close_cause option"
  w_hs :: handshake_pc
  w_hsCtx :: nat
  g_since :: nat
  g_bumps :: nat
  g_issued :: "u64 list"
  g_outcome :: "release_outcome option"

definition empty_plan :: neutralizationPlan where
  "empty_plan = \<lparr>np_frames = [], np_keyboard = False, np_relativeButtons = False,
     np_absoluteButtons = False\<rparr>"

definition newHIDClient :: world where
  "newHIDClient = \<lparr>w_core = newHIDClient_core, w_sendCh = [], w_priorityCh = [], w_writer = WTop,
     w_stop = False, w_wire = [], w_acked = 0, w_results = (\<lambda>_. None), w_nextId = 0,
     w_deadCtx = (\<lambda>_. False), w_handshakeDone = False, w_rel = RelIdle, w_relPlan = empty_plan,
     w_relCtx = 0, w_relCause = None, w_hs = HsIdle, w_hsCtx = 0, g_since = 0, g_bumps = 0,
     g_issued = [], g_outcome = None\<rparr>"

definition buffered :: "world \<Rightarrow> nat" where
  "buffered w = sum_list (map (\<lambda>r. length (rq_frame r)) (drop (w_acked w) (w_wire w)))"

definition lifecycle_free :: "world \<Rightarrow> bool" where
  "lifecycle_free w \<longleftrightarrow> w_rel w = RelIdle"

text \<open>\<open>complete\<close>: the result channel is buffered and takes the first result only.\<close>

definition complete_request :: "hidRequest \<Rightarrow> (hid_error + unit) \<Rightarrow> world \<Rightarrow> world" where
  "complete_request req r w =
    (case w_results w (rq_id req) of
       Some _ \<Rightarrow> w
     | None \<Rightarrow> w\<lparr>w_results := (w_results w)(rq_id req := Some r)\<rparr>)"

definition closedErr :: "world \<Rightarrow> hid_error" where
  "closedErr w = closedErrLocked (w_core w)"

text \<open>Observations: a revocation of the active generation.\<close>

definition observe_revoked :: "world \<Rightarrow> world" where
  "observe_revoked w = w\<lparr>g_since := 0, g_bumps := g_bumps w + 1\<rparr>"

section \<open>The writer\<close>

text \<open>\<open>writeLoop\<close>: the non-blocking look at the priority queue, then the blocking select.\<close>

definition pick_priority_first :: "world \<Rightarrow> world option" where
  "pick_priority_first w = (case (w_writer w, w_priorityCh w) of
      (WTop, req # rest) \<Rightarrow> Some (w\<lparr>w_priorityCh := rest, w_writer := WContext req\<rparr>)
    | (WTop, []) \<Rightarrow> Some (w\<lparr>w_writer := WSelect\<rparr>)
    | _ \<Rightarrow> None)"

definition select_priority :: "world \<Rightarrow> world option" where
  "select_priority w = (case (w_writer w, w_priorityCh w) of
      (WSelect, req # rest) \<Rightarrow> Some (w\<lparr>w_priorityCh := rest, w_writer := WContext req\<rparr>)
    | _ \<Rightarrow> None)"

definition select_send :: "world \<Rightarrow> world option" where
  "select_send w = (case (w_writer w, w_sendCh w) of
      (WSelect, req # rest) \<Rightarrow> Some (w\<lparr>w_sendCh := rest, w_writer := WContext req\<rparr>)
    | _ \<Rightarrow> None)"

text \<open>\<open>drain\<close>, after \<open>stop\<close>: every queued request fails with the close error.\<close>

definition select_stop :: "world \<Rightarrow> world option" where
  "select_stop w =
    (if w_writer w = WSelect \<and> w_stop w then
       Some ((fold (\<lambda>req. complete_request req (Inl (closedErr w)))
                (w_priorityCh w @ w_sendCh w) w)
             \<lparr>w_priorityCh := [], w_sendCh := [], w_writer := WDone\<rparr>)
     else None)"

text \<open>The positions inside \<open>write\<close>, up to the transport call.\<close>

definition finish_write :: "hidRequest \<Rightarrow> (hid_error + unit) \<Rightarrow> world \<Rightarrow> world" where
  "finish_write req r w = (complete_request req r w)\<lparr>w_writer := WTop\<rparr>"

definition write_context :: "world \<Rightarrow> world option" where
  "write_context w = (case w_writer w of
      WContext req \<Rightarrow>
        Some (if w_deadCtx w (rq_ctx req) then finish_write req (Inl ErrContext) w
              else w\<lparr>w_writer := WWritable req\<rparr>)
    | _ \<Rightarrow> None)"

definition write_writable :: "world \<Rightarrow> world option" where
  "write_writable w = (case w_writer w of
      WWritable req \<Rightarrow>
        Some (case checkWritableLocked req (w_core w) of
            Inl e \<Rightarrow> finish_write req (Inl e) w
          | Inr _ \<Rightarrow> w\<lparr>w_writer := WBuffer req\<rparr>)
    | _ \<Rightarrow> None)"

definition write_buffer :: "world \<Rightarrow> world option" where
  "write_buffer w = (case w_writer w of
      WBuffer req \<Rightarrow>
        Some (case checkBufferedAmount req (buffered w) of
            Inl e \<Rightarrow> finish_write req (Inl e) w
          | Inr _ \<Rightarrow> w\<lparr>w_writer := WCommit req\<rparr>)
    | _ \<Rightarrow> None)"

definition write_commit :: "world \<Rightarrow> world option" where
  "write_commit w = (case w_writer w of
      WCommit req \<Rightarrow>
        Some (case commit_write req (w_deadCtx w (rq_ctx req)) (w_core w) of
            (Inl e, h) \<Rightarrow> finish_write req (Inl e) (w\<lparr>w_core := h\<rparr>)
          | (Inr done, h) \<Rightarrow> w\<lparr>w_core := h, w_writer := WSend req done\<rparr>)
    | _ \<Rightarrow> None)"

text \<open>
  \<open>channel.Send\<close>: \<open>ok\<close> is a nil error; on an error \<open>accepted\<close> says whether the bytes went out
  all the same.
\<close>

definition write_send :: "bool \<Rightarrow> bool \<Rightarrow> world \<Rightarrow> world option" where
  "write_send ok accepted w = (case w_writer w of
      WSend req done \<Rightarrow>
        (let w = (if ok \<or> accepted
                  then w\<lparr>w_wire := w_wire w @ [req], g_since := g_since w + 1\<rparr> else w) in
         Some (if \<not> ok then finish_write req (Inl ErrSend) w
               else if rq_drain req then w\<lparr>w_writer := WDrain req done\<rparr>
               else finish_write req (Inr ()) w))
    | _ \<Rightarrow> None)"

text \<open>\<open>waitBufferedAmountLowUntilInvalidated\<close> in the writer: the three ways it can return.\<close>

definition drain_empty :: "world \<Rightarrow> world option" where
  "drain_empty w = (case w_writer w of
      WDrain req done \<Rightarrow>
        (if buffered w \<le> hidBufferedAmountLowThreshold
         then Some (finish_write req (Inr ()) w) else None)
    | _ \<Rightarrow> None)"

definition drain_invalidated :: "world \<Rightarrow> world option" where
  "drain_invalidated w = (case w_writer w of
      WDrain req (Some c) \<Rightarrow>
        (if hc_activeDone (w_core w) \<noteq> Some c
         then Some (finish_write req
           (if buffered w \<le> hidBufferedAmountLowThreshold then Inr ()
            else Inl ErrStaleControlToken) w) else None)
    | _ \<Rightarrow> None)"

definition drain_context :: "world \<Rightarrow> world option" where
  "drain_context w = (case w_writer w of
      WDrain req done \<Rightarrow>
        (if w_deadCtx w (rq_ctx req) then Some (finish_write req (Inl ErrContext) w) else None)
    | _ \<Rightarrow> None)"

section \<open>Callers and the environment\<close>

text \<open>\<open>enqueue\<close> of ordinary input, as the four send methods call it.\<close>

definition submit :: "hid_send \<Rightarrow> nat \<Rightarrow> u64 \<Rightarrow> world \<Rightarrow> world option" where
  "submit s ctx tok w =
    (if length (w_sendCh w) < hidSendQueueDepth then
       (case send_request s (w_nextId w) ctx tok of
          Inl _ \<Rightarrow> None
        | Inr req \<Rightarrow> Some (w\<lparr>w_sendCh := w_sendCh w @ [req], w_nextId := w_nextId w + 1\<rparr>))
     else None)"

text \<open>\<open>hidRequestResult\<close>: an ended context wins over the result.\<close>

definition hidRequestResult :: "bool \<Rightarrow> (hid_error + unit) \<Rightarrow> hid_error + unit" where
  "hidRequestResult ctx_done r = (if ctx_done then Inl ErrContext else r)"

definition cancel_ctx :: "nat \<Rightarrow> world \<Rightarrow> world option" where
  "cancel_ctx c w = Some (w\<lparr>w_deadCtx := (w_deadCtx w)(c := True)\<rparr>)"

definition acknowledge :: "world \<Rightarrow> world option" where
  "acknowledge w = (if w_acked w < length (w_wire w) then Some (w\<lparr>w_acked := w_acked w + 1\<rparr>) else None)"

definition handleMessage :: "byte list \<Rightarrow> world \<Rightarrow> world option" where
  "handleMessage data w =
    Some (if is_handshake_echo data then w\<lparr>w_handshakeDone := True\<rparr> else w)"

definition close_world :: "close_cause \<Rightarrow> world \<Rightarrow> world" where
  "close_world cause w =
    (let w' = w\<lparr>w_core := closeWith cause (w_core w), w_stop := True\<rparr> in
     if hc_state (w_core w) \<noteq> HidClosed then observe_revoked w' else w')"

section \<open>Handshake\<close>

definition hs_begin :: "nat \<Rightarrow> world \<Rightarrow> world option" where
  "hs_begin ctx w =
    (if w_hs w = HsIdle then
       Some (case handshake_start (w_core w) of
           Inl e \<Rightarrow> w\<lparr>w_hs := HsFinished (Inl e)\<rparr>
         | Inr (False, _) \<Rightarrow> w\<lparr>w_hs := HsFinished (Inr ())\<rparr>
         | Inr (True, h) \<Rightarrow> w\<lparr>w_core := h, w_hs := HsEnqueue, w_hsCtx := ctx\<rparr>)
     else None)"

definition hs_abort :: "hid_error \<Rightarrow> close_cause \<Rightarrow> world \<Rightarrow> world" where
  "hs_abort e cause w = (close_world cause w)\<lparr>w_hs := HsFinished (Inl e)\<rparr>"

definition hs_enqueue :: "world \<Rightarrow> world option" where
  "hs_enqueue w =
    (if w_hs w = HsEnqueue \<and> length (w_priorityCh w) < hidPriorityQueueDepth then
       (case EncodeHandshake of
          Inl e \<Rightarrow> Some (hs_abort (ErrEncode e) 0 w)
        | Inr frm \<Rightarrow>
            Some (w\<lparr>w_priorityCh := w_priorityCh w @ [privileged_request frm (w_nextId w) (w_hsCtx w)],
                    w_nextId := w_nextId w + 1, w_hs := HsWait (w_nextId w)\<rparr>))
     else None)"

text \<open>The ways \<open>enqueue\<close> returns: a result, the end of the writer, the end of the context.\<close>

definition hs_sent :: "close_cause \<Rightarrow> world \<Rightarrow> world option" where
  "hs_sent cause w = (case w_hs w of
      HsWait i \<Rightarrow> (case w_results w i of
          None \<Rightarrow> None
        | Some r \<Rightarrow> Some (case hidRequestResult (w_deadCtx w (w_hsCtx w)) r of
              Inl e \<Rightarrow> hs_abort e cause w
            | Inr _ \<Rightarrow> w\<lparr>w_hs := HsEcho\<rparr>))
    | _ \<Rightarrow> None)"

text \<open>\<open>waitForReadiness\<close> (\<open>session.go\<close>): what follows once its first select took a case.\<close>

datatype readiness = ReadinessOk | ReadinessClosed | ReadinessContext

definition readiness_ready :: "bool \<Rightarrow> bool \<Rightarrow> readiness" where
  "readiness_ready ctx_done closed =
    (if ctx_done then ReadinessContext else if closed then ReadinessClosed else ReadinessOk)"

definition readiness_closed :: "bool \<Rightarrow> readiness" where
  "readiness_closed ctx_done = (if ctx_done then ReadinessContext else ReadinessClosed)"

definition hs_readiness :: "readiness \<Rightarrow> close_cause \<Rightarrow> world \<Rightarrow> world" where
  "hs_readiness r cause w = (case r of
      ReadinessOk \<Rightarrow> w\<lparr>w_hs := HsConfirm\<rparr>
    | ReadinessClosed \<Rightarrow> w\<lparr>w_hs := HsFinished (Inl (closedErr w))\<rparr>
    | ReadinessContext \<Rightarrow> hs_abort ErrContext cause w)"

definition hs_echoed :: "close_cause \<Rightarrow> world \<Rightarrow> world option" where
  "hs_echoed cause w =
    (if w_hs w = HsEcho \<and> w_handshakeDone w
     then Some (hs_readiness (readiness_ready (w_deadCtx w (w_hsCtx w)) (w_writer w = WDone)) cause w)
     else None)"

definition hs_writer_gone :: "close_cause \<Rightarrow> world \<Rightarrow> world option" where
  "hs_writer_gone cause w =
    (if w_writer w \<noteq> WDone then None
     else case w_hs w of
        HsEnqueue \<Rightarrow> Some (hs_abort (closedErr w) cause w)
      | HsWait i \<Rightarrow> (if w_results w i = None then Some (hs_abort (closedErr w) cause w) else None)
      | HsEcho \<Rightarrow> Some (hs_readiness (readiness_closed (w_deadCtx w (w_hsCtx w))) cause w)
      | _ \<Rightarrow> None)"

definition hs_ctx_done :: "close_cause \<Rightarrow> world \<Rightarrow> world option" where
  "hs_ctx_done cause w =
    (if \<not> w_deadCtx w (w_hsCtx w) then None
     else case w_hs w of
        HsEnqueue \<Rightarrow> Some (hs_abort ErrContext cause w)
      | HsWait _ \<Rightarrow> Some (hs_abort ErrContext cause w)
      | HsEcho \<Rightarrow> Some (hs_abort ErrContext cause w)
      | _ \<Rightarrow> None)"

definition hs_confirm :: "close_cause \<Rightarrow> world \<Rightarrow> world option" where
  "hs_confirm cause w =
    (if w_hs w \<noteq> HsConfirm then None
     else if hc_state (w_core w) = HidClosed then Some (w\<lparr>w_hs := HsFinished (Inl (closedErr w))\<rparr>)
     else if w_deadCtx w (w_hsCtx w) then Some (hs_abort ErrContext cause w)
     else Some (w\<lparr>w_core := (w_core w)\<lparr>hc_state := Ready\<rparr>, w_hs := HsFinished (Inr ())\<rparr>))"

section \<open>Leases and release\<close>

definition begin_lease :: "nat \<Rightarrow> world \<Rightarrow> world option" where
  "begin_lease ctx w =
    (if \<not> lifecycle_free w then None
     else case beginLeaseLocked (w_deadCtx w ctx) (w_core w) of
        Inl _ \<Rightarrow> Some w
      | Inr (g, h) \<Rightarrow> Some ((observe_revoked w)\<lparr>w_core := h, g_issued := g_issued w @ [g]\<rparr>))"

text \<open>
  \<open>releaseAllLocked\<close> and its two callers. The result is kept in \<open>g_outcome\<close>; with a cause,
  the caller is \<open>releaseAllAndClose\<close>, which closes the client before it unlocks.
\<close>

definition finish_release :: "release_outcome \<Rightarrow> world \<Rightarrow> world" where
  "finish_release out w =
    (case w_relCause w of
       None \<Rightarrow> w\<lparr>w_rel := RelIdle, g_outcome := Some out\<rparr>
     | Some _ \<Rightarrow> w\<lparr>w_rel := RelClose out\<rparr>)"

text \<open>
  \<open>lockLifecycle\<close> and the first locked section of \<open>releaseAllLocked\<close>. The lifecycle checks the
  context, but the context may end between that check and the locked section, so the step asks
  nothing of it; when the context ends first, \<open>releaseAll\<close> returns without a step of this kind.
\<close>

definition rel_start :: "nat \<Rightarrow> close_cause option \<Rightarrow> world \<Rightarrow> world option" where
  "rel_start ctx cause w =
    (if \<not> lifecycle_free w then None
     else let h = w_core w;
              w' = (observe_revoked w)\<lparr>w_core := invalidateLeaseLocked h, w_relCtx := ctx,
                                       w_relCause := cause, w_rel := RelRetry\<rparr> in
       Some (if hc_state h \<noteq> Ready then
               (if \<not> held_any (hc_held h) then finish_release Neutralized w'
                else finish_release Unverified w')
             else case buildNeutralizationPlan (hc_held h) of
                Inl _ \<Rightarrow> finish_release Unverified w'
              | Inr plan \<Rightarrow> w'\<lparr>w_rel := RelSend 0 0, w_relPlan := plan\<rparr>))"

text \<open>\<open>releaseAllAndClose\<close> when its context ends before it gets the lifecycle.\<close>

definition rel_lock_failed :: "nat \<Rightarrow> close_cause \<Rightarrow> world \<Rightarrow> world option" where
  "rel_lock_failed ctx cause w = (if w_deadCtx w ctx then Some (close_world cause w) else None)"

definition rel_fail :: "nat \<Rightarrow> world \<Rightarrow> world" where
  "rel_fail attempt w =
    (if w_deadCtx w (w_relCtx w) \<or> attempt + 1 \<ge> hidReleaseAttempts
     then finish_release Unverified w else w\<lparr>w_rel := RelRetry\<rparr>)"

definition rel_enqueue :: "world \<Rightarrow> world option" where
  "rel_enqueue w = (case w_rel w of
      RelSend a k \<Rightarrow>
        (if length (w_priorityCh w) < hidPriorityQueueDepth then
           Some (w\<lparr>w_priorityCh := w_priorityCh w @
                     [privileged_request (np_frames (w_relPlan w) ! k) (w_nextId w) (w_relCtx w)],
                   w_nextId := w_nextId w + 1, w_rel := RelWait a k (w_nextId w)\<rparr>)
         else None)
    | _ \<Rightarrow> None)"

definition rel_result :: "world \<Rightarrow> world option" where
  "rel_result w = (case w_rel w of
      RelWait a k i \<Rightarrow> (case w_results w i of
          None \<Rightarrow> None
        | Some r \<Rightarrow> Some (case hidRequestResult (w_deadCtx w (w_relCtx w)) r of
              Inl _ \<Rightarrow> rel_fail a w
            | Inr _ \<Rightarrow> w\<lparr>w_rel := (if k + 1 < length (np_frames (w_relPlan w))
                                  then RelSend a (k + 1) else RelDrain a)\<rparr>))
    | _ \<Rightarrow> None)"

definition rel_drained :: "world \<Rightarrow> world option" where
  "rel_drained w = (case w_rel w of
      RelDrain a \<Rightarrow>
        (if buffered w \<le> hidBufferedAmountLowThreshold then Some (w\<lparr>w_rel := RelClear\<rparr>) else None)
    | _ \<Rightarrow> None)"

definition rel_writer_gone :: "world \<Rightarrow> world option" where
  "rel_writer_gone w =
    (if w_writer w \<noteq> WDone then None
     else case w_rel w of
        RelSend a k \<Rightarrow> Some (rel_fail a w)
      | RelWait a k i \<Rightarrow> (if w_results w i = None then Some (rel_fail a w) else None)
      | RelDrain a \<Rightarrow> Some (if buffered w \<le> hidBufferedAmountLowThreshold then w\<lparr>w_rel := RelClear\<rparr>
                          else rel_fail a w)
      | _ \<Rightarrow> None)"

definition rel_ctx_done :: "world \<Rightarrow> world option" where
  "rel_ctx_done w =
    (if \<not> w_deadCtx w (w_relCtx w) then None
     else case w_rel w of
        RelSend a k \<Rightarrow> Some (rel_fail a w)
      | RelWait a k i \<Rightarrow> Some (rel_fail a w)
      | RelDrain a \<Rightarrow> Some (rel_fail a w)
      | RelRetry \<Rightarrow> Some (finish_release Unverified w)
      | _ \<Rightarrow> None)"

definition rel_retry :: "world \<Rightarrow> world option" where
  "rel_retry w = (if w_rel w = RelRetry then Some (w\<lparr>w_rel := RelSend 1 0\<rparr>) else None)"

definition rel_clear :: "world \<Rightarrow> world option" where
  "rel_clear w =
    (if w_rel w = RelClear
     then Some (finish_release Neutralized (w\<lparr>w_core := clear_held (w_relPlan w) (w_core w)\<rparr>))
     else None)"

definition rel_close :: "world \<Rightarrow> world option" where
  "rel_close w = (case (w_rel w, w_relCause w) of
      (RelClose out, Some c) \<Rightarrow>
        Some ((close_world c w)\<lparr>w_rel := RelIdle, w_relCause := None, g_outcome := Some out\<rparr>)
    | _ \<Rightarrow> None)"

section \<open>Steps and runs\<close>

datatype hid_event =
    PickPriority | SelectPriority | SelectSend | SelectStop
  | CheckContext | CheckWritable | CheckBuffer | Commit
  | TransportSend bool bool
  | DrainEmpty | DrainInvalidated | DrainContext
  | Submit hid_send nat u64
  | CancelCtx nat
  | Acknowledge
  | DeviceMessage "byte list"
  | CloseWith close_cause
  | HsBegin nat | HsEnqueueFrame | HsSent close_cause | HsEchoed close_cause | HsWriterGone close_cause
  | HsCtxDone close_cause | HsConfirmReady close_cause
  | BeginLease nat
  | RelStart nat "close_cause option" | RelLockFailed nat close_cause
  | RelEnqueue | RelResult | RelDrained | RelWriterGone | RelCtxDone | RelRetryStep | RelClearStep
  | RelCloseStep

fun hid_step :: "hid_event \<Rightarrow> world \<Rightarrow> world option" where
  "hid_step PickPriority w = pick_priority_first w"
| "hid_step SelectPriority w = select_priority w"
| "hid_step SelectSend w = select_send w"
| "hid_step SelectStop w = select_stop w"
| "hid_step CheckContext w = write_context w"
| "hid_step CheckWritable w = write_writable w"
| "hid_step CheckBuffer w = write_buffer w"
| "hid_step Commit w = write_commit w"
| "hid_step (TransportSend ok acc) w = write_send ok acc w"
| "hid_step DrainEmpty w = drain_empty w"
| "hid_step DrainInvalidated w = drain_invalidated w"
| "hid_step DrainContext w = drain_context w"
| "hid_step (Submit s ctx tok) w = submit s ctx tok w"
| "hid_step (CancelCtx c) w = cancel_ctx c w"
| "hid_step Acknowledge w = acknowledge w"
| "hid_step (DeviceMessage data) w = handleMessage data w"
| "hid_step (CloseWith c) w = Some (close_world c w)"
| "hid_step (HsBegin ctx) w = hs_begin ctx w"
| "hid_step HsEnqueueFrame w = hs_enqueue w"
| "hid_step (HsSent c) w = hs_sent c w"
| "hid_step (HsEchoed c) w = hs_echoed c w"
| "hid_step (HsWriterGone c) w = hs_writer_gone c w"
| "hid_step (HsCtxDone c) w = hs_ctx_done c w"
| "hid_step (HsConfirmReady c) w = hs_confirm c w"
| "hid_step (BeginLease ctx) w = begin_lease ctx w"
| "hid_step (RelStart ctx cause) w = rel_start ctx cause w"
| "hid_step (RelLockFailed ctx cause) w = rel_lock_failed ctx cause w"
| "hid_step RelEnqueue w = rel_enqueue w"
| "hid_step RelResult w = rel_result w"
| "hid_step RelDrained w = rel_drained w"
| "hid_step RelWriterGone w = rel_writer_gone w"
| "hid_step RelCtxDone w = rel_ctx_done w"
| "hid_step RelRetryStep w = rel_retry w"
| "hid_step RelClearStep w = rel_clear w"
| "hid_step RelCloseStep w = rel_close w"

fun hid_run :: "hid_event list \<Rightarrow> world \<Rightarrow> world option" where
  "hid_run [] w = Some w"
| "hid_run (e # es) w = (case hid_step e w of None \<Rightarrow> None | Some w' \<Rightarrow> hid_run es w')"

text \<open>The worlds a client can be in.\<close>

inductive hid_reach :: "world \<Rightarrow> bool" where
  start: "hid_reach newHIDClient"
| step: "hid_reach w \<Longrightarrow> hid_step e w = Some w' \<Longrightarrow> hid_reach w'"

inductive_cases hid_reach_cases: "hid_reach w"

lemma hid_reach_run: "hid_reach w \<Longrightarrow> hid_run es w = Some w' \<Longrightarrow> hid_reach w'"
  by (induction es arbitrary: w) (auto split: option.splits intro: hid_reach.step)

lemmas writer_defs = pick_priority_first_def select_priority_def select_send_def select_stop_def
  write_context_def write_writable_def write_buffer_def write_commit_def write_send_def
  drain_empty_def drain_invalidated_def drain_context_def

lemmas hs_defs = hs_begin_def hs_enqueue_def hs_sent_def hs_echoed_def hs_writer_gone_def
  hs_ctx_done_def hs_confirm_def hs_readiness_def readiness_ready_def readiness_closed_def

lemmas rel_defs = rel_start_def rel_lock_failed_def rel_enqueue_def rel_result_def rel_drained_def
  rel_writer_gone_def rel_ctx_done_def rel_retry_def rel_clear_def rel_close_def

end
