(* ===== verification/Hid_Steps.thy ===== *)
theory Hid_Steps
  imports Hid_System
begin

text \<open>
  The steps of \<open>Hid_System\<close> as an inductive relation with one rule per branch of the code, and
  the proof that every step of the code is one of these rules. The invariants of
  \<open>Hid_Safety\<close> are proved over the rules.
\<close>

section \<open>The shape of every step\<close>

lemmas world_op_defs = finish_write_def complete_request_def close_world_def observe_revoked_def
  finish_release_def rel_fail_def hs_abort_def

text \<open>Steps that leave a part of the world alone.\<close>

lemma complete_request_fields [simp]:
  "w_core (complete_request r x w) = w_core w" "w_wire (complete_request r x w) = w_wire w"
  "w_acked (complete_request r x w) = w_acked w" "w_writer (complete_request r x w) = w_writer w"
  "w_sendCh (complete_request r x w) = w_sendCh w" "w_stop (complete_request r x w) = w_stop w"
  "w_priorityCh (complete_request r x w) = w_priorityCh w" "w_rel (complete_request r x w) = w_rel w"
  "w_nextId (complete_request r x w) = w_nextId w" "w_deadCtx (complete_request r x w) = w_deadCtx w"
  "w_handshakeDone (complete_request r x w) = w_handshakeDone w"
  "w_relPlan (complete_request r x w) = w_relPlan w" "w_relCtx (complete_request r x w) = w_relCtx w"
  "w_relCause (complete_request r x w) = w_relCause w" "w_hs (complete_request r x w) = w_hs w"
  "w_hsCtx (complete_request r x w) = w_hsCtx w" "g_since (complete_request r x w) = g_since w"
  "g_bumps (complete_request r x w) = g_bumps w" "g_issued (complete_request r x w) = g_issued w"
  "g_outcome (complete_request r x w) = g_outcome w"
  by (simp_all add: complete_request_def split: option.splits)

lemma fold_complete_fields [simp]:
  fixes f :: "world \<Rightarrow> hid_error + unit"
  shows "w_core (fold (\<lambda>r. complete_request r x) rs w) = w_core w"
  "w_wire (fold (\<lambda>r. complete_request r x) rs w) = w_wire w"
  "w_acked (fold (\<lambda>r. complete_request r x) rs w) = w_acked w"
  "w_writer (fold (\<lambda>r. complete_request r x) rs w) = w_writer w"
  "w_sendCh (fold (\<lambda>r. complete_request r x) rs w) = w_sendCh w"
  "w_stop (fold (\<lambda>r. complete_request r x) rs w) = w_stop w"
  "w_priorityCh (fold (\<lambda>r. complete_request r x) rs w) = w_priorityCh w"
  "w_rel (fold (\<lambda>r. complete_request r x) rs w) = w_rel w"
  "w_nextId (fold (\<lambda>r. complete_request r x) rs w) = w_nextId w"
  "w_deadCtx (fold (\<lambda>r. complete_request r x) rs w) = w_deadCtx w"
  "w_handshakeDone (fold (\<lambda>r. complete_request r x) rs w) = w_handshakeDone w"
  "w_relPlan (fold (\<lambda>r. complete_request r x) rs w) = w_relPlan w"
  "w_relCtx (fold (\<lambda>r. complete_request r x) rs w) = w_relCtx w"
  "w_relCause (fold (\<lambda>r. complete_request r x) rs w) = w_relCause w"
  "w_hs (fold (\<lambda>r. complete_request r x) rs w) = w_hs w"
  "w_hsCtx (fold (\<lambda>r. complete_request r x) rs w) = w_hsCtx w"
  "g_since (fold (\<lambda>r. complete_request r x) rs w) = g_since w"
  "g_bumps (fold (\<lambda>r. complete_request r x) rs w) = g_bumps w"
  "g_issued (fold (\<lambda>r. complete_request r x) rs w) = g_issued w"
  "g_outcome (fold (\<lambda>r. complete_request r x) rs w) = g_outcome w"
  by (induction rs arbitrary: w) simp_all

lemma finish_write_fields [simp]:
  "w_core (finish_write r x w) = w_core w" "w_wire (finish_write r x w) = w_wire w"
  "w_acked (finish_write r x w) = w_acked w" "w_writer (finish_write r x w) = WTop"
  "w_sendCh (finish_write r x w) = w_sendCh w" "w_stop (finish_write r x w) = w_stop w"
  "w_priorityCh (finish_write r x w) = w_priorityCh w" "w_rel (finish_write r x w) = w_rel w"
  "w_nextId (finish_write r x w) = w_nextId w" "w_deadCtx (finish_write r x w) = w_deadCtx w"
  "w_handshakeDone (finish_write r x w) = w_handshakeDone w"
  "w_relPlan (finish_write r x w) = w_relPlan w" "w_relCtx (finish_write r x w) = w_relCtx w"
  "w_relCause (finish_write r x w) = w_relCause w" "w_hs (finish_write r x w) = w_hs w"
  "w_hsCtx (finish_write r x w) = w_hsCtx w" "g_since (finish_write r x w) = g_since w"
  "g_bumps (finish_write r x w) = g_bumps w" "g_issued (finish_write r x w) = g_issued w"
  "g_outcome (finish_write r x w) = g_outcome w"
  by (simp_all add: finish_write_def)


definition accept_frame :: "hidRequest \<Rightarrow> world \<Rightarrow> world" where
  "accept_frame req w = w\<lparr>w_wire := w_wire w @ [req], g_since := g_since w + 1\<rparr>"

definition revoke :: "world \<Rightarrow> world" where
  "revoke w = (observe_revoked w)\<lparr>w_core := invalidateLeaseLocked (w_core w)\<rparr>"

text \<open>
  The steps once more, one rule per branch with its result spelled out: what the invariants
  are proved over. \<open>hid_step_hstep\<close> shows that every step of the code has such a shape.
\<close>

inductive hstep :: "world \<Rightarrow> world \<Rightarrow> bool" where
  stutter: "hstep w w"
| pick_priority: "w_writer w \<in> {WTop, WSelect} \<Longrightarrow> w_priorityCh w = req # rest \<Longrightarrow>
    hstep w (w\<lparr>w_priorityCh := rest, w_writer := WContext req\<rparr>)"
| to_select: "w_writer w = WTop \<Longrightarrow> hstep w (w\<lparr>w_writer := WSelect\<rparr>)"
| pick_send: "w_writer w = WSelect \<Longrightarrow> w_sendCh w = req # rest \<Longrightarrow>
    hstep w (w\<lparr>w_sendCh := rest, w_writer := WContext req\<rparr>)"
| stopped: "w_writer w = WSelect \<Longrightarrow> w_stop w \<Longrightarrow>
    hstep w ((fold (\<lambda>req. complete_request req (Inl e)) (w_priorityCh w @ w_sendCh w) w)
      \<lparr>w_priorityCh := [], w_sendCh := [], w_writer := WDone\<rparr>)"
| reject: "w_writer w \<in> {WContext req, WWritable req, WBuffer req, WCommit req} \<Longrightarrow>
    hstep w (finish_write req (Inl e) w)"
| context_ok: "w_writer w = WContext req \<Longrightarrow> hstep w (w\<lparr>w_writer := WWritable req\<rparr>)"
| writable_ok: "w_writer w = WWritable req \<Longrightarrow> checkWritableLocked req (w_core w) = Inr () \<Longrightarrow>
    hstep w (w\<lparr>w_writer := WBuffer req\<rparr>)"
| buffer_ok: "w_writer w = WBuffer req \<Longrightarrow> checkBufferedAmount req (buffered w) = Inr () \<Longrightarrow>
    hstep w (w\<lparr>w_writer := WCommit req\<rparr>)"
| commit: "w_writer w = WCommit req \<Longrightarrow>
    commit_write req (w_deadCtx w (rq_ctx req)) (w_core w) = (Inr d, h) \<Longrightarrow>
    hstep w (w\<lparr>w_core := h, w_writer := WSend req d\<rparr>)"
| commit_refused: "w_writer w = WCommit req \<Longrightarrow> rq_held req = Some n \<Longrightarrow> rq_drain req \<Longrightarrow>
    hstep w (finish_write req (Inl e)
      (w\<lparr>w_core := (w_core w)\<lparr>hc_held := held_add (hc_held (w_core w)) n\<rparr>\<rparr>))"
| send_lost: "w_writer w = WSend req d \<Longrightarrow> hstep w (finish_write req (Inl ErrSend) w)"
| send_error: "w_writer w = WSend req d \<Longrightarrow>
    hstep w (finish_write req (Inl ErrSend) (accept_frame req w))"
| send_ok: "w_writer w = WSend req d \<Longrightarrow> \<not> rq_drain req \<Longrightarrow>
    hstep w (finish_write req (Inr ()) (accept_frame req w))"
| send_drain: "w_writer w = WSend req d \<Longrightarrow> rq_drain req \<Longrightarrow>
    hstep w ((accept_frame req w)\<lparr>w_writer := WDrain req d\<rparr>)"
| drain_return: "w_writer w = WDrain req d \<Longrightarrow> (r = Inr () \<longrightarrow> buffered w = 0) \<Longrightarrow>
    hstep w (finish_write req r w)"
| submit: "length (w_sendCh w) < 16 \<Longrightarrow> send_request s (w_nextId w) ctx tok = Inr req \<Longrightarrow>
    hstep w (w\<lparr>w_sendCh := w_sendCh w @ [req], w_nextId := Suc (w_nextId w)\<rparr>)"
| cancel: "hstep w (w\<lparr>w_deadCtx := (w_deadCtx w)(c := True)\<rparr>)"
| ack: "w_acked w < length (w_wire w) \<Longrightarrow> hstep w (w\<lparr>w_acked := Suc (w_acked w)\<rparr>)"
| echo: "hstep w (w\<lparr>w_handshakeDone := True\<rparr>)"
| close: "hc_state (w_core w) \<noteq> HidClosed \<Longrightarrow>
    rp = w_rel w \<or> (rp = RelIdle \<and> (\<exists>out. w_rel w = RelClose out)) \<Longrightarrow>
    hs = w_hs w \<or> (\<exists>e. hs = HsFinished (Inl e)) \<Longrightarrow>
    hstep w (revoke (w\<lparr>w_core := (w_core w)\<lparr>hc_state := HidClosed, hc_closeCause := Some c\<rparr>,
      w_stop := True, w_hs := hs, w_rel := rp, w_relCause := rc, g_outcome := go\<rparr>))"
| close_again: "hc_state (w_core w) = HidClosed \<Longrightarrow>
    rp = w_rel w \<or> (rp = RelIdle \<and> (\<exists>out. w_rel w = RelClose out)) \<Longrightarrow>
    hs = w_hs w \<or> (\<exists>e. hs = HsFinished (Inl e)) \<Longrightarrow>
    hstep w (w\<lparr>w_stop := True, w_hs := hs, w_rel := rp, w_relCause := rc, g_outcome := go\<rparr>)"
| hs_start: "w_hs w = HsIdle \<Longrightarrow> hc_state (w_core w) = Negotiating \<Longrightarrow>
    hstep w (w\<lparr>w_core := (w_core w)\<lparr>hc_state := Handshaking\<rparr>, w_hs := HsEnqueue, w_hsCtx := ctx\<rparr>)"
| hs_end: "(r = Inr () \<longrightarrow> hc_state (w_core w) = Ready) \<Longrightarrow>
    hstep w (w\<lparr>w_hs := HsFinished r\<rparr>)"
| hs_frame: "w_hs w = HsEnqueue \<Longrightarrow> length (w_priorityCh w) < 4 \<Longrightarrow> EncodeHandshake = Inr frm \<Longrightarrow>
    hstep w (w\<lparr>w_priorityCh := w_priorityCh w @ [privileged_request frm (w_nextId w) (w_hsCtx w)],
      w_nextId := Suc (w_nextId w), w_hs := HsWait (w_nextId w)\<rparr>)"
| hs_frame_sent: "w_hs w = HsWait i \<Longrightarrow> hstep w (w\<lparr>w_hs := HsEcho\<rparr>)"
| hs_echo_seen: "w_hs w = HsEcho \<Longrightarrow> w_handshakeDone w \<Longrightarrow> hstep w (w\<lparr>w_hs := HsConfirm\<rparr>)"
| hs_ready: "w_hs w = HsConfirm \<Longrightarrow> hc_state (w_core w) \<noteq> HidClosed \<Longrightarrow>
    hstep w (w\<lparr>w_core := (w_core w)\<lparr>hc_state := Ready\<rparr>, w_hs := HsFinished (Inr ())\<rparr>)"
| lease: "w_rel w = RelIdle \<Longrightarrow> beginLeaseLocked c (w_core w) = Inr (g, h) \<Longrightarrow>
    hstep w ((observe_revoked w)\<lparr>w_core := h, g_issued := g_issued w @ [g]\<rparr>)"
| rel_begin_end: "w_rel w = RelIdle \<Longrightarrow> (out = Neutralized \<longrightarrow> \<not> held_any (hc_held (w_core w))) \<Longrightarrow>
    rp \<in> {RelIdle, RelClose out} \<Longrightarrow>
    hstep w ((revoke w)\<lparr>w_relCtx := ctx, w_relCause := rc, w_rel := rp, g_outcome := go\<rparr>)"
| rel_begin: "w_rel w = RelIdle \<Longrightarrow> hc_state (w_core w) = Ready \<Longrightarrow>
    buildNeutralizationPlan (hc_held (w_core w)) = Inr plan \<Longrightarrow>
    hstep w ((revoke w)\<lparr>w_relCtx := ctx, w_relCause := rc, w_rel := RelSend 0 0, w_relPlan := plan\<rparr>)"
| rel_frame: "w_rel w = RelSend a k \<Longrightarrow> length (w_priorityCh w) < 4 \<Longrightarrow>
    hstep w (w\<lparr>w_priorityCh := w_priorityCh w @
        [privileged_request (np_frames (w_relPlan w) ! k) (w_nextId w) (w_relCtx w)],
      w_nextId := Suc (w_nextId w), w_rel := RelWait a k (w_nextId w)\<rparr>)"
| rel_frame_sent: "w_rel w = RelWait a k i \<Longrightarrow> w_results w i = Some (Inr ()) \<Longrightarrow>
    Suc k < length (np_frames (w_relPlan w)) \<Longrightarrow> hstep w (w\<lparr>w_rel := RelSend a (Suc k)\<rparr>)"
| rel_all_sent: "w_rel w = RelWait a k i \<Longrightarrow> w_results w i = Some (Inr ()) \<Longrightarrow>
    length (np_frames (w_relPlan w)) \<le> Suc k \<Longrightarrow> hstep w (w\<lparr>w_rel := RelDrain a\<rparr>)"
| rel_confirmed: "w_rel w = RelDrain a \<Longrightarrow> buffered w = 0 \<Longrightarrow> hstep w (w\<lparr>w_rel := RelClear\<rparr>)"
| rel_give_up: "w_rel w \<notin> {RelIdle, RelClear} \<Longrightarrow> (\<forall>out. w_rel w \<noteq> RelClose out) \<Longrightarrow>
    rp \<in> {RelIdle, RelRetry, RelClose Unverified} \<Longrightarrow> (go = g_outcome w \<or> go = Some Unverified) \<Longrightarrow>
    hstep w (w\<lparr>w_rel := rp, g_outcome := go\<rparr>)"
| rel_again: "w_rel w = RelRetry \<Longrightarrow> hstep w (w\<lparr>w_rel := RelSend (Suc 0) 0\<rparr>)"
| rel_cleared: "w_rel w = RelClear \<Longrightarrow> rp \<in> {RelIdle, RelClose Neutralized} \<Longrightarrow>
    hstep w (w\<lparr>w_core := clear_held (w_relPlan w) (w_core w), w_rel := rp, g_outcome := go\<rparr>)"

inductive_cases hstepE: "hstep w w'"

lemma writer_event_hstep:
  "pick_priority_first w = Some w' \<Longrightarrow> hstep w w'"
  "select_priority w = Some w' \<Longrightarrow> hstep w w'"
  "select_send w = Some w' \<Longrightarrow> hstep w w'"
  "select_stop w = Some w' \<Longrightarrow> hstep w w'"
  "write_context w = Some w' \<Longrightarrow> hstep w w'"
  "write_writable w = Some w' \<Longrightarrow> hstep w w'"
  "write_buffer w = Some w' \<Longrightarrow> hstep w w'"
  by (auto simp: pick_priority_first_def split: writer_pc.splits list.splits
      intro: hstep.pick_priority hstep.to_select)
    (auto simp: select_priority_def select_send_def select_stop_def write_context_def
      write_writable_def write_buffer_def
      split: writer_pc.splits list.splits sum.splits if_splits
      intro: hstep.pick_priority hstep.pick_send hstep.stopped [simplified] hstep.reject
        hstep.context_ok hstep.writable_ok hstep.buffer_ok)

lemma commit_write_Inl:
  "commit_write req c h = (Inl e, h') \<Longrightarrow> h' = h \<or>
     (\<exists>n. rq_held req = Some n \<and> rq_drain req \<and> h' = h\<lparr>hc_held := held_add (hc_held h) n\<rparr>)"
  by (auto simp: commit_write_def Let_def split: sum.splits option.splits if_splits)

lemma commit_event_hstep:
  assumes "write_commit w = Some w'"
  shows "hstep w w'"
proof -
  obtain req where req: "w_writer w = WCommit req"
    using assms by (auto simp: write_commit_def split: writer_pc.splits)
  obtain r h where c: "commit_write req (w_deadCtx w (rq_ctx req)) (w_core w) = (r, h)"
    by (cases "commit_write req (w_deadCtx w (rq_ctx req)) (w_core w)")
  show ?thesis
  proof (cases r)
    case (Inl e)
    then show ?thesis
      using assms req c commit_write_Inl [of req "w_deadCtx w (rq_ctx req)" "w_core w" e h]
      by (auto simp: write_commit_def intro: hstep.reject hstep.commit_refused)
  next
    case (Inr d)
    then show ?thesis using assms req c by (auto simp: write_commit_def intro: hstep.commit)
  qed
qed

lemma send_event_hstep: "write_send ok acc w = Some w' \<Longrightarrow> hstep w w'"
  using hstep.send_lost [of w] hstep.send_error [of w] hstep.send_ok [of w] hstep.send_drain [of w]
  by (auto simp: write_send_def accept_frame_def Let_def split: writer_pc.splits if_splits)

lemma drain_event_hstep:
  "drain_empty w = Some w' \<Longrightarrow> hstep w w'"
  "drain_invalidated w = Some w' \<Longrightarrow> hstep w w'"
  "drain_context w = Some w' \<Longrightarrow> hstep w w'"
  by (auto simp: drain_empty_def drain_invalidated_def drain_context_def
      hidBufferedAmountLowThreshold_def split: writer_pc.splits if_splits option.splits
      intro!: hstep.drain_return)

lemma close_world_hstep:
  assumes "rp = w_rel w \<or> (rp = RelIdle \<and> (\<exists>out. w_rel w = RelClose out))"
    and "hs = w_hs w \<or> (\<exists>e. hs = HsFinished (Inl e))"
  shows "hstep w ((close_world c w)\<lparr>w_hs := hs, w_rel := rp, w_relCause := rc, g_outcome := go\<rparr>)"
proof (cases "hc_state (w_core w) = HidClosed")
  case True
  then have eq: "(close_world c w)\<lparr>w_hs := hs, w_rel := rp, w_relCause := rc, g_outcome := go\<rparr> =
      w\<lparr>w_stop := True, w_hs := hs, w_rel := rp, w_relCause := rc, g_outcome := go\<rparr>"
    by (simp add: close_world_def closeWith_def)
  show ?thesis unfolding eq by (rule hstep.close_again [OF True assms])
next
  case False
  then have eq: "(close_world c w)\<lparr>w_hs := hs, w_rel := rp, w_relCause := rc, g_outcome := go\<rparr> =
      revoke (w\<lparr>w_core := (w_core w)\<lparr>hc_state := HidClosed, hc_closeCause := Some c\<rparr>,
        w_stop := True, w_hs := hs, w_rel := rp, w_relCause := rc, g_outcome := go\<rparr>)"
    by (simp add: close_world_def closeWith_def revoke_def observe_revoked_def Let_def)
  show ?thesis unfolding eq by (rule hstep.close [OF False assms])
qed

lemma close_event_hstep:
  "hstep w (close_world c w)" "hstep w ((close_world c w)\<lparr>w_hs := HsFinished (Inl e)\<rparr>)"
  using close_world_hstep [where w = w and rp = "w_rel w" and c = c and hs = "w_hs w"
      and rc = "w_relCause w" and go = "g_outcome w"]
    close_world_hstep [where w = w and rp = "w_rel w" and c = c and hs = "HsFinished (Inl e)"
      and rc = "w_relCause w" and go = "g_outcome w"]
  by (simp_all add: close_world_def closeWith_def observe_revoked_def Let_def split: if_splits)

lemma environment_event_hstep:
  "submit s ctx tok w = Some w' \<Longrightarrow> hstep w w'"
  "cancel_ctx x w = Some w' \<Longrightarrow> hstep w w'"
  "acknowledge w = Some w' \<Longrightarrow> hstep w w'"
  "handleMessage data w = Some w' \<Longrightarrow> hstep w w'"
  by (auto simp: submit_def cancel_ctx_def acknowledge_def handleMessage_def hidSendQueueDepth_def
      split: if_splits sum.splits
      intro: hstep.submit hstep.cancel hstep.ack hstep.echo hstep.stutter)

lemma handshake_event_hstep:
  "hs_begin ctx w = Some w' \<Longrightarrow> hstep w w'"
  "hs_enqueue w = Some w' \<Longrightarrow> hstep w w'"
  "hs_sent c w = Some w' \<Longrightarrow> hstep w w'"
  "hs_ctx_done c w = Some w' \<Longrightarrow> hstep w w'"
  "hs_confirm c w = Some w' \<Longrightarrow> hstep w w'"
  by (auto simp: hs_begin_def hs_enqueue_def hs_sent_def hs_ctx_done_def hs_confirm_def hs_abort_def
      handshake_start_def hidPriorityQueueDepth_def
      split: if_splits sum.splits handshake_pc.splits option.splits hidState.splits
      intro: hstep.hs_start hstep.hs_end hstep.hs_frame hstep.hs_frame_sent hstep.hs_ready
        close_event_hstep)

lemma readiness_event_hstep:
  "hs_echoed c w = Some w' \<Longrightarrow> hstep w w'"
  "hs_writer_gone c w = Some w' \<Longrightarrow> hstep w w'"
  by (auto simp: hs_echoed_def hs_writer_gone_def hs_readiness_def readiness_ready_def
      readiness_closed_def hs_abort_def split: if_splits handshake_pc.splits option.splits
      intro: hstep.hs_end hstep.hs_echo_seen close_event_hstep)

lemma rel_fail_hstep:
  assumes "w_rel w \<notin> {RelIdle, RelClear}" "\<forall>out. w_rel w \<noteq> RelClose out"
  shows "hstep w (rel_fail a w)" "hstep w (finish_release Unverified w)"
  using hstep.rel_give_up [OF assms, where rp = RelIdle and go = "Some Unverified"]
    hstep.rel_give_up [OF assms, where rp = RelRetry and go = "g_outcome w"]
    hstep.rel_give_up [OF assms, where rp = "RelClose Unverified" and go = "g_outcome w"]
  by (simp_all add: rel_fail_def finish_release_def split: option.splits)

lemma lease_event_hstep:
  "begin_lease ctx w = Some w' \<Longrightarrow> hstep w w'"
  by (auto simp: begin_lease_def lifecycle_free_def split: if_splits sum.splits
      intro: hstep.stutter hstep.lease)

lemma release_event_hstep:
  "rel_lock_failed ctx cc w = Some w' \<Longrightarrow> hstep w w'"
  "rel_enqueue w = Some w' \<Longrightarrow> hstep w w'"
  "rel_result w = Some w' \<Longrightarrow> hstep w w'"
  "rel_drained w = Some w' \<Longrightarrow> hstep w w'"
  "rel_writer_gone w = Some w' \<Longrightarrow> hstep w w'"
  "rel_ctx_done w = Some w' \<Longrightarrow> hstep w w'"
  "rel_retry w = Some w' \<Longrightarrow> hstep w w'"
  by (auto simp: rel_lock_failed_def rel_enqueue_def rel_result_def rel_drained_def
      rel_writer_gone_def rel_ctx_done_def rel_retry_def hidPriorityQueueDepth_def
      hidBufferedAmountLowThreshold_def hidRequestResult_def
      split: release_pc.splits option.splits sum.splits if_splits
      intro: close_event_hstep hstep.rel_frame hstep.rel_frame_sent hstep.rel_all_sent
        hstep.rel_confirmed hstep.rel_again rel_fail_hstep)

lemma rel_start_hstep:
  assumes "rel_start ctx cause w = Some w'"
  shows "hstep w w'"
proof -
  let ?h = "w_core w"
  have idle: "w_rel w = RelIdle" using assms by (auto simp: rel_start_def lifecycle_free_def split: if_splits)
  have fin: "hstep w (finish_release out ((revoke w)\<lparr>w_relCtx := ctx, w_relCause := cause, w_rel := RelRetry\<rparr>))"
    if "out = Neutralized \<longrightarrow> \<not> held_any (hc_held ?h)" for out
    using hstep.rel_begin_end [OF idle that, where rp = RelIdle and ctx = ctx and rc = cause
        and go = "Some out"]
      hstep.rel_begin_end [OF idle that, where rp = "RelClose out" and ctx = ctx and rc = cause
        and go = "g_outcome w"]
    by (cases cause) (simp_all add: finish_release_def revoke_def observe_revoked_def)
  have same: "(observe_revoked w)\<lparr>w_core := invalidateLeaseLocked ?h, w_relCtx := ctx,
      w_relCause := cause, w_rel := RelRetry\<rparr> =
      (revoke w)\<lparr>w_relCtx := ctx, w_relCause := cause, w_rel := RelRetry\<rparr>"
    by (simp add: revoke_def)
  show ?thesis
  proof (cases "hc_state ?h = Ready")
    case True
    then show ?thesis
      using assms fin [of Unverified] hstep.rel_begin [OF idle True, where ctx = ctx and rc = cause]
      unfolding rel_start_def Let_def same
      by (auto simp: revoke_def split: if_splits sum.splits)
  next
    case False
    then show ?thesis
      using assms fin [of Unverified] fin [of Neutralized] unfolding rel_start_def Let_def same
      by (auto split: if_splits)
  qed
qed

lemma rel_end_event_hstep:
  "rel_clear w = Some w' \<Longrightarrow> hstep w w'"
  "rel_close w = Some w' \<Longrightarrow> hstep w w'"
proof -
  assume "rel_clear w = Some w'"
  then show "hstep w w'"
    using hstep.rel_cleared [where w = w and rp = RelIdle and go = "Some Neutralized"]
      hstep.rel_cleared [where w = w and rp = "RelClose Neutralized" and go = "g_outcome w"]
    by (cases "w_relCause w") (auto simp: rel_clear_def finish_release_def split: if_splits)
next
  assume "rel_close w = Some w'"
  then obtain out c where r: "w_rel w = RelClose out"
    "w' = (close_world c w)\<lparr>w_rel := RelIdle, w_relCause := None, g_outcome := Some out\<rparr>"
    by (auto simp: rel_close_def split: release_pc.splits option.splits)
  then show "hstep w w'"
    using close_world_hstep [where w = w and rp = RelIdle and c = c and hs = "w_hs w"
      and rc = None and go = "Some out"]
    by (simp add: close_world_def observe_revoked_def Let_def split: if_splits)
qed

lemma hid_step_hstep: "hid_step e w = Some w' \<Longrightarrow> hstep w w'"
  by (cases e) (auto intro: writer_event_hstep commit_event_hstep send_event_hstep drain_event_hstep close_event_hstep
      environment_event_hstep handshake_event_hstep readiness_event_hstep lease_event_hstep
      release_event_hstep rel_start_hstep rel_end_event_hstep)

text \<open>So an invariant of \<open>hstep\<close> that holds initially holds in every reachable world.\<close>

lemma hid_reach_inv [consumes 1, case_names start step]:
  assumes "hid_reach w" "P newHIDClient"
    and "\<And>w w'. hid_reach w \<Longrightarrow> P w \<Longrightarrow> hstep w w' \<Longrightarrow> P w'"
  shows "P w"
  using assms(1) by induction (auto intro: assms hid_step_hstep)

end
