(* ===== verification/Hid_Safety.thy ===== *)
theory Hid_Safety
  imports Hid_Steps
begin

text \<open>
  The invariants of the HID goroutines, each proved for every reachable world, and the
  properties of \<open>hid.go\<close> that follow from them.
\<close>

lemmas core_op_defs = invalidateLeaseLocked_def closeWith_def clear_held_def revoke_def
  observe_revoked_def accept_frame_def newHIDClient_def newHIDClient_core_def

lemma beginLeaseLocked_Inr_iff:
  "beginLeaseLocked c h = Inr (g, h') \<longleftrightarrow>
     \<not> c \<and> hc_state h = Ready \<and> \<not> held_any (hc_held h) \<and> g = hc_genCounter h + 1 \<and>
     h' = h\<lparr>hc_genCounter := g, hc_activeGen := g, hc_activeDone := Some (hc_nextDone h),
            hc_nextDone := hc_nextDone h + 1\<rparr>"
  by (auto simp: beginLeaseLocked_def Let_def split: hidState.splits)

lemma commit_write_Inr_iff:
  "commit_write req c h = (Inr d, h') \<longleftrightarrow>
     checkWritableLocked req h = Inr () \<and> \<not> c \<and>
     h' = (case rq_held req of None \<Rightarrow> h | Some n \<Rightarrow> h\<lparr>hc_held := held_add (hc_held h) n\<rparr>) \<and>
     (if rq_drain req then d \<noteq> None \<and> d = hc_activeDone h else d = None)"
  by (auto simp: commit_write_def Let_def split: sum.splits option.splits if_splits)

lemma checkWritableLocked_ordinary:
  "\<not> rq_privileged req \<Longrightarrow> checkWritableLocked req h = Inr () \<longleftrightarrow>
     hc_state h = Ready \<and> rq_token req = hc_activeGen h \<and> hc_activeGen h \<noteq> 0"
  by (auto simp: checkWritableLocked_def split: hidState.splits)

lemma commit_write_core:
  assumes "commit_write req c h = (Inr d, h')"
  shows "hc_state h' = hc_state h" "hc_activeGen h' = hc_activeGen h"
    "hc_activeDone h' = hc_activeDone h" "hc_genCounter h' = hc_genCounter h"
    "hc_nextDone h' = hc_nextDone h" "hc_closeCause h' = hc_closeCause h"
  using assms by (auto simp: commit_write_Inr_iff split: option.splits)

section \<open>Generations\<close>

definition gen_inv :: "world \<Rightarrow> bool" where
  "gen_inv w \<longleftrightarrow> (let h = w_core w in
     hc_genCounter h = of_nat (g_bumps w) \<and>
     (hc_activeGen h \<noteq> 0 \<longrightarrow> hc_state h = Ready \<and> hc_activeDone h \<noteq> None) \<and>
     (hc_activeDone h \<noteq> None \<longrightarrow> hc_activeGen h = of_nat (g_bumps w)) \<and>
     (\<forall>c. hc_activeDone h = Some c \<longrightarrow> c < hc_nextDone h))"

lemma gen_inv_step: "hstep w w' \<Longrightarrow> gen_inv w \<Longrightarrow> gen_inv w'"
  by (erule hstep.cases)
    (auto simp: gen_inv_def Let_def core_op_defs beginLeaseLocked_Inr_iff commit_write_core)

lemma gen_inv_reach: "hid_reach w \<Longrightarrow> gen_inv w"
proof (induction rule: hid_reach_inv)
  case start
  show ?case by (simp add: gen_inv_def core_op_defs)
qed (rule gen_inv_step)

definition issued_inv :: "world \<Rightarrow> bool" where
  "issued_inv w \<longleftrightarrow> (\<exists>ns. g_issued w = map of_nat ns \<and> sorted_wrt (<) ns \<and>
     (\<forall>n \<in> set ns. 0 < n \<and> n \<le> g_bumps w) \<and>
     (g_bumps w \<in> set ns \<longrightarrow> hc_activeGen (w_core w) = of_nat (g_bumps w)))"

lemma issued_inv_revoked:
  assumes "issued_inv w" "g_issued w' = g_issued w" "g_bumps w' = Suc (g_bumps w)"
  shows "issued_inv w'"
  using assms unfolding issued_inv_def by (metis le_SucI not_less_eq_eq order_refl)

lemma issued_inv_same:
  assumes "issued_inv w" "g_issued w' = g_issued w" "g_bumps w' = g_bumps w"
    "hc_activeGen (w_core w') = hc_activeGen (w_core w)"
  shows "issued_inv w'"
  using assms unfolding issued_inv_def by simp

lemma issued_inv_step:
  assumes "hstep w w'" "gen_inv w" "issued_inv w"
  shows "issued_inv w'"
  using assms(1)
proof (cases rule: hstep.cases)
  case (lease c g h)
  from assms(3) obtain ns where ns: "g_issued w = map of_nat ns" "sorted_wrt (<) ns"
    "\<forall>n \<in> set ns. 0 < n \<and> n \<le> g_bumps w" unfolding issued_inv_def by blast
  have g: "g = of_nat (Suc (g_bumps w))" "hc_activeGen h = g"
    using lease assms(2) by (simp_all add: beginLeaseLocked_Inr_iff gen_inv_def Let_def)
  then have "g_issued w' = map of_nat (ns @ [Suc (g_bumps w)])" "g_bumps w' = Suc (g_bumps w)"
    "hc_activeGen (w_core w') = of_nat (g_bumps w')"
    using ns(1) lease by (simp_all add: observe_revoked_def)
  moreover have "sorted_wrt (<) (ns @ [Suc (g_bumps w)])"
    using ns by (auto simp: sorted_wrt_append less_Suc_eq_le)
  moreover have "\<forall>n \<in> set (ns @ [Suc (g_bumps w)]). 0 < n \<and> n \<le> g_bumps w'"
    using ns(3) calculation(2) by auto
  ultimately show ?thesis unfolding issued_inv_def by blast
next
  case (commit req d h)
  then show ?thesis
    using commit_write_core [OF commit(3)] by (intro issued_inv_same [OF assms(3)]) simp_all
qed (auto simp: core_op_defs intro: issued_inv_same [OF assms(3)] issued_inv_revoked [OF assms(3)])

lemma issued_inv_reach: "hid_reach w \<Longrightarrow> issued_inv w"
proof (induction rule: hid_reach_inv)
  case start
  show ?case by (simp add: issued_inv_def core_op_defs)
next
  case (step w w')
  then show ?case by (intro issued_inv_step [of w w'] gen_inv_reach)
qed

section \<open>Requests\<close>

text \<open>
  A request of ordinary input is one the send methods build: its frame can set no bit of the
  device that its held record lacks.
\<close>

definition set_by :: "byte list \<Rightarrow> heldInput \<Rightarrow> bool" where
  "set_by frm h \<longleftrightarrow> (\<forall>d. (dh_keyboard (dev_apply frm d) \<longrightarrow> dh_keyboard d \<or> hi_keyboard h) \<and>
     (dh_absolute (dev_apply frm d) \<longrightarrow> dh_absolute d \<or> hi_absoluteButtons h) \<and>
     (dh_relative (dev_apply frm d) \<longrightarrow> dh_relative d \<or> hi_relativeButtons h))"

definition request_ok :: "hidRequest \<Rightarrow> bool" where
  "request_ok r \<longleftrightarrow> set_by (rq_frame r) (case rq_held r of None \<Rightarrow> no_held | Some h \<Rightarrow> h) \<and>
     rq_frame r \<noteq> [] \<and> (rq_privileged r \<longrightarrow> rq_held r = None \<and> \<not> rq_drain r) \<and>
     (rq_drain r \<longrightarrow> rq_held r = None)"

lemma any_key_replicate [simp]: "\<not> any_key (replicate n 0)"
  by (induction n) auto

lemma dev_apply_keyboard: "dev_apply (TypeKeyboardReport # p) d = d\<lparr>dh_keyboard := any_key p\<rparr>"
  by (simp add: dev_apply_def Let_def)

lemma dev_apply_pointer:
  "dev_apply (TypePointerReport # put_u32_be x @ put_u32_be y @ [b]) d = d\<lparr>dh_absolute := b \<noteq> 0\<rparr>"
  by (simp add: dev_apply_def Let_def message_type_defs nth_append)

lemma dev_apply_mouse: "dev_apply [TypeMouseReport, dx, dy, b] d = d\<lparr>dh_relative := b \<noteq> 0\<rparr>"
  by (simp add: dev_apply_def Let_def message_type_defs)

lemma dev_apply_handshake: "dev_apply [1, 1] d = d"
  by (simp add: dev_apply_def Let_def message_type_defs)

lemma send_request_ok:
  assumes "send_request s i ctx tok = Inr r"
  shows "request_ok r \<and> \<not> rq_privileged r \<and> rq_id r = i \<and> rq_token r = tok"
  using assms
  by (cases s) (auto simp: request_ok_def set_by_def request_def no_held_def ReleaseAllKeyboardReport_eq
      EncodeKeyboardReport_Inr_iff EncodePointerReport_Inr_iff EncodeMouseReport_Inr_iff Let_def
      dev_apply_keyboard dev_apply_pointer dev_apply_mouse split: if_splits)

lemma plan_frames:
  assumes "buildNeutralizationPlan held = Inr plan"
  shows "np_keyboard plan" "np_relativeButtons plan"
    "np_absoluteButtons plan \<longleftrightarrow> hi_absoluteButtons held"
    "np_frames plan = [TypeKeyboardReport # replicate 7 0, [TypeMouseReport, 0, 0, 0]] @
       (if hi_absoluteButtons held
        then [TypePointerReport # put_u32_be (hi_absoluteX held) @ put_u32_be (hi_absoluteY held) @ [0]]
        else [])"
  using assms
  by (auto simp: buildNeutralizationPlan_def ReleaseAllKeyboardReport_eq ReleaseAllMouseReport_eq
      EncodePointerReport_Inr_iff Let_def numeral_eq_Suc split: if_splits)

lemma privileged_request_ok:
  "set_by frm no_held \<Longrightarrow> frm \<noteq> [] \<Longrightarrow> request_ok (privileged_request frm i ctx)"
  by (simp add: request_ok_def privileged_request_def)

lemma handshake_request_ok:
  "EncodeHandshake = Inr frm \<Longrightarrow> request_ok (privileged_request frm i ctx)"
  by (intro privileged_request_ok) (auto simp: EncodeHandshake_eq set_by_def dev_apply_handshake)

lemma plan_frame_neutral:
  assumes "buildNeutralizationPlan held = Inr plan" "k < length (np_frames plan)"
  shows "set_by (np_frames plan ! k) no_held" "np_frames plan ! k \<noteq> []"
    "k = 0 \<Longrightarrow> \<not> dh_keyboard (dev_apply (np_frames plan ! k) d)"
    "k = 1 \<Longrightarrow> \<not> dh_relative (dev_apply (np_frames plan ! k) d)"
    "k = 2 \<Longrightarrow> \<not> dh_absolute (dev_apply (np_frames plan ! k) d)"
proof -
  have "k = 0 \<or> k = 1 \<or> k = 2"
    using assms by (auto simp: plan_frames(4) split: if_splits)
  then show "set_by (np_frames plan ! k) no_held" "np_frames plan ! k \<noteq> []"
    "k = 0 \<Longrightarrow> \<not> dh_keyboard (dev_apply (np_frames plan ! k) d)"
    "k = 1 \<Longrightarrow> \<not> dh_relative (dev_apply (np_frames plan ! k) d)"
    "k = 2 \<Longrightarrow> \<not> dh_absolute (dev_apply (np_frames plan ! k) d)"
    using assms unfolding set_by_def
    by (auto simp: plan_frames(4) dev_apply_keyboard dev_apply_mouse dev_apply_pointer
        split: if_splits)
qed

section \<open>What is queued\<close>

text \<open>The requests that may still be written, and the one inside \<open>write\<close>.\<close>

fun writer_request :: "writer_pc \<Rightarrow> hidRequest list" where
  "writer_request (WContext r) = [r]"
| "writer_request (WWritable r) = [r]"
| "writer_request (WBuffer r) = [r]"
| "writer_request (WCommit r) = [r]"
| "writer_request (WSend r d) = [r]"
| "writer_request (WDrain r d) = [r]"
| "writer_request _ = []"

definition pending :: "world \<Rightarrow> hidRequest list" where
  "pending w = w_priorityCh w @ w_sendCh w @ writer_request (w_writer w)"

definition queue_inv :: "world \<Rightarrow> bool" where
  "queue_inv w \<longleftrightarrow>
     length (w_sendCh w) \<le> 16 \<and> length (w_priorityCh w) \<le> 4 \<and>
     (\<forall>r \<in> set (pending w). request_ok r \<and> rq_id r < w_nextId w) \<and>
     (\<forall>r \<in> set (w_wire w). request_ok r) \<and>
     (\<forall>r \<in> set (w_priorityCh w). rq_privileged r) \<and>
     (\<forall>r d. w_writer w = WDrain r d \<longrightarrow> rq_drain r) \<and>
     (\<forall>i. i \<ge> w_nextId w \<longrightarrow> w_results w i = None)"

lemma complete_results: "w_results (complete_request r x w) i =
    (if i = rq_id r \<and> w_results w i = None then Some x else w_results w i)"
  by (auto simp: complete_request_def split: option.splits)

lemma fold_complete_results:
  "\<forall>r \<in> set rs. rq_id r < n \<Longrightarrow> n \<le> i \<Longrightarrow>
   w_results (fold (\<lambda>r. complete_request r x) rs w) i = w_results w i"
  by (induction rs arbitrary: w) (auto simp: complete_results)

lemma finish_write_results: "w_results (finish_write r x w) i =
    (if i = rq_id r \<and> w_results w i = None then Some x else w_results w i)"
  by (simp add: finish_write_def complete_results)

text \<open>The plan a release works on is the one of the held record, which cannot change meanwhile.\<close>

definition plan_phase :: "release_pc \<Rightarrow> bool" where
  "plan_phase p \<longleftrightarrow> (case p of RelIdle \<Rightarrow> False | RelClose _ \<Rightarrow> False | _ \<Rightarrow> True)"

definition release_inv :: "world \<Rightarrow> bool" where
  "release_inv w \<longleftrightarrow>
     (w_rel w \<noteq> RelIdle \<longrightarrow> hc_activeGen (w_core w) = 0 \<and> hc_activeDone (w_core w) = None) \<and>
     (plan_phase (w_rel w) \<longrightarrow>
        buildNeutralizationPlan (hc_held (w_core w)) = Inr (w_relPlan w)) \<and>
     (\<forall>a k. w_rel w = RelSend a k \<longrightarrow> k < length (np_frames (w_relPlan w))) \<and>
     (\<forall>a k i. w_rel w = RelWait a k i \<longrightarrow> k < length (np_frames (w_relPlan w)) \<and> i < w_nextId w \<and>
        (\<forall>r \<in> set (pending w). rq_id r = i \<longrightarrow>
           rq_privileged r \<and> rq_frame r = np_frames (w_relPlan w) ! k))"

lemma drain_holds_nothing:
  "queue_inv w \<Longrightarrow> w_writer w = WCommit req \<Longrightarrow> rq_drain req \<Longrightarrow> rq_held req = None"
  by (simp add: queue_inv_def pending_def request_ok_def)

text \<open>While a release runs no lease is active, so the writer commits only the frames of the client itself.\<close>

lemma commit_in_release:
  assumes "queue_inv w" "release_inv w" "w_writer w = WCommit req" "w_rel w \<noteq> RelIdle"
    and "commit_write req c (w_core w) = (Inr d, h)"
  shows "rq_privileged req" "h = w_core w"
proof -
  show p: "rq_privileged req"
    using assms checkWritableLocked_ordinary [of req "w_core w"]
    by (auto simp: release_inv_def commit_write_Inr_iff)
  have "request_ok req" using assms(1,3) by (simp add: queue_inv_def pending_def)
  then show "h = w_core w" using p assms(5) by (auto simp: commit_write_Inr_iff request_ok_def)
qed

lemma release_inv_commit:
  assumes "queue_inv w" "release_inv w" "w_writer w = WCommit req"
    and "commit_write req c (w_core w) = (Inr d, h)"
  shows "release_inv (w\<lparr>w_core := h, w_writer := WSend req d\<rparr>)"
proof (cases "w_rel w = RelIdle")
  case True
  then show ?thesis by (simp add: release_inv_def plan_phase_def)
next
  case False
  with commit_in_release(2) [OF assms(1-3) _ assms(4)] assms(2,3) show ?thesis
    by (simp add: release_inv_def pending_def)
qed

lemma release_inv_frame:
  assumes "queue_inv w" "release_inv w" "w_rel w = RelSend a k"
  shows "release_inv (w\<lparr>w_priorityCh := w_priorityCh w @
        [privileged_request (np_frames (w_relPlan w) ! k) (w_nextId w) (w_relCtx w)],
      w_nextId := Suc (w_nextId w), w_rel := RelWait a k (w_nextId w)\<rparr>)" (is "release_inv ?w'")
proof -
  let ?new = "privileged_request (np_frames (w_relPlan w) ! k) (w_nextId w) (w_relCtx w)"
  have old: "rq_id r \<noteq> w_nextId w" if "r \<in> set (pending w)" for r
    using that assms(1) by (auto simp: queue_inv_def)
  have "set (pending ?w') = insert ?new (set (pending w))" by (auto simp: pending_def)
  moreover have "rq_privileged ?new \<and> rq_frame ?new = np_frames (w_relPlan w) ! k"
    by (simp add: privileged_request_def)
  ultimately show ?thesis
    using old assms(2,3) by (auto simp: release_inv_def plan_phase_def)
qed

lemma release_inv_step:
  assumes "hstep w w'" "queue_inv w" "gen_inv w" "release_inv w"
  shows "release_inv w'"
  using assms(1)
proof (cases rule: hstep.cases)
  case (commit_refused req n e)
  then show ?thesis using drain_holds_nothing [OF assms(2)] by simp
next
  case (commit req d h)
  then show ?thesis using release_inv_commit [OF assms(2,4)] by simp
next
  case (submit s ctx tok req)
  with assms send_request_ok [of s "w_nextId w" ctx tok req] show ?thesis
    by (auto simp: release_inv_def pending_def)
next
  case (rel_begin plan ctx rc)
  then have "0 < length (np_frames plan)" by (simp add: plan_frames(4))
  with rel_begin show ?thesis
    by (auto simp: release_inv_def plan_phase_def revoke_def observe_revoked_def
        invalidateLeaseLocked_def)
next
  case (rel_frame a k)
  then show ?thesis using release_inv_frame [OF assms(2,4)] by simp
next
  case rel_again
  with assms(4) have "0 < length (np_frames (w_relPlan w))"
    by (auto simp: release_inv_def plan_phase_def plan_frames(4))
  with rel_again assms(4) show ?thesis by (auto simp: release_inv_def plan_phase_def)
next
  case (hs_frame frm)
  with assms show ?thesis
    by (auto simp: release_inv_def privileged_request_def pending_def)
qed (use assms in \<open>auto simp: release_inv_def plan_phase_def pending_def core_op_defs
    finish_write_def beginLeaseLocked_Inr_iff split: release_pc.splits\<close>)

lemma queue_inv_step:
  assumes "hstep w w'" "release_inv w" "queue_inv w"
  shows "queue_inv w'"
  using assms(1)
proof (cases rule: hstep.cases)
  case (stopped e)
  have "w_results (fold (\<lambda>r. complete_request r (Inl e)) (w_priorityCh w @ w_sendCh w) w) i = None"
    if "w_nextId w \<le> i" for i
    using fold_complete_results [of "w_priorityCh w @ w_sendCh w" "w_nextId w" i "Inl e" w] that assms(3)
    by (auto simp: queue_inv_def pending_def)
  with stopped assms(3) show ?thesis by (simp add: queue_inv_def pending_def)
next
  case (submit s ctx tok req)
  with assms(3) send_request_ok [of s "w_nextId w" ctx tok req] show ?thesis
    by (auto simp: queue_inv_def pending_def intro!: less_SucI)
next
  case (hs_frame frm)
  with assms(3) handshake_request_ok [of frm] show ?thesis
    by (auto simp: queue_inv_def pending_def privileged_request_def intro!: less_SucI)
next
  case (rel_frame a k)
  then have "request_ok (privileged_request (np_frames (w_relPlan w) ! k) (w_nextId w) (w_relCtx w))"
    using assms(2) plan_frame_neutral(1,2) [of "hc_held (w_core w)" "w_relPlan w" k]
    by (intro privileged_request_ok) (auto simp: release_inv_def plan_phase_def)
  with rel_frame assms(3) show ?thesis
    by (auto simp: queue_inv_def pending_def privileged_request_def intro!: less_SucI)
qed (use assms(3) in \<open>auto simp: queue_inv_def pending_def core_op_defs finish_write_results\<close>)

lemma queue_release_reach: "hid_reach w \<Longrightarrow> queue_inv w \<and> release_inv w"
proof (induction rule: hid_reach_inv)
  case start
  show ?case by (simp add: queue_inv_def release_inv_def core_op_defs pending_def plan_phase_def)
next
  case (step w w')
  then show ?case using gen_inv_reach queue_inv_step release_inv_step by blast
qed

lemmas queue_inv_reach = queue_release_reach [THEN conjunct1]
lemmas release_inv_reach = queue_release_reach [THEN conjunct2]

section \<open>What the device may hold\<close>

definition dev_of :: "hidRequest list \<Rightarrow> dev_held" where
  "dev_of rs = fold (\<lambda>r. dev_apply (rq_frame r)) rs dev_neutral"

lemma dev_of_snoc [simp]: "dev_of (rs @ [r]) = dev_apply (rq_frame r) (dev_of rs)"
  by (simp add: dev_of_def)

lemma dev_of_Nil [simp]: "dev_of [] = dev_neutral"
  by (simp add: dev_of_def)

definition inflight :: "world \<Rightarrow> bool" where
  "inflight w \<longleftrightarrow> (case w_writer w of WSend r d \<Rightarrow> \<not> rq_privileged r | _ \<Rightarrow> False)"

text \<open>How many frames of the plan the current release attempt has put on the wire.\<close>

definition confirmed :: "world \<Rightarrow> nat" where
  "confirmed w = (case w_rel w of
      RelSend a k \<Rightarrow> k
    | RelWait a k i \<Rightarrow> (if w_results w i = Some (Inr ()) then Suc k else k)
    | RelDrain a \<Rightarrow> length (np_frames (w_relPlan w))
    | RelClear \<Rightarrow> length (np_frames (w_relPlan w))
    | _ \<Rightarrow> 0)"

definition cleared :: "nat \<Rightarrow> dev_held \<Rightarrow> bool" where
  "cleared n d \<longleftrightarrow> (n \<ge> 1 \<longrightarrow> \<not> dh_keyboard d) \<and> (n \<ge> 2 \<longrightarrow> \<not> dh_relative d) \<and>
     (n \<ge> 3 \<longrightarrow> \<not> dh_absolute d)"

definition progress_inv :: "world \<Rightarrow> bool" where
  "progress_inv w \<longleftrightarrow> (confirmed w > 0 \<longrightarrow> \<not> inflight w \<and> cleared (confirmed w) (dev_of (w_wire w)))"

lemma privileged_only_clears:
  "request_ok r \<Longrightarrow> rq_privileged r \<Longrightarrow> cleared n d \<Longrightarrow> cleared n (dev_apply (rq_frame r) d)"
  by (auto simp: request_ok_def set_by_def cleared_def no_held_def)

lemma plan_frame_clears:
  assumes "buildNeutralizationPlan held = Inr plan" "k < length (np_frames plan)" "cleared k d"
  shows "cleared (Suc k) (dev_apply (np_frames plan ! k) d)"
proof -
  have "k \<le> 2" using assms(1,2) by (auto simp: plan_frames(4) split: if_splits)
  moreover have "set_by (np_frames plan ! k) no_held" using assms by (simp add: plan_frame_neutral)
  ultimately show ?thesis
    using assms(3) plan_frame_neutral(3-5) [OF assms(1,2), of d]
    by (auto simp: cleared_def set_by_def no_held_def le_Suc_eq numeral_2_eq_2 numeral_3_eq_3)
qed

lemma accept_privileged:
  assumes "progress_inv w" "queue_inv w" "w_writer w = WSend req d" "confirmed w > 0"
  shows "cleared (confirmed w) (dev_of (w_wire w @ [req]))" "rq_privileged req"
proof -
  show p: "rq_privileged req" using assms by (auto simp: progress_inv_def inflight_def)
  show "cleared (confirmed w) (dev_of (w_wire w @ [req]))"
    using assms p by (auto simp: progress_inv_def queue_inv_def pending_def intro: privileged_only_clears)
qed

lemma progress_inv_sent:
  assumes "progress_inv w" "queue_inv w" "release_inv w" "w_writer w = WSend req d"
    and w': "w' = finish_write req r (accept_frame req w)"
  shows "progress_inv w'"
proof -
  have f: "w_rel w' = w_rel w" "w_relPlan w' = w_relPlan w" "w_wire w' = w_wire w @ [req]"
    "w_results w' = (\<lambda>i. if i = rq_id req \<and> w_results w i = None then Some r else w_results w i)"
    "\<not> inflight w'"
    by (auto simp: w' accept_frame_def inflight_def finish_write_results fun_eq_iff)
  show ?thesis
  proof (cases "confirmed w' = confirmed w")
    case True
    then show ?thesis
      using accept_privileged [OF assms(1,2,4)] f by (simp add: progress_inv_def)
  next
    case False
    then obtain a k i where rel: "w_rel w = RelWait a k i" "w_results w i = None" "i = rq_id req"
      "confirmed w = k" "confirmed w' = Suc k"
      by (auto simp: confirmed_def f split: release_pc.splits if_splits)
    have "req \<in> set (pending w)" using assms(4) by (simp add: pending_def)
    then have fr: "rq_frame req = np_frames (w_relPlan w) ! k" "k < length (np_frames (w_relPlan w))"
      "buildNeutralizationPlan (hc_held (w_core w)) = Inr (w_relPlan w)"
      using assms(3) rel by (auto simp: release_inv_def plan_phase_def)
    have "cleared k (dev_of (w_wire w))"
      using assms(1) rel(4) by (cases k) (auto simp: progress_inv_def cleared_def)
    from plan_frame_clears [OF fr(3,2) this] show ?thesis
      using f rel(5) fr(1) by (simp add: progress_inv_def)
  qed
qed

lemma progress_inv_finish:
  assumes "progress_inv w" "w' = finish_write req r w"
    and "\<forall>a k. w_rel w = RelWait a k (rq_id req) \<longrightarrow> r \<noteq> Inr ()"
  shows "progress_inv w'"
proof -
  have "confirmed w' = confirmed w"
    using assms(2,3) by (auto simp: confirmed_def finish_write_results split: release_pc.splits)
  with assms(1,2) show ?thesis by (simp add: progress_inv_def inflight_def)
qed

lemma progress_inv_same:
  "progress_inv w \<Longrightarrow> confirmed w' = confirmed w \<Longrightarrow> (inflight w' \<longrightarrow> inflight w) \<Longrightarrow>
   w_wire w' = w_wire w \<Longrightarrow> progress_inv w'"
  by (auto simp: progress_inv_def)

lemma progress_inv_zero: "confirmed w = 0 \<Longrightarrow> progress_inv w"
  by (simp add: progress_inv_def)

lemma fold_complete_ok:
  "w_results (fold (\<lambda>r. complete_request r (Inl e)) rs w) i = Some (Inr ()) \<longleftrightarrow>
     w_results w i = Some (Inr ())"
  by (induction rs arbitrary: w) (auto simp: complete_results)

lemma progress_inv_stopped:
  assumes "progress_inv w"
    and w': "w' = (fold (\<lambda>req. complete_request req (Inl e)) rs w)
      \<lparr>w_priorityCh := [], w_sendCh := [], w_writer := WDone\<rparr>"
  shows "progress_inv w'"
proof -
  have res: "w_results w' i = Some (Inr ()) \<longleftrightarrow> w_results w i = Some (Inr ())" for i
    unfolding w' by (simp add: fold_complete_ok)
  have same: "w_rel w' = w_rel w" "w_relPlan w' = w_relPlan w" "w_writer w' = WDone"
    "w_wire w' = w_wire w" by (simp_all add: w')
  have "confirmed w' = confirmed w" unfolding confirmed_def same by (simp only: res)
  then show ?thesis
    using same(3,4) by (intro progress_inv_same [OF assms(1)]) (simp_all add: inflight_def)
qed

lemma progress_inv_commit:
  assumes "queue_inv w" "release_inv w" "progress_inv w" "w_writer w = WCommit req"
    and "commit_write req c (w_core w) = (Inr d, h)"
    and w': "w' = w\<lparr>w_core := h, w_writer := WSend req d\<rparr>"
  shows "progress_inv w'"
proof (cases "w_rel w = RelIdle")
  case True
  then show ?thesis by (intro progress_inv_zero) (simp add: confirmed_def w')
next
  case False
  then have "\<not> inflight w'"
    using commit_in_release(1) [OF assms(1,2,4) _ assms(5)] by (simp add: inflight_def w')
  moreover have "confirmed w' = confirmed w" by (simp add: confirmed_def w' split: release_pc.split)
  ultimately show ?thesis by (intro progress_inv_same [OF assms(3)]) (simp_all add: w')
qed

lemma progress_inv_draining:
  assumes "queue_inv w" "progress_inv w" "w_writer w = WSend req d" "rq_drain req"
  shows "progress_inv ((accept_frame req w)\<lparr>w_writer := WDrain req d\<rparr>)"
proof -
  have "\<not> rq_privileged req" using assms by (auto simp: queue_inv_def pending_def request_ok_def)
  then have "confirmed w = 0" using assms by (auto simp: progress_inv_def inflight_def)
  then show ?thesis
    by (intro progress_inv_zero) (auto simp: confirmed_def accept_frame_def split: release_pc.splits)
qed

lemma progress_inv_drained:
  assumes "queue_inv w" "release_inv w" "progress_inv w" "w_writer w = WDrain req d"
  shows "progress_inv (finish_write req r w)"
proof -
  have "rq_drain req" and p: "req \<in> set (pending w)" using assms(1,4) by (auto simp: queue_inv_def pending_def)
  then have "\<not> rq_privileged req" using assms(1) by (auto simp: queue_inv_def request_ok_def)
  then have "\<forall>a k. w_rel w \<noteq> RelWait a k (rq_id req)" using assms(2) p by (auto simp: release_inv_def)
  then show ?thesis by (intro progress_inv_finish [OF assms(3)]) auto
qed

lemma progress_inv_step:
  assumes "hstep w w'" "queue_inv w" "release_inv w" "progress_inv w"
  shows "progress_inv w'"
  using assms(1)
proof (cases rule: hstep.cases)
  case (commit_refused req n e)
  then show ?thesis using drain_holds_nothing [OF assms(2)] by simp
next
  case (stopped e)
  then show ?thesis using progress_inv_stopped [OF assms(4)] by blast
next
  case (reject req e)
  then show ?thesis by (intro progress_inv_finish [OF assms(4)]) auto
next
  case (commit req d h)
  then show ?thesis using progress_inv_commit [OF assms(2-4)] by blast
next
  case (send_lost req d)
  then show ?thesis by (intro progress_inv_finish [OF assms(4)]) auto
next
  case (send_error req d)
  then show ?thesis by (intro progress_inv_sent [OF assms(4,2,3)]) auto
next
  case (send_ok req d)
  then show ?thesis by (intro progress_inv_sent [OF assms(4,2,3)]) auto
next
  case (send_drain req d)
  then show ?thesis using progress_inv_draining [OF assms(2,4)] by blast
next
  case (drain_return req d r)
  then show ?thesis using progress_inv_drained [OF assms(2-4)] by blast
next
  case (rel_frame a k)
  then have "confirmed w' = confirmed w"
    using assms(2) by (simp add: confirmed_def queue_inv_def)
  then show ?thesis using rel_frame by (intro progress_inv_same [OF assms(4)]) (auto simp: inflight_def)
next
  case (rel_all_sent a k i)
  then have "confirmed w' = confirmed w"
    using assms(3) by (auto simp: confirmed_def release_inv_def)
  then show ?thesis using rel_all_sent by (intro progress_inv_same [OF assms(4)]) (auto simp: inflight_def)
qed (auto intro: progress_inv_same [OF assms(4)] progress_inv_zero
    simp: confirmed_def inflight_def core_op_defs split: release_pc.splits if_splits)


lemma progress_inv_reach: "hid_reach w \<Longrightarrow> progress_inv w"
proof (induction rule: hid_reach_inv)
  case start
  show ?case by (intro progress_inv_zero) (simp add: confirmed_def newHIDClient_def)
next
  case (step w w')
  then show ?case using progress_inv_step queue_inv_reach release_inv_reach by blast
qed

section \<open>The held record is conservative\<close>

text \<open>
  Whatever the peer has received by now, that is every prefix of the wire that contains the
  acknowledged frames, holds nothing the record does not have.
\<close>

definition held_le :: "hidRequest \<Rightarrow> heldInput \<Rightarrow> bool" where
  "held_le r h \<longleftrightarrow> (case rq_held r of None \<Rightarrow> True
     | Some n \<Rightarrow> (hi_keyboard n \<longrightarrow> hi_keyboard h) \<and> (hi_absoluteButtons n \<longrightarrow> hi_absoluteButtons h) \<and>
         (hi_relativeButtons n \<longrightarrow> hi_relativeButtons h))"

definition delivered_le :: "world \<Rightarrow> bool" where
  "delivered_le w \<longleftrightarrow> (\<forall>k. w_acked w \<le> k \<and> k \<le> length (w_wire w) \<longrightarrow>
     dev_le (dev_of (take k (w_wire w))) (hc_held (w_core w)))"

definition delivered_neutral :: "world \<Rightarrow> bool" where
  "delivered_neutral w \<longleftrightarrow> (\<forall>k. w_acked w \<le> k \<and> k \<le> length (w_wire w) \<longrightarrow>
     dev_of (take k (w_wire w)) = dev_neutral)"

definition held_inv :: "world \<Rightarrow> bool" where
  "held_inv w \<longleftrightarrow> w_acked w \<le> length (w_wire w) \<and> delivered_le w \<and>
     (\<forall>r d. w_writer w = WSend r d \<longrightarrow> held_le r (hc_held (w_core w))) \<and>
     (w_rel w = RelClear \<longrightarrow> delivered_neutral w)"

lemma held_add_grows:
  "hi_keyboard h \<Longrightarrow> hi_keyboard (held_add h n)"
  "hi_absoluteButtons h \<Longrightarrow> hi_absoluteButtons (held_add h n)"
  "hi_relativeButtons h \<Longrightarrow> hi_relativeButtons (held_add h n)"
  "hi_keyboard n \<Longrightarrow> hi_keyboard (held_add h n)"
  "hi_absoluteButtons n \<Longrightarrow> hi_absoluteButtons (held_add h n)"
  "hi_relativeButtons n \<Longrightarrow> hi_relativeButtons (held_add h n)"
  by (simp_all add: held_add_def Let_def)

lemma delivered_le_accept:
  assumes "delivered_le w" "request_ok r" "held_le r (hc_held (w_core w))"
    and "w_acked w \<le> length (w_wire w)"
    and "w_wire w' = w_wire w @ [r]" "w_acked w' = w_acked w" "w_core w' = w_core w"
  shows "delivered_le w'"
proof -
  have "dev_le (dev_of (w_wire w)) (hc_held (w_core w))"
    using assms(1,4) by (auto simp: delivered_le_def)
  then have "dev_le (dev_apply (rq_frame r) (dev_of (w_wire w))) (hc_held (w_core w))"
    using assms(2,3)
    by (auto simp: dev_le_def request_ok_def set_by_def held_le_def no_held_def split: option.splits)
  moreover have "dev_le (dev_of (take k (w_wire w))) (hc_held (w_core w))"
    if "w_acked w \<le> k" "k \<le> length (w_wire w)" for k
    using assms(1) that by (simp add: delivered_le_def)
  ultimately show ?thesis
    using assms(5-7) by (auto simp: delivered_le_def le_Suc_eq)
qed

lemma delivered_neutral_accept:
  assumes "delivered_neutral w" "request_ok r" "rq_privileged r"
    and "w_acked w \<le> length (w_wire w)"
    and "w_wire w' = w_wire w @ [r]" "w_acked w' = w_acked w"
  shows "delivered_neutral w'"
proof -
  have "dev_of (take (length (w_wire w)) (w_wire w)) = dev_neutral"
    using assms(1,4) unfolding delivered_neutral_def by blast
  then have "dev_of (w_wire w) = dev_neutral" by simp
  then have "dev_apply (rq_frame r) (dev_of (w_wire w)) = dev_neutral"
    using assms(2,3) by (cases "dev_apply (rq_frame r) dev_neutral")
      (auto simp: request_ok_def set_by_def no_held_def dev_neutral_def dest: spec [of _ dev_neutral])
  then show ?thesis using assms(1,5,6) by (auto simp: delivered_neutral_def le_Suc_eq)
qed

lemma held_inv_accept:
  assumes "held_inv w" "queue_inv w" "progress_inv w" "release_inv w" "w_writer w = WSend r d"
    and "w_wire w' = w_wire w @ [r]" "w_acked w' = w_acked w" "w_core w' = w_core w"
      "w_rel w' = w_rel w" "\<forall>r d. w_writer w' \<noteq> WSend r d"
  shows "held_inv w'"
proof -
  have ok: "request_ok r" using assms(2,5) by (simp add: queue_inv_def pending_def)
  have inv: "delivered_le w" "held_le r (hc_held (w_core w))" "w_acked w \<le> length (w_wire w)"
    "w_rel w = RelClear \<longrightarrow> delivered_neutral w"
    using assms(1,5) by (simp_all add: held_inv_def)
  have "delivered_le w'" by (rule delivered_le_accept [OF inv(1) ok inv(2,3) assms(6-8)])
  moreover have "delivered_neutral w'" if clear: "w_rel w' = RelClear"
  proof -
    have "0 < confirmed w"
      using clear assms(4,9) by (auto simp: confirmed_def release_inv_def plan_phase_def plan_frames(4))
    then have "rq_privileged r" using accept_privileged(2) assms by blast
    moreover have "delivered_neutral w" using clear inv(4) assms(9) by simp
    ultimately show ?thesis using delivered_neutral_accept ok inv(3) assms(6,7) by blast
  qed
  ultimately show ?thesis using inv(3) assms(6,7,10) by (simp add: held_inv_def)
qed

lemma buffered_zero_iff:
  assumes "queue_inv w" "w_acked w \<le> length (w_wire w)"
  shows "buffered w = 0 \<longleftrightarrow> w_acked w = length (w_wire w)"
proof -
  have "\<forall>r \<in> set (drop (w_acked w) (w_wire w)). rq_frame r \<noteq> []"
    using assms(1) by (auto simp: queue_inv_def request_ok_def dest: in_set_dropD)
  then have "buffered w = 0 \<longleftrightarrow> drop (w_acked w) (w_wire w) = []"
    unfolding buffered_def by (cases "drop (w_acked w) (w_wire w)") auto
  with assms(2) show ?thesis by auto
qed

lemma held_inv_confirmed:
  assumes "held_inv w" "queue_inv w" "progress_inv w" "release_inv w" "w_rel w = RelDrain a"
    "buffered w = 0"
  shows "delivered_neutral w"
proof -
  have acked: "w_acked w = length (w_wire w)"
    using assms buffered_zero_iff by (auto simp: held_inv_def)
  have plan: "buildNeutralizationPlan (hc_held (w_core w)) = Inr (w_relPlan w)"
    using assms(4,5) by (auto simp: release_inv_def plan_phase_def)
  have "confirmed w = length (np_frames (w_relPlan w))" using assms(5) by (simp add: confirmed_def)
  moreover have "length (np_frames (w_relPlan w)) = (if hi_absoluteButtons (hc_held (w_core w)) then 3 else 2)"
    by (simp add: plan_frames(4) [OF plan])
  ultimately have c: "cleared (if hi_absoluteButtons (hc_held (w_core w)) then 3 else 2) (dev_of (w_wire w))"
    using assms(3) by (auto simp: progress_inv_def)
  have "dev_le (dev_of (take (length (w_wire w)) (w_wire w))) (hc_held (w_core w))"
    using assms(1) acked unfolding held_inv_def delivered_le_def by blast
  then have le: "dh_absolute (dev_of (w_wire w)) \<Longrightarrow> hi_absoluteButtons (hc_held (w_core w))"
    by (simp add: dev_le_def)
  have "\<not> dh_keyboard (dev_of (w_wire w))" "\<not> dh_relative (dev_of (w_wire w))"
    using c by (cases "hi_absoluteButtons (hc_held (w_core w))"; simp add: cleared_def)+
  moreover have "\<not> dh_absolute (dev_of (w_wire w))"
  proof
    assume "dh_absolute (dev_of (w_wire w))"
    with c le show False by (simp add: cleared_def)
  qed
  ultimately have "dev_of (w_wire w) = dev_neutral"
    by (intro dev_held.equality) (simp_all add: dev_neutral_def)
  with acked show ?thesis by (simp add: delivered_neutral_def)
qed

lemma held_inv_commit:
  assumes "held_inv w" "commit_write req c (w_core w) = (Inr d, h)"
  shows "held_inv (w\<lparr>w_core := h, w_writer := WSend req d\<rparr>)" (is "held_inv ?w'")
proof -
  have core: "hi_keyboard (hc_held (w_core w)) \<Longrightarrow> hi_keyboard (hc_held h)"
    "hi_absoluteButtons (hc_held (w_core w)) \<Longrightarrow> hi_absoluteButtons (hc_held h)"
    "hi_relativeButtons (hc_held (w_core w)) \<Longrightarrow> hi_relativeButtons (hc_held h)"
    "held_le req (hc_held h)"
    using assms(2) by (auto simp: commit_write_Inr_iff held_le_def held_add_grows split: option.splits)
  have "delivered_le ?w'"
    using assms(1) core(1-3) by (auto simp: held_inv_def delivered_le_def dev_le_def)
  moreover have "w_rel ?w' = RelClear \<longrightarrow> delivered_neutral ?w'"
    using assms(1) by (simp add: held_inv_def delivered_neutral_def)
  ultimately show ?thesis using assms(1) core(4) by (simp add: held_inv_def)
qed

lemma held_inv_cleared:
  assumes "queue_inv w" "release_inv w" "progress_inv w" "held_inv w" "w_rel w = RelClear"
    and "rp \<noteq> RelClear"
  shows "held_inv (w\<lparr>w_core := clear_held (w_relPlan w) (w_core w), w_rel := rp, g_outcome := go\<rparr>)"
    (is "held_inv ?w'")
proof -
  have "delivered_neutral w" using assms(4,5) by (simp add: held_inv_def)
  then have n: "delivered_neutral ?w'" by (simp add: delivered_neutral_def)
  have "0 < confirmed w"
    using assms(2,5) by (auto simp: confirmed_def release_inv_def plan_phase_def plan_frames(4))
  then have "\<not> inflight w" using assms(3) by (simp add: progress_inv_def)
  then have "held_le r h" if "w_writer w = WSend r d" for r d h
    using that assms(1) by (auto simp: inflight_def queue_inv_def pending_def request_ok_def held_le_def)
  moreover have "delivered_le ?w'"
    using n by (auto simp: delivered_neutral_def delivered_le_def dev_le_def dev_neutral_def)
  ultimately show ?thesis using n assms(4) by (auto simp: held_inv_def)
qed

lemma held_inv_step:
  assumes "hstep w w'" "queue_inv w" "release_inv w" "progress_inv w" "held_inv w"
  shows "held_inv w'"
  using assms(1)
proof (cases rule: hstep.cases)
  case (commit_refused req n e)
  then show ?thesis using drain_holds_nothing [OF assms(2)] by simp
next
  case (commit req d h)
  then show ?thesis using held_inv_commit [OF assms(5)] by blast
next
  case (send_error req d)
  then show ?thesis
    by (intro held_inv_accept [OF assms(5,2,4,3) send_error(2)]) (simp_all add: accept_frame_def)
next
  case (send_ok req d)
  then show ?thesis
    by (intro held_inv_accept [OF assms(5,2,4,3) send_ok(2)]) (simp_all add: accept_frame_def)
next
  case (send_drain req d)
  then show ?thesis
    by (intro held_inv_accept [OF assms(5,2,4,3) send_drain(2)]) (simp_all add: accept_frame_def)
next
  case ack
  with assms(5) show ?thesis by (auto simp: held_inv_def delivered_le_def delivered_neutral_def)
next
  case (rel_confirmed a)
  have "delivered_neutral w" using held_inv_confirmed [OF assms(5,2,4,3)] rel_confirmed by blast
  with rel_confirmed assms(5) show ?thesis
    by (simp add: held_inv_def delivered_le_def delivered_neutral_def)
next
  case (rel_cleared rp go)
  then have "rp \<noteq> RelClear" by auto
  with rel_cleared show ?thesis using held_inv_cleared [OF assms(2-5)] by blast
qed (use assms(5) in \<open>auto simp: held_inv_def delivered_le_def delivered_neutral_def core_op_defs
    beginLeaseLocked_Inr_iff\<close>)

lemma held_inv_reach: "hid_reach w \<Longrightarrow> held_inv w"
proof (induction rule: hid_reach_inv)
  case start
  show ?case
    by (simp add: held_inv_def delivered_le_def newHIDClient_def dev_le_def dev_neutral_def)
next
  case (step w w')
  then show ?case using held_inv_step queue_inv_reach release_inv_reach progress_inv_reach by blast
qed

section \<open>Sends, buffers and readiness\<close>

definition send_limit :: "hidRequest \<Rightarrow> nat" where
  "send_limit r = (if rq_privileged r then 4096 else 4074)"

definition sending_inv :: "world \<Rightarrow> bool" where
  "sending_inv w \<longleftrightarrow> buffered w \<le> 4096 \<and>
     (\<forall>r. w_writer w = WCommit r \<longrightarrow> buffered w + length (rq_frame r) \<le> send_limit r) \<and>
     (\<forall>r d. w_writer w = WSend r d \<longrightarrow> buffered w + length (rq_frame r) \<le> send_limit r \<and>
        (\<not> rq_privileged r \<longrightarrow>
           (rq_token r = hc_activeGen (w_core w) \<and> rq_token r \<noteq> 0 \<and> hc_state (w_core w) = Ready) \<or>
           g_since w = 0))"

lemma buffered_accept: "w_acked w \<le> length (w_wire w) \<Longrightarrow>
   buffered (accept_frame r w) = buffered w + length (rq_frame r)"
  by (simp add: buffered_def accept_frame_def)

lemma buffered_ack: "w_acked w < length (w_wire w) \<Longrightarrow>
   buffered (w\<lparr>w_acked := Suc (w_acked w)\<rparr>) \<le> buffered w"
  by (simp add: buffered_def) (subst (2) Cons_nth_drop_Suc [symmetric], simp_all)

lemma buffered_cong:
  "w_acked w' = w_acked w \<Longrightarrow> w_wire w' = w_wire w \<Longrightarrow> buffered w' = buffered w"
  by (simp add: buffered_def)

lemma checkBufferedAmount_Inr_iff:
  "checkBufferedAmount r n = Inr () \<longleftrightarrow> n + length (rq_frame r) \<le> send_limit r"
  by (auto simp: checkBufferedAmount_def send_limit_def hid_limits Let_def)

lemma sending_inv_step:
  assumes "hstep w w'" "held_inv w" "sending_inv w"
  shows "sending_inv w'"
  using assms(1)
proof (cases rule: hstep.cases)
  case (buffer_ok req)
  then show ?thesis
    using assms(3) buffered_cong [of w' w]
    by (simp add: sending_inv_def checkBufferedAmount_Inr_iff)
next
  case (commit req d h)
  then have "buffered w' = buffered w" by (intro buffered_cong) simp_all
  moreover have "rq_privileged req \<or> (rq_token req = hc_activeGen h \<and> rq_token req \<noteq> 0 \<and> hc_state h = Ready)"
    using commit(3) commit_write_core [OF commit(3)] checkWritableLocked_ordinary [of req "w_core w"]
    by (auto simp: commit_write_Inr_iff)
  ultimately show ?thesis using commit assms(3) by (auto simp: sending_inv_def)
next
  case (send_error req d)
  have "buffered w' = buffered (accept_frame req w)" unfolding send_error(1) by (rule buffered_cong) simp_all
  then show ?thesis
    using assms(2,3) send_error
    by (auto simp: sending_inv_def held_inv_def buffered_accept send_limit_def split: if_splits)
next
  case (send_ok req d)
  have "buffered w' = buffered (accept_frame req w)" unfolding send_ok(1) by (rule buffered_cong) simp_all
  then show ?thesis
    using assms(2,3) send_ok
    by (auto simp: sending_inv_def held_inv_def buffered_accept send_limit_def split: if_splits)
next
  case (send_drain req d)
  have "buffered w' = buffered (accept_frame req w)" unfolding send_drain(1) by (rule buffered_cong) simp_all
  then show ?thesis
    using assms(2,3) send_drain
    by (auto simp: sending_inv_def held_inv_def buffered_accept send_limit_def split: if_splits)
next
  case ack
  then show ?thesis
    using assms(3) buffered_ack [of w] by (auto simp: sending_inv_def dest: le_trans)
qed (use assms(3) buffered_cong [of w' w] in \<open>auto simp: sending_inv_def core_op_defs beginLeaseLocked_Inr_iff\<close>)

lemma sending_inv_reach: "hid_reach w \<Longrightarrow> sending_inv w"
proof (induction rule: hid_reach_inv)
  case start
  show ?case by (simp add: sending_inv_def newHIDClient_def buffered_def)
next
  case (step w w')
  then show ?case using sending_inv_step held_inv_reach by blast
qed

text \<open>Input needs the device's echo.\<close>

definition ready_inv :: "world \<Rightarrow> bool" where
  "ready_inv w \<longleftrightarrow>
     (hc_state (w_core w) = Ready \<longrightarrow> w_handshakeDone w) \<and>
     (w_hs w = HsConfirm \<longrightarrow> w_handshakeDone w) \<and>
     (inflight w \<longrightarrow> w_handshakeDone w) \<and>
     (\<forall>r \<in> set (w_wire w). rq_privileged r \<or> w_handshakeDone w) \<and>
     (w_hs w \<in> {HsEnqueue, HsEcho, HsConfirm} \<or> (\<exists>i. w_hs w = HsWait i) \<longrightarrow>
        hc_state (w_core w) \<in> {Handshaking, HidClosed}) \<and>
     (w_hs w = HsIdle \<longrightarrow> hc_state (w_core w) \<in> {Negotiating, HidClosed})"

lemma ready_inv_step:
  assumes "hstep w w'" "ready_inv w"
  shows "ready_inv w'"
  using assms(1)
proof (cases rule: hstep.cases)
  case (commit req d h)
  have "rq_privileged req \<or> hc_state (w_core w) = Ready"
    using commit(3) checkWritableLocked_ordinary [of req "w_core w"] by (auto simp: commit_write_Inr_iff)
  with commit assms(2) commit_write_core [OF commit(3)] show ?thesis
    by (auto simp: ready_inv_def inflight_def)
qed (use assms(2) in \<open>auto simp: ready_inv_def inflight_def core_op_defs beginLeaseLocked_Inr_iff
    split: if_splits\<close>)

lemma ready_inv_reach: "hid_reach w \<Longrightarrow> ready_inv w"
proof (induction rule: hid_reach_inv)
  case start
  show ?case by (simp add: ready_inv_def core_op_defs inflight_def)
next
  case (step w w')
  then show ?case using ready_inv_step by blast
qed

section \<open>The state only moves forward\<close>

lemma state_le_closed: "s \<le> HidClosed"
  by (cases s) (simp_all add: less_eq_hidState_def)

lemma negotiating_le: "Negotiating \<le> s"
  by (simp add: less_eq_hidState_def)

lemma hstep_state_mono:
  assumes "hstep w w'" "ready_inv w"
  shows "hc_state (w_core w) \<le> hc_state (w_core w')"
  using assms(1)
proof (cases rule: hstep.cases)
  case (commit req d h)
  then show ?thesis using commit_write_core [OF commit(3)] by simp
next
  case hs_ready
  then show ?thesis using assms(2) by (auto simp: ready_inv_def less_eq_hidState_def)
qed (auto simp: core_op_defs beginLeaseLocked_Inr_iff state_le_closed negotiating_le)

lemma hid_run_reach_inv:
  assumes "hid_reach w" "hid_run es w = Some w'"
    and "\<And>w w'. hid_reach w \<Longrightarrow> hstep w w' \<Longrightarrow> R w w'" "\<And>w. R w w"
    and "\<And>u v x. R u v \<Longrightarrow> R v x \<Longrightarrow> R u x"
  shows "R w w'"
  using assms(1,2)
proof (induction es arbitrary: w)
  case (Cons e es)
  then obtain v where v: "hid_step e w = Some v" "hid_run es v = Some w'"
    by (auto split: option.splits)
  then have "hid_reach v" using Cons.prems by (auto intro: hid_reach.step)
  then have "R v w'" using Cons.IH v by blast
  moreover have "R w v" using assms(3) Cons.prems(1) hid_step_hstep v(1) by blast
  ultimately show ?case using assms(5) by blast
qed (simp add: assms(4))

end
