(* ===== verification/Hid_Properties.thy ===== *)
theory Hid_Properties
  imports Hid_Safety
begin

text \<open>
  The properties of the HID control plane, \<open>hid.go\<close>, over every reachable world of
  \<open>Hid_System\<close>: every interleaving of callers, writer, handshake, releases, closes, peer
  acknowledgements and cancelled contexts.
\<close>

section \<open>A run to evaluate\<close>

text \<open>The handshake: context 0 drives it, the device echoes the frame.\<close>

definition handshake_events :: "hid_event list" where
  "handshake_events = [HsBegin 0, HsEnqueueFrame, PickPriority, CheckContext, CheckWritable,
     CheckBuffer, Commit, TransportSend True True, HsSent 0, DeviceMessage [1, 1], HsEchoed 0,
     HsConfirmReady 0]"

definition input_events :: "hid_send \<Rightarrow> u64 \<Rightarrow> hid_event list" where
  "input_events s tok = [Submit s 1 tok, PickPriority, SelectSend, CheckContext, CheckWritable,
     CheckBuffer, Commit]"

definition frame_events :: "hid_event list" where
  "frame_events = [RelEnqueue, PickPriority, CheckContext, CheckWritable, CheckBuffer, Commit,
     TransportSend True True, Acknowledge, RelResult]"

definition ready_world :: world where
  "ready_world = newHIDClient
     \<lparr>w_core := newHIDClient_core\<lparr>hc_state := Ready\<rparr>, w_wire := [privileged_request [1, 1] 0 0],
      w_results := (\<lambda>_. None)(0 := Some (Inr ())), w_nextId := 1, w_handshakeDone := True,
      w_hs := HsFinished (Inr ()), g_since := 1\<rparr>"

lemmas run_defs = writer_defs hs_defs rel_defs submit_def acknowledge_def
  handleMessage_def begin_lease_def cancel_ctx_def lifecycle_free_def
  handshake_start_def EncodeHandshake_eq privileged_request_def request_def hid_limits
  checkWritableLocked_def checkBufferedAmount_def commit_write_def finish_write_def
  complete_request_def buffered_def is_handshake_echo_def hidRequestResult_def
  beginLeaseLocked_def observe_revoked_def invalidateLeaseLocked_def closeWith_def close_world_def
  message_type_defs no_held_def held_any_def held_add_def clear_held_def finish_release_def
  rel_fail_def

lemma handshake_run: "hid_run handshake_events newHIDClient = Some ready_world"
  by (simp add: ready_world_def handshake_events_def newHIDClient_def newHIDClient_core_def run_defs Let_def)

lemma ready_world_reach: "hid_reach ready_world"
  by (rule hid_reach_run [OF hid_reach.start handshake_run])

text \<open>A lease on the ready client, and a pointer report with a pressed button on its way.\<close>

definition pressed :: hid_send where
  "pressed = SendPointerReport 7 9 1"

definition pressed_request :: hidRequest where
  "pressed_request = request [3, 0, 0, 0, 7, 0, 0, 0, 9, 1] 1 1 1
     (Some (no_held\<lparr>hi_absoluteButtons := True, hi_absolutePositionKnown := True,
                    hi_absoluteX := 7, hi_absoluteY := 9\<rparr>)) False"

definition sending_world :: world where
  "sending_world = ready_world
     \<lparr>w_core := (w_core ready_world)\<lparr>hc_genCounter := 1, hc_activeGen := 1,
        hc_activeDone := Some 0, hc_nextDone := 1,
        hc_held := no_held\<lparr>hi_absoluteButtons := True, hi_absolutePositionKnown := True,
                    hi_absoluteX := 7, hi_absoluteY := 9\<rparr>\<rparr>,
      w_writer := WSend pressed_request None, w_nextId := 2, g_since := 0, g_bumps := 1,
      g_issued := [1]\<rparr>"

lemma pressed_send: "send_request pressed 1 1 1 = Inr pressed_request"
  by (simp add: pressed_def pressed_request_def EncodePointerReport_Inr_iff pointer_in_range_def
      EncodePointerReport_def Marshal_def bound_defs message_type_defs put_u32_be_def)

lemma sending_run: "hid_run (BeginLease 1 # input_events pressed 1) ready_world = Some sending_world"
  using pressed_send
  by (simp add: sending_world_def ready_world_def input_events_def newHIDClient_def newHIDClient_core_def
      run_defs pressed_request_def Let_def)

lemma sending_world_reach: "hid_reach sending_world"
  by (rule hid_reach_run [OF ready_world_reach sending_run])

text \<open>The report goes out, then a release sends its three frames and sees them acknowledged.\<close>

definition pressed_world :: world where
  "pressed_world = sending_world
     \<lparr>w_writer := WTop, w_wire := [privileged_request [1, 1] 0 0, pressed_request],
      w_results := (\<lambda>_. None)(0 := Some (Inr ()), 1 := Some (Inr ())), w_acked := 2, g_since := 1\<rparr>"

lemma pressed_run:
  "hid_run [TransportSend True True, Acknowledge, Acknowledge] sending_world = Some pressed_world"
  by (simp add: pressed_world_def sending_world_def ready_world_def newHIDClient_def
      newHIDClient_core_def run_defs pressed_request_def fun_upd_def fun_eq_iff)

lemma pressed_world_reach: "hid_reach pressed_world"
  by (rule hid_reach_run [OF sending_world_reach pressed_run])

definition release_plan :: neutralizationPlan where
  "release_plan = \<lparr>np_frames = [[2, 0, 0, 0, 0, 0, 0, 0], [6, 0, 0, 0], [3, 0, 0, 0, 7, 0, 0, 0, 9, 0]],
     np_keyboard = True, np_relativeButtons = True, np_absoluteButtons = True\<rparr>"

definition clearing_world :: world where
  "clearing_world = pressed_world
     \<lparr>w_core := (w_core pressed_world)\<lparr>hc_genCounter := 2, hc_activeGen := 0, hc_activeDone := None\<rparr>,
      w_wire := [privileged_request [1, 1] 0 0, pressed_request,
        privileged_request [2, 0, 0, 0, 0, 0, 0, 0] 2 2, privileged_request [6, 0, 0, 0] 3 2,
        privileged_request [3, 0, 0, 0, 7, 0, 0, 0, 9, 0] 4 2],
      w_acked := 5, w_nextId := 5, w_relCtx := 2, w_rel := RelClear, w_relPlan := release_plan,
      w_results := (w_results pressed_world)(2 := Some (Inr ()), 3 := Some (Inr ()), 4 := Some (Inr ())),
      g_since := 3, g_bumps := 2\<rparr>"

lemma release_plan_built:
  "buildNeutralizationPlan (hc_held (w_core sending_world)) = Inr release_plan"
proof -
  have "replicate 6 (0::byte) = [0, 0, 0, 0, 0, 0]" by (simp add: numeral_eq_Suc)
  then show ?thesis
    by (simp add: buildNeutralizationPlan_def ReleaseAllKeyboardReport_eq ReleaseAllMouseReport_eq
        sending_world_def ready_world_def release_plan_def no_held_def
        EncodePointerReport_def Marshal_def bound_defs message_type_defs put_u32_be_def Let_def)
qed

definition releasing_world :: world where
  "releasing_world = pressed_world
     \<lparr>w_core := (w_core pressed_world)\<lparr>hc_genCounter := 2, hc_activeGen := 0, hc_activeDone := None\<rparr>,
      w_relCtx := 2, w_rel := RelSend 0 0, w_relPlan := release_plan, g_since := 0, g_bumps := 2\<rparr>"

lemma releasing_run: "hid_run [RelStart 2 None] pressed_world = Some releasing_world"
proof -
  have "hc_held (w_core pressed_world) = hc_held (w_core sending_world)"
    by (simp add: pressed_world_def)
  then show ?thesis
    using release_plan_built
    by (simp add: rel_start_def releasing_world_def pressed_world_def sending_world_def
      ready_world_def newHIDClient_def newHIDClient_core_def lifecycle_free_def observe_revoked_def
      invalidateLeaseLocked_def Let_def)
qed

lemma clearing_run:
  "hid_run (frame_events @ frame_events @ frame_events @ [RelDrained]) releasing_world = Some clearing_world"
  by (simp add: frame_events_def clearing_world_def releasing_world_def pressed_world_def
      sending_world_def ready_world_def newHIDClient_def newHIDClient_core_def run_defs
      pressed_request_def release_plan_def fun_upd_def fun_eq_iff)

lemma clearing_world_reach: "hid_reach clearing_world"
  by (rule hid_reach_run [OF hid_reach_run [OF pressed_world_reach releasing_run] clearing_run])

section \<open>Tokens, outcomes and drains\<close>

text \<open>Every ordinary frame is sent under a token some lease handed out.\<close>

definition token_inv :: "world \<Rightarrow> bool" where
  "token_inv w \<longleftrightarrow>
     (hc_activeGen (w_core w) \<noteq> 0 \<longrightarrow> hc_activeGen (w_core w) \<in> set (g_issued w)) \<and>
     (\<forall>r d. w_writer w = WSend r d \<longrightarrow> rq_privileged r \<or> rq_token r \<in> set (g_issued w)) \<and>
     (\<forall>r \<in> set (w_wire w). rq_privileged r \<or> rq_token r \<in> set (g_issued w))"

lemma token_inv_step:
  assumes "hstep w w'" "token_inv w"
  shows "token_inv w'"
  using assms(1)
proof (cases rule: hstep.cases)
  case (commit req d h)
  have "rq_privileged req \<or> (rq_token req = hc_activeGen (w_core w) \<and> hc_activeGen (w_core w) \<noteq> 0)"
    using commit(3) checkWritableLocked_ordinary [of req "w_core w"] by (auto simp: commit_write_Inr_iff)
  with commit assms(2) commit_write_core [OF commit(3)] show ?thesis by (auto simp: token_inv_def)
qed (use assms(2) in \<open>auto simp: token_inv_def core_op_defs beginLeaseLocked_Inr_iff\<close>)

lemma token_inv_reach: "hid_reach w \<Longrightarrow> token_inv w"
proof (induction rule: hid_reach_inv)
  case start
  show ?case by (simp add: token_inv_def core_op_defs)
next
  case (step w w')
  then show ?case using token_inv_step by blast
qed

text \<open>A release that is about to report success has nothing held.\<close>

lemma commit_while_revoked:
  assumes "commit_write req c h = (Inr d, h')" "request_ok req" "hc_activeGen h = 0"
  shows "h' = h"
  using assms checkWritableLocked_ordinary [of req h]
  by (cases "rq_privileged req") (auto simp: commit_write_Inr_iff request_ok_def)

definition outcome_inv :: "world \<Rightarrow> bool" where
  "outcome_inv w \<longleftrightarrow> (w_rel w = RelClose Neutralized \<longrightarrow> \<not> held_any (hc_held (w_core w)))"

lemma clear_plan_held:
  "buildNeutralizationPlan (hc_held h) = Inr plan \<Longrightarrow> \<not> held_any (hc_held (clear_held plan h))"
  by (auto simp: clear_held_def held_any_def plan_frames(1-3))

lemma outcome_inv_step:
  assumes "hstep w w'" "queue_inv w" "release_inv w" "outcome_inv w"
  shows "outcome_inv w'"
  using assms(1)
proof (cases rule: hstep.cases)
  case (commit_refused req n e)
  then show ?thesis using drain_holds_nothing [OF assms(2)] by simp
next
  case (commit req d h)
  have "request_ok req" using commit assms(2) by (simp add: queue_inv_def pending_def)
  with commit assms(3,4) commit_while_revoked [OF commit(3)] show ?thesis
    by (auto simp: outcome_inv_def release_inv_def)
next
  case (rel_cleared rp go)
  then show ?thesis
    using assms(3) clear_plan_held [of "w_core w" "w_relPlan w"]
    by (auto simp: outcome_inv_def release_inv_def plan_phase_def)
qed (use assms(4) in \<open>auto simp: outcome_inv_def core_op_defs beginLeaseLocked_Inr_iff\<close>)

lemma outcome_inv_reach: "hid_reach w \<Longrightarrow> outcome_inv w"
proof (induction rule: hid_reach_inv)
  case start
  show ?case by (simp add: outcome_inv_def core_op_defs)
next
  case (step w w')
  then show ?case using outcome_inv_step queue_inv_reach release_inv_reach by blast
qed

text \<open>A draining write always has a generation's channel to wait on.\<close>

definition drain_inv :: "world \<Rightarrow> bool" where
  "drain_inv w \<longleftrightarrow> (\<forall>r d. (w_writer w = WSend r d \<and> rq_drain r) \<or> w_writer w = WDrain r d \<longrightarrow> d \<noteq> None)"

lemma drain_inv_reach: "hid_reach w \<Longrightarrow> drain_inv w"
proof (induction rule: hid_reach_inv)
  case start
  show ?case by (simp add: drain_inv_def core_op_defs)
next
  case (step w w')
  from step(2) show ?case
  proof (cases rule: hstep.cases)
    case (commit req d h)
    then show ?thesis by (auto simp: drain_inv_def commit_write_Inr_iff)
  qed (use step(3) in \<open>auto simp: drain_inv_def core_op_defs\<close>)
qed

text \<open>A release that still has to close knows the cause.\<close>

lemma rel_cause_reach: "hid_reach w \<Longrightarrow> \<forall>out. w_rel w = RelClose out \<longrightarrow> w_relCause w \<noteq> None"
proof (induction rule: hid_reach.induct)
  case start
  show ?case by (simp add: newHIDClient_def)
next
  case (step w e w')
  then show ?case
    by (cases e)
      (auto simp: writer_defs hs_defs rel_defs submit_def cancel_ctx_def acknowledge_def
        handleMessage_def begin_lease_def Let_def hs_abort_def close_world_def observe_revoked_def
        finish_release_def rel_fail_def lifecycle_free_def
        split: if_splits option.splits writer_pc.splits list.splits sum.splits release_pc.splits
          handshake_pc.splits readiness.splits bool.splits prod.splits)
qed

text \<open>Without held input the device is neutral, whatever part of the wire it has read.\<close>

lemma neutral_when_not_held:
  assumes "hid_reach w" "\<not> held_any (hc_held (w_core w))"
  shows "delivered_neutral w"
proof -
  have neutral: "d = dev_neutral" if "dev_le d (hc_held (w_core w))" for d
    using that assms(2)
    by (intro dev_held.equality) (simp_all add: dev_le_def held_any_def dev_neutral_def)
  have "delivered_le w" using held_inv_reach [OF assms(1)] by (simp add: held_inv_def)
  then show ?thesis unfolding delivered_le_def delivered_neutral_def using neutral by blast
qed

section \<open>The device at the other end\<close>

text \<open>
  The fake device of the repository's tests keeps the buttons of both pointers; the bits of
  \<open>dev_held\<close> say whether they are down.
\<close>

definition fake_device :: "hidRequest list \<Rightarrow> device" where
  "fake_device rs = fold (\<lambda>r d. snd (device_receive (rq_frame r) d)) rs device_init"

lemma dev_apply_device:
  assumes "dh_absolute d \<longleftrightarrow> am_buttons (hidg1 f) \<noteq> 0" "dh_relative d \<longleftrightarrow> rm_buttons (hidg2 f) \<noteq> 0"
  shows "dh_absolute (dev_apply frm d) \<longleftrightarrow> am_buttons (hidg1 (snd (device_receive frm f))) \<noteq> 0"
    "dh_relative (dev_apply frm d) \<longleftrightarrow> rm_buttons (hidg2 (snd (device_receive frm f))) \<noteq> 0"
  using assms
  by (auto simp: dev_apply_def device_receive_def recordHID_def Let_def message_type_defs
      split: sum.splits if_splits)

lemma dev_of_device:
  "dh_absolute (dev_of rs) \<longleftrightarrow> am_buttons (hidg1 (fake_device rs)) \<noteq> 0"
  "dh_relative (dev_of rs) \<longleftrightarrow> rm_buttons (hidg2 (fake_device rs)) \<noteq> 0"
proof (induction rs rule: rev_induct)
  case Nil
  { case 1 show ?case by (simp add: fake_device_def device_init_def dev_neutral_def)
  next case 2 show ?case by (simp add: fake_device_def device_init_def dev_neutral_def) }
next
  case (snoc r rs)
  { case 1 show ?case using dev_apply_device(1) [OF snoc] by (simp add: fake_device_def)
  next case 2 show ?case using dev_apply_device(2) [OF snoc] by (simp add: fake_device_def) }
qed

lemma neutral_device:
  "dev_of rs = dev_neutral \<Longrightarrow>
   am_buttons (hidg1 (fake_device rs)) = 0 \<and> rm_buttons (hidg2 (fake_device rs)) = 0"
  using dev_of_device [of rs] by (simp add: dev_neutral_def)

text \<open>A step other than a new lease leaves the issued tokens alone.\<close>

lemma step_issued:
  assumes "hid_step e w = Some w'" "\<And>c. e \<noteq> BeginLease c"
  shows "g_issued w' = g_issued w"
  using assms
  by (cases e)
    (auto simp: writer_defs hs_defs rel_defs submit_def cancel_ctx_def acknowledge_def
      handleMessage_def Let_def hs_abort_def close_world_def observe_revoked_def
      finish_release_def rel_fail_def
      split: if_splits option.splits writer_pc.splits list.splits sum.splits release_pc.splits
        handshake_pc.splits readiness.splits bool.splits prod.splits)

lemma stays_neutral_step:
  assumes "hid_reach w" "hstep w w'" "g_issued w' = g_issued w"
    "\<not> held_any (hc_held (w_core w))" "hc_activeGen (w_core w) = 0"
  shows "\<not> held_any (hc_held (w_core w')) \<and> hc_activeGen (w_core w') = 0"
  using assms(2)
proof (cases rule: hstep.cases)
  case (commit_refused req n e)
  then show ?thesis using drain_holds_nothing [OF queue_inv_reach [OF assms(1)]] by simp
next
  case (commit req d h)
  have "request_ok req"
    using queue_inv_reach [OF assms(1)] commit by (simp add: queue_inv_def pending_def)
  with commit assms(4,5) commit_while_revoked [OF commit(3)] show ?thesis by simp
qed (use assms(3-5) in \<open>auto simp: core_op_defs held_any_def\<close>)

lemma stays_neutral_run:
  assumes "hid_reach w" "hid_run es w = Some w'" "\<forall>c. BeginLease c \<notin> set es"
    "\<not> held_any (hc_held (w_core w))" "hc_activeGen (w_core w) = 0"
  shows "\<not> held_any (hc_held (w_core w'))"
  using assms
proof (induction es arbitrary: w)
  case (Cons e es)
  then obtain v where v: "hid_step e w = Some v" "hid_run es v = Some w'"
    by (auto split: option.splits)
  then have "g_issued v = g_issued w" using Cons.prems(3) by (intro step_issued [of e]) auto
  then have "\<not> held_any (hc_held (w_core v)) \<and> hc_activeGen (w_core v) = 0"
    using stays_neutral_step Cons.prems v(1) hid_step_hstep by blast
  with Cons v show ?case by (auto intro: hid_reach.step)
qed simp

text \<open>How a release ends with success: three steps can report it.\<close>

lemma step_ends_release:
  assumes "hid_step e w = Some w'" "w_rel w \<noteq> RelIdle" "w_rel w' = RelIdle"
  shows "e \<in> {RelResult, RelWriterGone, RelCtxDone, RelClearStep, RelCloseStep}"
  using assms
  by (cases e)
    (auto simp: writer_defs hs_defs rel_defs submit_def cancel_ctx_def acknowledge_def
      handleMessage_def begin_lease_def Let_def hs_abort_def close_world_def observe_revoked_def
      lifecycle_free_def
      split: if_splits option.splits writer_pc.splits list.splits sum.splits release_pc.splits
        handshake_pc.splits readiness.splits bool.splits prod.splits)

lemma rel_fail_not_neutralized:
  "w_rel (rel_fail a w) = RelIdle \<Longrightarrow> g_outcome (rel_fail a w) = Some Unverified"
  by (auto simp: rel_fail_def finish_release_def split: if_splits option.splits)

lemma failure_not_neutralized:
  assumes "hid_step e w = Some w'" "e \<in> {RelResult, RelWriterGone, RelCtxDone}" "w_rel w' = RelIdle"
    "w_rel w \<noteq> RelIdle"
  shows "g_outcome w' = Some Unverified"
  using assms
  by (auto simp: rel_result_def rel_writer_gone_def rel_ctx_done_def rel_fail_not_neutralized
      finish_release_def split: release_pc.splits option.splits sum.splits if_splits)

lemma rel_clear_ends:
  assumes "hid_reach w" "rel_clear w = Some w'"
  shows "\<not> held_any (hc_held (w_core w')) \<and> hc_activeGen (w_core w') = 0"
proof -
  have "w_rel w = RelClear" using assms(2) by (auto simp: rel_clear_def split: if_splits)
  then have "hc_activeGen (w_core w) = 0"
    "buildNeutralizationPlan (hc_held (w_core w)) = Inr (w_relPlan w)"
    using release_inv_reach [OF assms(1)] by (auto simp: release_inv_def plan_phase_def)
  moreover have "w_core w' = clear_held (w_relPlan w) (w_core w)"
    using assms(2) by (auto simp: rel_clear_def finish_release_def split: if_splits option.splits)
  ultimately show ?thesis using clear_plan_held by (simp add: clear_held_def)
qed

lemma close_world_core: "w_core (close_world c w) = closeWith c (w_core w)"
  by (simp add: close_world_def observe_revoked_def Let_def)

lemma rel_close_ends:
  assumes "hid_reach w" "rel_close w = Some w'" "g_outcome w' = Some Neutralized"
  shows "\<not> held_any (hc_held (w_core w')) \<and> hc_activeGen (w_core w') = 0"
proof -
  have r: "w_rel w = RelClose Neutralized"
    using assms(2,3) by (auto simp: rel_close_def split: release_pc.splits option.splits)
  obtain c where "w_core w' = closeWith c (w_core w)"
    using assms(2) by (auto simp: rel_close_def close_world_core split: release_pc.splits option.splits)
  then show ?thesis
    using r outcome_inv_reach [OF assms(1)] release_inv_reach [OF assms(1)]
    by (simp add: outcome_inv_def release_inv_def closeWith_def invalidateLeaseLocked_def)
qed

lemma rel_start_ends:
  assumes "rel_start ctx cause w = Some w'" "w_rel w' = RelIdle" "g_outcome w' = Some Neutralized"
  shows "\<not> held_any (hc_held (w_core w')) \<and> hc_activeGen (w_core w') = 0"
  using assms
  by (auto simp: rel_start_def observe_revoked_def invalidateLeaseLocked_def Let_def
      finish_release_def split: if_splits option.splits sum.splits)

lemma release_ends:
  assumes "hid_reach w" "hid_step e w = Some w'"
    and "w_rel w \<noteq> RelIdle \<or> (\<exists>ctx cause. e = RelStart ctx cause)"
    and "w_rel w' = RelIdle" "g_outcome w' = Some Neutralized"
  shows "\<not> held_any (hc_held (w_core w')) \<and> hc_activeGen (w_core w') = 0"
proof (cases "\<exists>ctx cause. e = RelStart ctx cause")
  case True
  then show ?thesis using assms(2,4,5) rel_start_ends by auto
next
  case False
  then have busy: "w_rel w \<noteq> RelIdle" using assms(3) by blast
  with step_ends_release [OF assms(2) busy assms(4)]
    failure_not_neutralized [OF assms(2) _ assms(4) busy] assms(5)
  have "e \<in> {RelClearStep, RelCloseStep}" by auto
  then show ?thesis using assms(1,2,5) rel_clear_ends rel_close_ends by auto
qed

section \<open>Held input and its release\<close>

text \<open>
  C1. The record of held input is conservative. Whatever part of the bytes on the wire the
  device has read, from the acknowledged frames up to all of them, it has nothing down that
  the client does not record as held: no key, no absolute and no relative button. This holds
  in every interleaving, also when a send failed after its bytes went out.
\<close>

theorem held_record_is_conservative:
  assumes "hid_reach w" and "w_acked w \<le> k" and "k \<le> length (w_wire w)"
  shows "dev_le (dev_of (take k (w_wire w))) (hc_held (w_core w)) \<and>
    (am_buttons (hidg1 (fake_device (take k (w_wire w)))) \<noteq> 0 \<longrightarrow>
       hi_absoluteButtons (hc_held (w_core w))) \<and>
    (rm_buttons (hidg2 (fake_device (take k (w_wire w)))) \<noteq> 0 \<longrightarrow>
       hi_relativeButtons (hc_held (w_core w)))"
proof -
  have "dev_le (dev_of (take k (w_wire w))) (hc_held (w_core w))"
    using held_inv_reach [OF assms(1)] assms(2,3) by (simp add: held_inv_def delivered_le_def)
  then show ?thesis using dev_of_device [of "take k (w_wire w)"] by (simp add: dev_le_def)
qed

theorem held_record_is_conservative_witness:
  "hi_absoluteButtons (hc_held (w_core pressed_world)) \<and>
   dev_le (dev_of (take 2 (w_wire pressed_world))) (hc_held (w_core pressed_world)) \<and>
   dh_absolute (dev_of (take 2 (w_wire pressed_world)))"
  using held_record_is_conservative [OF pressed_world_reach, of 2]
  by (simp add: pressed_world_def sending_world_def pressed_request_def request_def dev_of_def
      dev_apply_def privileged_request_def message_type_defs Let_def)

text \<open>
  C2. A release that reports success has neutralized the device. When \<open>releaseAll\<close> or
  \<open>releaseAllAndClose\<close> ends with a nil error, every part of the wire the device may have read
  leaves all three interfaces neutral, the record is empty, no lease is active, and the fake
  device has no button down.
\<close>

theorem release_neutralizes:
  assumes "hid_reach w" and "hid_step e w = Some w'"
    and "w_rel w \<noteq> RelIdle \<or> (\<exists>ctx cause. e = RelStart ctx cause)"
    and "w_rel w' = RelIdle" and "g_outcome w' = Some Neutralized"
    and "w_acked w' \<le> k" and "k \<le> length (w_wire w')"
  shows "dev_of (take k (w_wire w')) = dev_neutral \<and> \<not> held_any (hc_held (w_core w')) \<and>
    hc_activeGen (w_core w') = 0 \<and>
    am_buttons (hidg1 (fake_device (take k (w_wire w')))) = 0 \<and>
    rm_buttons (hidg2 (fake_device (take k (w_wire w')))) = 0"
proof -
  have reach: "hid_reach w'" using assms(1,2) by (rule hid_reach.step)
  have fin: "\<not> held_any (hc_held (w_core w')) \<and> hc_activeGen (w_core w') = 0"
    using release_ends [OF assms(1-5)] .
  then have "delivered_neutral w'" using neutral_when_not_held reach by blast
  then have "dev_of (take k (w_wire w')) = dev_neutral"
    using assms(6,7) by (simp add: delivered_neutral_def)
  with fin show ?thesis using neutral_device by blast
qed

theorem release_neutralizes_witness:
  "dh_absolute (dev_of (take 2 (w_wire clearing_world))) \<and>
   (\<exists>w'. hid_step RelClearStep clearing_world = Some w' \<and> g_outcome w' = Some Neutralized \<and>
      dev_of (take 5 (w_wire w')) = dev_neutral)"
proof -
  let ?w = "finish_release Neutralized
    (clearing_world\<lparr>w_core := clear_held (w_relPlan clearing_world) (w_core clearing_world)\<rparr>)"
  have st: "hid_step RelClearStep clearing_world = Some ?w"
    by (simp add: rel_clear_def clearing_world_def)
  have f: "w_rel clearing_world \<noteq> RelIdle" "w_rel ?w = RelIdle" "g_outcome ?w = Some Neutralized"
    "w_acked ?w = 5" "length (w_wire ?w) = 5"
    by (simp_all add: finish_release_def clearing_world_def pressed_world_def sending_world_def
        ready_world_def newHIDClient_def)
  have "dev_of (take 5 (w_wire ?w)) = dev_neutral"
    using release_neutralizes [OF clearing_world_reach st disjI1 [OF f(1)] f(2,3), of 5] f(4,5)
    by simp
  moreover have "dh_absolute (dev_of (take 2 (w_wire clearing_world)))"
    by (simp add: clearing_world_def pressed_request_def request_def dev_of_def
      dev_apply_def privileged_request_def message_type_defs Let_def)
  ultimately show ?thesis using st f(3) by blast
qed

text \<open>
  C7. A released device stays neutral. From a world without held input and without an active
  lease, whatever happens (queued and late input, failed sends, handshakes, closes, further
  releases) the record stays empty and the device stays neutral until a new lease begins.
\<close>

theorem released_device_stays_neutral:
  assumes "hid_reach w" and "\<not> held_any (hc_held (w_core w))" and "hc_activeGen (w_core w) = 0"
    and "hid_run es w = Some w'" and "\<forall>c. BeginLease c \<notin> set es"
    and "w_acked w' \<le> k" and "k \<le> length (w_wire w')"
  shows "dev_of (take k (w_wire w')) = dev_neutral \<and> \<not> held_any (hc_held (w_core w'))"
proof -
  have free: "\<not> held_any (hc_held (w_core w'))"
    using stays_neutral_run [OF assms(1,4,5,2,3)] .
  then have "delivered_neutral w'"
    using neutral_when_not_held hid_reach_run [OF assms(1,4)] by blast
  with free assms(6,7) show ?thesis by (simp add: delivered_neutral_def)
qed

text \<open>The lease is gone by the time a report with a button down is submitted.\<close>

theorem released_device_stays_neutral_witness:
  "\<exists>w'. hid_run [Submit pressed 1 1, PickPriority, SelectSend, CheckContext, CheckWritable] ready_world = Some w' \<and>
     dev_of (take 1 (w_wire w')) = dev_neutral"
proof -
  let ?es = "[Submit pressed 1 1, PickPriority, SelectSend, CheckContext, CheckWritable]"
  let ?w = "ready_world\<lparr>w_results := (w_results ready_world)(1 := Some (Inl ErrStaleControlToken)),
    w_nextId := 2\<rparr>"
  have run: "hid_run ?es ready_world = Some ?w"
    using pressed_send
    by (simp add: ready_world_def newHIDClient_def newHIDClient_core_def run_defs pressed_request_def)
  have "dev_of (take 1 (w_wire ?w)) = dev_neutral"
    using released_device_stays_neutral [OF ready_world_reach _ _ run, of 1]
    by (simp add: ready_world_def newHIDClient_def newHIDClient_core_def held_any_def no_held_def)
  then show ?thesis using run by blast
qed

section \<open>Leases\<close>

lemma unat_u64_small: "n < 2 ^ 64 \<Longrightarrow> unat (of_nat n :: u64) = n"
  by (simp add: unsigned_of_nat take_bit_nat_eq_self)

lemma hid_run_then:
  "hid_run (es1 @ es2) w = (case hid_run es1 w of None \<Rightarrow> None | Some v \<Rightarrow> hid_run es2 v)"
  by (induction es1 arbitrary: w) (auto split: option.splits)

text \<open>Only \<open>Commit\<close> brings the writer to the transport call.\<close>

lemma send_origin:
  assumes "hid_step e w = Some w'" "w_writer w' = WSend r d"
  shows "w_wire w' = w_wire w \<and>
    (w_writer w = WSend r d \<or>
     (e = Commit \<and> w_writer w = WCommit r \<and>
      (\<exists>h. commit_write r (w_deadCtx w (rq_ctx r)) (w_core w) = (Inr d, h))))"
  using assms
  by (cases e)
    (auto simp: writer_defs hs_defs rel_defs submit_def cancel_ctx_def acknowledge_def
      handleMessage_def begin_lease_def Let_def hs_abort_def close_world_def observe_revoked_def
      finish_release_def rel_fail_def lifecycle_free_def
      split: if_splits option.splits writer_pc.splits list.splits sum.splits release_pc.splits
        handshake_pc.splits readiness.splits bool.splits prod.splits)

lemma send_was_committed:
  assumes "hid_run es newHIDClient = Some w" "w_writer w = WSend r d"
  shows "\<exists>es1 es2 w0 h. es = es1 @ Commit # es2 \<and> hid_run es1 newHIDClient = Some w0 \<and>
    w_writer w0 = WCommit r \<and> w_wire w0 = w_wire w \<and>
    commit_write r (w_deadCtx w0 (rq_ctx r)) (w_core w0) = (Inr d, h)"
  using assms
proof (induction es arbitrary: w rule: rev_induct)
  case Nil
  then show ?case by (auto simp: newHIDClient_def)
next
  case (snoc e es)
  then obtain v where v: "hid_run es newHIDClient = Some v" "hid_step e v = Some w"
    by (auto simp: hid_run_then split: option.splits)
  from send_origin [OF v(2) snoc.prems(2)] show ?case
  proof (elim conjE disjE exE)
    assume "w_writer v = WSend r d" "w_wire w = w_wire v"
    with snoc.IH [OF v(1)] obtain es1 es2 w0 h where
      "es = es1 @ Commit # es2" "hid_run es1 newHIDClient = Some w0" "w_writer w0 = WCommit r"
      "w_wire w0 = w_wire w" "commit_write r (w_deadCtx w0 (rq_ctx r)) (w_core w0) = (Inr d, h)"
      by auto
    then show ?thesis by (intro exI [of _ es1] exI [of _ "es2 @ [e]"]) auto
  next
    fix h
    assume "w_wire w = w_wire v" "e = Commit" "w_writer v = WCommit r"
      "commit_write r (w_deadCtx v (rq_ctx r)) (w_core v) = (Inr d, h)"
    then show ?thesis using v(1) by (intro exI [of _ es] exI [of _ "[]"] exI [of _ v] exI [of _ h]) simp
  qed
qed

text \<open>
  C3. Input reaches the transport only under a lease. Every ordinary frame that any step of any
  run puts on the wire was committed earlier in that run, by the final locked check of the
  writer: at that moment the channel was ready, the device had echoed the handshake, the token
  of the frame was the active generation, which a \<open>beginLease\<close> had handed out, and the context
  of its caller had not ended. No other frame went out in between. So a frame whose lease was
  revoked before that check never goes out, and a revocation after it lets this one frame through.
\<close>

theorem input_needs_live_lease:
  assumes "hid_run es newHIDClient = Some w" and "hid_step e w = Some w'"
    and "w_wire w' = w_wire w @ [r]" and "\<not> rq_privileged r"
  shows "\<exists>es1 es2 w0. es = es1 @ Commit # es2 \<and> hid_run es1 newHIDClient = Some w0 \<and>
    w_writer w0 = WCommit r \<and> w_wire w0 = w_wire w \<and>
    hc_state (w_core w0) = Ready \<and> w_handshakeDone w0 \<and>
    rq_token r = hc_activeGen (w_core w0) \<and> rq_token r \<noteq> 0 \<and> rq_token r \<in> set (g_issued w0) \<and>
    \<not> w_deadCtx w0 (rq_ctx r)"
proof -
  obtain d where d: "w_writer w = WSend r d"
    using hid_step_hstep [OF assms(2)] assms(3)
    by (cases rule: hstep.cases) (auto simp: core_op_defs)
  obtain es1 es2 w0 h where c: "es = es1 @ Commit # es2" "hid_run es1 newHIDClient = Some w0"
    "w_writer w0 = WCommit r" "w_wire w0 = w_wire w"
    "commit_write r (w_deadCtx w0 (rq_ctx r)) (w_core w0) = (Inr d, h)"
    using send_was_committed [OF assms(1) d] by blast
  have reach: "hid_reach w0" using hid_reach_run [OF hid_reach.start c(2)] .
  have ok: "checkWritableLocked r (w_core w0) = Inr ()" "\<not> w_deadCtx w0 (rq_ctx r)"
    using c(5) by (auto simp: commit_write_Inr_iff)
  have live: "hc_state (w_core w0) = Ready" "rq_token r = hc_activeGen (w_core w0)" "rq_token r \<noteq> 0"
    using checkWritableLocked_ordinary [OF assms(4)] ok(1) by auto
  moreover have "w_handshakeDone w0" using ready_inv_reach [OF reach] live(1) by (simp add: ready_inv_def)
  moreover have "rq_token r \<in> set (g_issued w0)"
    using token_inv_reach [OF reach] live by (auto simp: token_inv_def)
  ultimately show ?thesis using c(1-4) ok(2) by blast
qed

theorem input_needs_live_lease_witness:
  "\<exists>es1 w0. hid_run es1 newHIDClient = Some w0 \<and> w_writer w0 = WCommit pressed_request \<and>
     hc_activeGen (w_core w0) = 1 \<and> 1 \<in> set (g_issued w0)"
proof -
  have run: "hid_run (handshake_events @ BeginLease 1 # input_events pressed 1) newHIDClient =
      Some sending_world"
    unfolding hid_run_then handshake_run option.case by (rule sending_run)
  obtain w' where st: "hid_step (TransportSend True True) sending_world = Some w'"
    "w_wire w' = w_wire sending_world @ [pressed_request]"
    by (simp add: write_send_def sending_world_def pressed_request_def request_def)
  have r: "\<not> rq_privileged pressed_request" "rq_token pressed_request = 1"
    by (simp_all add: pressed_request_def request_def)
  show ?thesis using input_needs_live_lease [OF run st r(1)] r(2) by metis
qed

lemma issued_distinct:
  assumes "hid_reach w" and "g_bumps w < 2 ^ 64"
  shows "distinct (g_issued w) \<and> 0 \<notin> set (g_issued w)"
proof -
  obtain ns where ns: "g_issued w = map of_nat ns" "sorted_wrt (<) ns"
    "\<forall>n \<in> set ns. 0 < n \<and> n \<le> g_bumps w"
    using issued_inv_reach [OF assms(1)] unfolding issued_inv_def by blast
  have small: "unat (of_nat n :: u64) = n" if "n \<in> set ns" for n
    using that ns(3) assms(2) by (intro unat_u64_small) (auto intro: le_less_trans)
  have "map unat (g_issued w) = ns"
    unfolding ns(1) using small by (simp add: map_idI)
  moreover have "distinct ns" using ns(2) by (simp add: strict_sorted_iff)
  ultimately have "distinct (g_issued w)" by (metis distinct_map)
  moreover have "(of_nat n :: u64) \<noteq> 0" if "n \<in> set ns" for n
    using small [OF that] ns(3) that by fastforce
  then have "0 \<notin> set (g_issued w)" unfolding ns(1) by force
  ultimately show ?thesis ..
qed

text \<open>
  C9. Tokens are fresh. As long as the 64-bit generation counter has not wrapped, no lease
  gets the zero token and no two leases get the same token.
\<close>

theorem lease_tokens_are_fresh:
  assumes "hid_reach w" and "g_bumps w < 2 ^ 64"
  shows "distinct (g_issued w) \<and> 0 \<notin> set (g_issued w)"
  using assms by (rule issued_distinct)

text \<open>The witness: a second lease after a release that had to give up.\<close>

theorem lease_tokens_are_fresh_witness:
  "\<exists>w'. hid_run [BeginLease 1, RelStart 2 None, CancelCtx 2, RelCtxDone, BeginLease 1] ready_world = Some w' \<and>
     g_issued w' = [1, 3] \<and> distinct (g_issued w')"
proof -
  let ?es = "[BeginLease 1, RelStart 2 None, CancelCtx 2, RelCtxDone, BeginLease 1]"
  obtain w' where run: "hid_run ?es ready_world = Some w'" "g_issued w' = [1, 3]" "g_bumps w' = 3"
    by (simp add: ready_world_def newHIDClient_def newHIDClient_core_def run_defs Let_def
        buildNeutralizationPlan_def ReleaseAllKeyboardReport_eq ReleaseAllMouseReport_eq)
  have "distinct (g_issued w')"
    using lease_tokens_are_fresh [OF hid_reach_run [OF ready_world_reach run(1)]] run(3) by simp
  with run show ?thesis by blast
qed

lemma bumps_mono: "hstep w w' \<Longrightarrow> g_bumps w \<le> g_bumps w'"
  by (erule hstep.cases) (auto simp: core_op_defs)

text \<open>
  The contract of a provider of lease tokens: a step hands out at most one token, which is then the
  active one, and otherwise keeps or ends the active one; tokens are never handed out twice.
\<close>

locale generations =
  fixes step :: "'e \<Rightarrow> 'w \<Rightarrow> 'w option"
    and reach :: "'w \<Rightarrow> bool"
    and bound :: "'w \<Rightarrow> bool"
    and active :: "'w \<Rightarrow> 't::zero"
    and issued :: "'w \<Rightarrow> 't list"
  assumes reach_step: "reach w \<Longrightarrow> step e w = Some w' \<Longrightarrow> reach w'"
    and bound_back: "reach w \<Longrightarrow> step e w = Some w' \<Longrightarrow> bound w' \<Longrightarrow> bound w"
    and issue: "reach w \<Longrightarrow> step e w = Some w' \<Longrightarrow>
      issued w' = issued w \<and> (active w' = active w \<or> active w' = 0) \<or> issued w' = issued w @ [active w']"
    and unique: "reach w \<Longrightarrow> bound w \<Longrightarrow> distinct (issued w) \<and> 0 \<notin> set (issued w)"
begin

lemma stale_step:
  assumes "reach w" "step e w = Some w'" "bound w'" "t \<in> set (issued w)" "t \<noteq> active w"
  shows "t \<in> set (issued w') \<and> t \<noteq> active w'"
  using issue [OF assms(1,2)] unique [OF reach_step [OF assms(1,2)] assms(3)] assms(4,5) by auto

lemma fresh_step:
  assumes "reach w" "step e w = Some w'" "bound w'" "issued w' \<noteq> issued w"
  shows "active w' \<notin> set (issued w) \<and> issued w' = issued w @ [active w']"
  using issue [OF assms(1,2)] unique [OF reach_step [OF assms(1,2)] assms(3)] assms(4) by auto

lemma active_step:
  assumes "reach w" "step e w = Some w'" "issued w' = issued w"
  shows "active w' = active w \<or> active w' = 0"
  using issue [OF assms(1,2)] assms(3) by auto

lemma reach_run: "(\<lambda>w w'. \<exists>e. step e w = Some w')\<^sup>*\<^sup>* w w' \<Longrightarrow> reach w \<Longrightarrow> reach w'"
  by (induction rule: rtranclp_induct) (auto intro: reach_step)

lemma stale_run:
  assumes "(\<lambda>w w'. \<exists>e. step e w = Some w')\<^sup>*\<^sup>* w w'" "reach w"
    and "bound w'" "t \<in> set (issued w)" "t \<noteq> active w"
  shows "reach w' \<and> t \<in> set (issued w') \<and> t \<noteq> active w'"
  using assms
proof (induction rule: rtranclp_induct)
  case (step u v)
  then obtain e where e: "step e u = Some v" by blast
  have "reach u" using reach_run step.hyps(1) step.prems(1) .
  then have "bound u" using bound_back [OF _ e step.prems(2)] by blast
  with step.IH step.prems \<open>reach u\<close> show ?case
    using stale_step [OF _ e step.prems(2)] reach_step [OF _ e] by blast
qed simp

end

lemma hid_step_issue:
  assumes "hid_reach w" "hid_step e w = Some w'"
  shows "g_issued w' = g_issued w \<and>
      (hc_activeGen (w_core w') = hc_activeGen (w_core w) \<or> hc_activeGen (w_core w') = 0) \<or>
    g_issued w' = g_issued w @ [hc_activeGen (w_core w')]"
  using hid_step_hstep [OF assms(2)]
  by (cases rule: hstep.cases) (auto simp: core_op_defs beginLeaseLocked_Inr_iff commit_write_core)

interpretation lease_tokens: generations hid_step hid_reach "\<lambda>w. g_bumps w < 2 ^ 64"
  "\<lambda>w. hc_activeGen (w_core w)" g_issued
proof unfold_locales
  fix w e w'
  assume r: "hid_reach w" "hid_step e w = Some w'"
  show "hid_reach w'" using r by (rule hid_reach.step)
  show "g_bumps w' < 2 ^ 64 \<Longrightarrow> g_bumps w < 2 ^ 64"
    using bumps_mono [OF hid_step_hstep [OF r(2)]] by simp
  show "g_issued w' = g_issued w \<and>
      (hc_activeGen (w_core w') = hc_activeGen (w_core w) \<or> hc_activeGen (w_core w') = 0) \<or>
    g_issued w' = g_issued w @ [hc_activeGen (w_core w')]"
    using r by (rule hid_step_issue)
qed (rule issued_distinct)

lemma hid_run_steps: "hid_run es w = Some w' \<Longrightarrow> (\<lambda>w w'. \<exists>e. hid_step e w = Some w')\<^sup>*\<^sup>* w w'"
proof (induction es arbitrary: w)
  case (Cons e es)
  then show ?case by (auto split: option.splits intro: converse_rtranclp_into_rtranclp)
qed simp

lemma dead_token_stays:
  assumes "hid_reach w" and "hid_run es w = Some w'" and "g_bumps w' < 2 ^ 64"
    and "t \<in> set (g_issued w)" and "t \<noteq> hc_activeGen (w_core w)"
  shows "hc_activeGen (w_core w') \<noteq> t"
  using lease_tokens.stale_run [OF hid_run_steps [OF assms(2)] assms(1,3-5)] by auto

text \<open>
  A revoked token is dead. A token that was handed out and is not the active one never
  becomes the active one again, so nothing queued under it passes the final check: the write
  of such a request fails in every later world of the same client.
\<close>

theorem revoked_token_is_dead:
  assumes "hid_reach w" and "hid_run es w = Some w'" and "g_bumps w' < 2 ^ 64"
    and "t \<in> set (g_issued w)" and "t \<noteq> hc_activeGen (w_core w)"
    and "\<not> rq_privileged r" and "rq_token r = t"
  shows "hc_activeGen (w_core w') \<noteq> t \<and> \<not> is_ok (checkWritableLocked r (w_core w'))"
proof -
  have "hc_activeGen (w_core w') \<noteq> t" using dead_token_stays assms(1-5) .
  then show ?thesis
    using checkWritableLocked_ordinary [OF assms(6), of "w_core w'"] assms(7)
    by (cases "checkWritableLocked r (w_core w')") auto
qed

theorem revoked_token_is_dead_witness:
  "checkWritableLocked pressed_request (w_core sending_world) = Inr () \<and>
   \<not> is_ok (checkWritableLocked pressed_request (w_core clearing_world))"
proof -
  have "pressed_request = request [3, 0, 0, 0, 7, 0, 0, 0, 9, 1] 1 1 1 (rq_held pressed_request) False"
    by (simp add: pressed_request_def request_def)
  then have r: "\<not> rq_privileged pressed_request" "rq_token pressed_request = 1"
    by (simp_all add: pressed_request_def request_def)
  have g: "1 \<in> set (g_issued clearing_world)" "1 \<noteq> hc_activeGen (w_core clearing_world)"
    "g_bumps clearing_world < 2 ^ 64"
    by (simp_all add: clearing_world_def pressed_world_def sending_world_def)
  have "\<not> is_ok (checkWritableLocked pressed_request (w_core clearing_world))"
    using revoked_token_is_dead [OF clearing_world_reach _ g(3,1,2) r, of "[]"] by simp
  moreover have "checkWritableLocked pressed_request (w_core sending_world) = Inr ()"
    using r by (simp add: checkWritableLocked_def sending_world_def ready_world_def)
  ultimately show ?thesis by blast
qed

text \<open>
  A lease starts on a neutral device. When \<open>beginLease\<close> hands out a token, the channel was
  ready, the caller's context was alive, and the device had nothing down, whatever part of the
  wire it had read; a client with held input hands out none.
\<close>

theorem lease_starts_neutral:
  assumes "hid_reach w" and "hid_step (BeginLease ctx) w = Some w'" and "g_issued w' \<noteq> g_issued w"
    and "w_acked w \<le> k" and "k \<le> length (w_wire w)"
  shows "hc_state (w_core w) = Ready \<and> \<not> w_deadCtx w ctx \<and> \<not> held_any (hc_held (w_core w)) \<and>
    dev_of (take k (w_wire w)) = dev_neutral \<and>
    g_issued w' = g_issued w @ [hc_activeGen (w_core w')]"
proof -
  have l: "hc_state (w_core w) = Ready" "\<not> w_deadCtx w ctx" "\<not> held_any (hc_held (w_core w))"
    "g_issued w' = g_issued w @ [hc_activeGen (w_core w')]"
    using assms(2,3) by (auto simp: begin_lease_def beginLeaseLocked_Inr_iff split: if_splits sum.splits)
  then show ?thesis
    using neutral_when_not_held [OF assms(1)] assms(4,5) by (simp add: delivered_neutral_def)
qed

theorem lease_starts_neutral_witness:
  "\<exists>w'. hid_step (BeginLease 1) ready_world = Some w' \<and> g_issued w' = [1] \<and>
     dev_of (take 1 (w_wire ready_world)) = dev_neutral \<and>
     hid_step (BeginLease 1) pressed_world = Some pressed_world"
proof -
  obtain w' where st: "hid_step (BeginLease 1) ready_world = Some w'" "g_issued w' = [1]"
    by (simp add: ready_world_def newHIDClient_def newHIDClient_core_def run_defs Let_def)
  moreover have "g_issued ready_world = []" "w_acked ready_world = 0" "length (w_wire ready_world) = 1"
    by (simp_all add: ready_world_def newHIDClient_def)
  moreover have "hid_step (BeginLease 1) pressed_world = Some pressed_world"
    by (simp add: pressed_world_def sending_world_def ready_world_def newHIDClient_def
        newHIDClient_core_def run_defs Let_def)
  ultimately show ?thesis
    using lease_starts_neutral [OF ready_world_reach st(1), of 1] by auto
qed

end
