(* ===== verification/Hid_Lifecycle.thy ===== *)
theory Hid_Lifecycle
  imports Hid_Properties
begin

text \<open>
  How a HID client ends and how its waits end, \<open>hid.go\<close>: closing is final, the transport
  buffer keeps room for a release, and no wait outlives its context or its lease.
\<close>

section \<open>Closing\<close>

lemma active_done_reach: "hid_reach w \<Longrightarrow> hc_activeDone (w_core w) \<noteq> None \<longrightarrow> hc_state (w_core w) = Ready"
proof (induction rule: hid_reach_inv)
  case start
  show ?case by (simp add: core_op_defs)
next
  case (step w w')
  from step(2) show ?case
  proof (cases rule: hstep.cases)
    case (commit req d h)
    then show ?thesis using step(3) commit_write_core [OF commit(3)] by simp
  qed (use step(3) ready_inv_reach [OF step(1)] in \<open>auto simp: core_op_defs beginLeaseLocked_Inr_iff ready_inv_def\<close>)
qed

lemma closed_step:
  assumes "hid_reach w" "hstep w w'" "hc_state (w_core w) = HidClosed"
  shows "hc_state (w_core w') = HidClosed \<and> hc_closeCause (w_core w') = hc_closeCause (w_core w) \<and>
    g_issued w' = g_issued w"
  using assms(2)
proof (cases rule: hstep.cases)
  case (commit req d h)
  then show ?thesis using assms(3) commit_write_core [OF commit(3)] by simp
qed (use assms(3) ready_inv_reach [OF assms(1)] in
    \<open>auto simp: core_op_defs beginLeaseLocked_Inr_iff ready_inv_def\<close>)

text \<open>
  The state of a client only moves forward, from negotiating over handshaking and ready
  to closed, and closed is terminal: the cause stays the first one, no lease is active or ever
  handed out again, and every later validation of ordinary or privileged frames fails with it.
\<close>

theorem closed_is_terminal:
  assumes "hid_reach w" and "hid_run es w = Some w'"
  shows "hc_state (w_core w) \<le> hc_state (w_core w') \<and>
    (hc_state (w_core w) = HidClosed \<longrightarrow> hc_activeGen (w_core w') = 0 \<and> g_issued w' = g_issued w \<and>
       checkWritableLocked r (w_core w') = Inl (ErrHIDClosed (hc_closeCause (w_core w))))"
proof -
  let ?R = "\<lambda>w w'. hc_state (w_core w) \<le> hc_state (w_core w') \<and>
    (hc_state (w_core w) = HidClosed \<longrightarrow> hc_state (w_core w') = HidClosed \<and>
       hc_closeCause (w_core w') = hc_closeCause (w_core w) \<and> g_issued w' = g_issued w)"
  have run: "?R w w'"
  proof (rule hid_run_reach_inv [OF assms, of ?R])
    fix u v :: world assume "hid_reach u" "hstep u v"
    then show "?R u v" using hstep_state_mono closed_step ready_inv_reach by blast
  next
    fix u v x :: world assume "?R u v" "?R v x"
    then show "?R u x" by force
  qed simp
  have "hc_activeGen (w_core w') \<noteq> 0 \<longrightarrow> hc_state (w_core w') = Ready"
    using gen_inv_reach [OF hid_reach_run [OF assms]] by (auto simp: gen_inv_def Let_def)
  with run show ?thesis by (auto simp: checkWritableLocked_def closedErrLocked_def)
qed

theorem closed_is_terminal_witness:
  "\<exists>w'. hid_run [CloseWith 7, CloseWith 8, TransportSend False False, BeginLease 3] sending_world = Some w' \<and>
     checkWritableLocked pressed_request (w_core w') = Inl (ErrHIDClosed (Some 7))"
proof -
  let ?es = "[CloseWith 8, TransportSend False False, BeginLease 3]"
  let ?w = "close_world 7 sending_world"
  have r: "hid_reach ?w" using sending_world_reach by (rule hid_reach.step [where e = "CloseWith 7"]) simp
  obtain w' where run: "hid_run ?es ?w = Some w'"
    by (simp add: sending_world_def ready_world_def newHIDClient_def newHIDClient_core_def run_defs
        pressed_request_def Let_def)
  have "hc_state (w_core ?w) = HidClosed" "hc_closeCause (w_core ?w) = Some 7"
    by (simp_all add: close_world_core closeWith_def invalidateLeaseLocked_def sending_world_def
        ready_world_def newHIDClient_core_def)
  with closed_is_terminal [OF r run, of pressed_request] run show ?thesis by simp
qed

text \<open>
  One frame may still follow the close. The final validation and the transport call are
  not one critical section, so a frame that was committed before the close is put on the wire
  of a closed client: here a pointer report with a button down, which the record keeps as held.
\<close>

theorem frame_after_close_possible:
  "\<exists>w w' r. hid_reach w \<and> hc_state (w_core w) = HidClosed \<and>
     hid_step (TransportSend True True) w = Some w' \<and> w_wire w' = w_wire w @ [r] \<and>
     \<not> rq_privileged r \<and> dh_absolute (dev_of (w_wire w')) \<and> hi_absoluteButtons (hc_held (w_core w'))"
proof -
  let ?w = "close_world 7 sending_world"
  have r: "hid_reach ?w" using sending_world_reach by (rule hid_reach.step [where e = "CloseWith 7"]) simp
  have c: "hc_state (w_core ?w) = HidClosed" "hi_absoluteButtons (hc_held (w_core ?w))"
    "w_writer ?w = WSend pressed_request None" "w_wire ?w = [privileged_request [1, 1] 0 0]"
    by (simp_all add: close_world_def closeWith_def invalidateLeaseLocked_def sending_world_def
        observe_revoked_def ready_world_def newHIDClient_core_def)
  then obtain w' where st: "hid_step (TransportSend True True) ?w = Some w'"
    "w_wire w' = w_wire ?w @ [pressed_request]" "w_core w' = w_core ?w"
    by (simp add: write_send_def pressed_request_def request_def)
  moreover have "dh_absolute (dev_of (w_wire w'))"
    using st(2) c(4) by (simp add: pressed_request_def request_def dev_of_def dev_apply_def
        privileged_request_def message_type_defs Let_def)
  moreover have "\<not> rq_privileged pressed_request" by (simp add: pressed_request_def request_def)
  ultimately show ?thesis using r c by metis
qed

section \<open>The buffer bound\<close>

lemma plan_bytes:
  assumes "buildNeutralizationPlan held = Inr plan"
  shows "sum_list (map length (np_frames plan)) \<le> hidNeutralBufferReserve"
  by (simp add: plan_frames(4) [OF assms] hidNeutralBufferReserve_def)

text \<open>
  C11. The transport buffer stays within 4096 bytes after every step of every interleaving,
  whatever the peer acknowledges and however often releases retry their neutral frames; and
  ordinary input leaves room: right after such a frame was accepted, the whole neutralization
  plan of any held state still fits.
\<close>

theorem buffer_keeps_room_for_release:
  assumes "hid_reach w" and "hid_step e w = Some w'"
  shows "buffered w \<le> hidMaxBufferedAmount \<and> buffered w' \<le> hidMaxBufferedAmount \<and>
    (\<forall>r held plan. w_wire w' = w_wire w @ [r] \<and> \<not> rq_privileged r \<and>
       buildNeutralizationPlan held = Inr plan \<longrightarrow>
       buffered w' + sum_list (map length (np_frames plan)) \<le> hidMaxBufferedAmount)"
proof -
  have bound: "buffered v \<le> hidMaxBufferedAmount" if "hid_reach v" for v
    using sending_inv_reach [OF that] by (simp add: sending_inv_def hid_limits)
  have room: "buffered w' + sum_list (map length (np_frames plan)) \<le> hidMaxBufferedAmount"
    if out: "w_wire w' = w_wire w @ [r]" "\<not> rq_privileged r" "buildNeutralizationPlan held = Inr plan"
    for r held plan
  proof -
    obtain d where d: "w_writer w = WSend r d" "w_acked w' = w_acked w"
      using hid_step_hstep [OF assms(2)] out(1)
      by (cases rule: hstep.cases) (auto simp: core_op_defs)
    have inv: "buffered w + length (rq_frame r) \<le> 4074"
      using sending_inv_reach [OF assms(1)] d(1) out(2) by (auto simp: sending_inv_def send_limit_def)
    have "w_acked w \<le> length (w_wire w)" using held_inv_reach [OF assms(1)] by (simp add: held_inv_def)
    then have "buffered w' = buffered w + length (rq_frame r)"
      using d(2) out(1) by (simp add: buffered_def)
    then show ?thesis using inv plan_bytes [OF out(3)] by (simp add: hid_limits)
  qed
  show ?thesis using bound [OF assms(1)] bound [OF hid_reach.step [OF assms]] room by blast
qed

theorem buffer_keeps_room_for_release_witness:
  "\<exists>w'. hid_step (TransportSend True True) sending_world = Some w' \<and>
     w_wire w' = w_wire sending_world @ [pressed_request] \<and> buffered w' + 22 \<le> hidMaxBufferedAmount"
proof -
  obtain w' where st: "hid_step (TransportSend True True) sending_world = Some w'"
    "w_wire w' = w_wire sending_world @ [pressed_request]"
    by (simp add: write_send_def sending_world_def pressed_request_def request_def)
  have "\<not> rq_privileged pressed_request" by (simp add: pressed_request_def request_def)
  moreover have "sum_list (map length (np_frames release_plan)) = 22" by (simp add: release_plan_def)
  ultimately show ?thesis
    using buffer_keeps_room_for_release [OF sending_world_reach st(1)] st release_plan_built by metis
qed

section \<open>Waits end\<close>

text \<open>
  A release never waits behind a draining write. As soon as a release has revoked the
  lease, or a close has, a writer inside the drain wait of \<open>releaseKeyboardAndDrain\<close> can
  return, so it is free to take the release's priority frames next.
\<close>

theorem release_wakes_drain:
  assumes "hid_reach w" and "w_writer w = WDrain r d"
    and "w_rel w \<noteq> RelIdle \<or> hc_state (w_core w) = HidClosed"
  shows "\<exists>w'. hid_step DrainInvalidated w = Some w' \<and> w_writer w' = WTop \<and>
    w_core w' = w_core w \<and> w_rel w' = w_rel w \<and> w_priorityCh w' = w_priorityCh w"
proof -
  obtain c where c: "d = Some c"
    using drain_inv_reach [OF assms(1)] assms(2) by (auto simp: drain_inv_def)
  have "hc_activeDone (w_core w) = None"
    using assms(3)
  proof
    assume "w_rel w \<noteq> RelIdle"
    then show ?thesis using release_inv_reach [OF assms(1)] by (simp add: release_inv_def)
  next
    assume closed: "hc_state (w_core w) = HidClosed"
    have "hc_activeDone (w_core w) \<noteq> None \<longrightarrow> hc_state (w_core w) = Ready"
      using active_done_reach [OF assms(1)] .
    with closed show ?thesis by auto
  qed
  then show ?thesis using assms(2) c by (simp add: drain_invalidated_def)
qed

text \<open>The witness: a typed text waits for its last release while \<open>releaseAll\<close> starts.\<close>

definition draining_world :: world where
  "draining_world = sending_world
     \<lparr>w_writer := WDrain (request [2, 0, 0, 0, 0, 0, 0, 0] 1 1 1 None True) (Some 0),
      w_wire := [privileged_request [1, 1] 0 0, request [2, 0, 0, 0, 0, 0, 0, 0] 1 1 1 None True],
      w_core := (w_core ready_world)\<lparr>hc_genCounter := 1, hc_activeGen := 1,
        hc_activeDone := Some 0, hc_nextDone := 1\<rparr>, g_since := 1\<rparr>"

lemma release_frame: "ReleaseAllKeyboardReport = Inr [2, 0, 0, 0, 0, 0, 0, 0]"
proof -
  have "replicate 6 (0::byte) = [0, 0, 0, 0, 0, 0]" by (simp add: numeral_eq_Suc)
  then show ?thesis by (simp add: ReleaseAllKeyboardReport_eq message_type_defs)
qed

lemma draining_run:
  "hid_run (BeginLease 1 # input_events ReleaseKeyboard 1 @ [TransportSend True True]) ready_world =
     Some draining_world"
  by (simp add: release_frame draining_world_def sending_world_def ready_world_def input_events_def
      newHIDClient_def newHIDClient_core_def run_defs Let_def)

theorem release_wakes_drain_witness:
  "\<exists>w w'. hid_run [RelStart 2 None] draining_world = Some w \<and>
     hid_step DrainInvalidated w = Some w' \<and> w_writer w' = WTop"
proof -
  have dr: "hid_reach draining_world" by (rule hid_reach_run [OF ready_world_reach draining_run])
  obtain w where st: "hid_step (RelStart 2 None) draining_world = Some w"
    "w_writer w = w_writer draining_world" "w_rel w \<noteq> RelIdle"
    by (simp add: rel_start_def draining_world_def sending_world_def ready_world_def
        newHIDClient_def newHIDClient_core_def lifecycle_free_def observe_revoked_def Let_def
        buildNeutralizationPlan_def ReleaseAllKeyboardReport_eq ReleaseAllMouseReport_eq no_held_def)
  have r: "hid_reach w" by (rule hid_reach.step [OF dr st(1)])
  have d: "w_writer w = WDrain (request [2, 0, 0, 0, 0, 0, 0, 0] 1 1 1 None True) (Some 0)"
    using st(2) by (simp add: draining_world_def)
  from release_wakes_drain [OF r d] st(1,3) show ?thesis by auto
qed

lemma handshake_ends:
  assumes "w_hs w \<noteq> HsIdle" and "\<forall>r. w_hs w \<noteq> HsFinished r" and "w_deadCtx w (w_hsCtx w)"
  shows "\<exists>e w' err. e \<in> {HsCtxDone 0, HsConfirmReady 0} \<and> hid_step e w = Some w' \<and>
    w_hs w' = HsFinished (Inl err)"
  using assms by (cases "w_hs w") (auto simp: hs_ctx_done_def hs_confirm_def hs_abort_def)

text \<open>
  The other direction: no step of a release or handshake whose context has ended leads back.
  Each of its own steps lowers a rank, every other step keeps it, so it cannot go on for longer
  than its rank, whichever of its steps are taken.
\<close>

fun release_event :: "hid_event \<Rightarrow> bool" where
  "release_event RelEnqueue = True"
| "release_event RelResult = True"
| "release_event RelDrained = True"
| "release_event RelWriterGone = True"
| "release_event RelCtxDone = True"
| "release_event RelRetryStep = True"
| "release_event RelClearStep = True"
| "release_event RelCloseStep = True"
| "release_event _ = False"

fun release_rank :: "release_pc \<Rightarrow> nat" where
  "release_rank RelIdle = 0"
| "release_rank (RelClose _) = 1"
| "release_rank RelClear = 2"
| "release_rank (RelWait _ _ _) = 2"
| "release_rank (RelDrain _) = 3"
| "release_rank (RelSend _ _) = 3"
| "release_rank RelRetry = 4"

fun handshake_event :: "hid_event \<Rightarrow> bool" where
  "handshake_event HsEnqueueFrame = True"
| "handshake_event (HsSent _) = True"
| "handshake_event (HsEchoed _) = True"
| "handshake_event (HsWriterGone _) = True"
| "handshake_event (HsCtxDone _) = True"
| "handshake_event (HsConfirmReady _) = True"
| "handshake_event _ = False"

fun handshake_rank :: "handshake_pc \<Rightarrow> nat" where
  "handshake_rank HsEnqueue = 2"
| "handshake_rank (HsWait _) = 1"
| "handshake_rank HsEcho = 1"
| "handshake_rank HsConfirm = 1"
| "handshake_rank _ = 0"

definition release_late :: "world \<Rightarrow> bool" where
  "release_late w \<longleftrightarrow> hid_reach w \<and> w_rel w \<noteq> RelIdle \<and> w_deadCtx w (w_relCtx w)"

definition handshake_late :: "world \<Rightarrow> bool" where
  "handshake_late w \<longleftrightarrow> hid_reach w \<and> w_hs w \<noteq> HsIdle \<and> (\<forall>r. w_hs w \<noteq> HsFinished r) \<and>
     w_deadCtx w (w_hsCtx w)"

lemma release_rank_le: "release_rank p \<le> 4"
  by (cases p) simp_all

lemma handshake_rank_le: "handshake_rank p \<le> 2"
  by (cases p) simp_all

lemma release_rank_pos: "release_rank p = 0 \<longleftrightarrow> p = RelIdle"
  by (cases p) simp_all

lemma late_context_stays:
  assumes "hid_step e w = Some w'"
  shows "w_deadCtx w c \<Longrightarrow> w_deadCtx w' c"
    "w_rel w \<noteq> RelIdle \<Longrightarrow> w_relCtx w' = w_relCtx w" "w_hs w \<noteq> HsIdle \<Longrightarrow> w_hsCtx w' = w_hsCtx w"
  using hid_step_hstep [OF assms] by (cases rule: hstep.cases; simp add: core_op_defs)+

lemma foreign_step_release:
  assumes "hid_step e w = Some w'" "\<not> release_event e" "w_rel w \<noteq> RelIdle"
  shows "w_rel w' = w_rel w"
  using assms
  by (cases e)
    (auto simp: writer_defs hs_defs rel_defs submit_def cancel_ctx_def acknowledge_def
      handleMessage_def begin_lease_def Let_def hs_abort_def close_world_def observe_revoked_def
      lifecycle_free_def
      split: if_splits option.splits writer_pc.splits list.splits sum.splits
        handshake_pc.splits readiness.splits bool.splits prod.splits)

lemma foreign_step_handshake:
  assumes "hid_step e w = Some w'" "\<not> handshake_event e" "w_hs w \<noteq> HsIdle"
  shows "w_hs w' = w_hs w"
  using assms
  by (cases e)
    (auto simp: writer_defs hs_defs rel_defs submit_def cancel_ctx_def acknowledge_def
      handleMessage_def begin_lease_def Let_def close_world_def observe_revoked_def
      finish_release_def rel_fail_def lifecycle_free_def
      split: if_splits option.splits writer_pc.splits list.splits sum.splits release_pc.splits
        bool.splits prod.splits)

lemma own_step_release:
  assumes "hid_step e w = Some w'" "release_event e" "w_deadCtx w (w_relCtx w)"
  shows "release_rank (w_rel w') < release_rank (w_rel w)"
  using assms
  by (cases e)
    (auto simp: rel_defs finish_release_def rel_fail_def hidRequestResult_def
      split: if_splits option.splits sum.splits release_pc.splits)

lemma own_step_handshake:
  assumes "hid_step e w = Some w'" "handshake_event e" "w_deadCtx w (w_hsCtx w)"
    "w_hs w \<noteq> HsIdle" "\<forall>r. w_hs w \<noteq> HsFinished r"
  shows "handshake_rank (w_hs w') < handshake_rank (w_hs w) \<and>
    ((\<exists>err. w_hs w' = HsFinished (Inl err)) \<or> (\<exists>i. w_hs w' = HsWait i))"
  using assms
  by (cases e)
    (auto simp: hs_defs hs_abort_def hidRequestResult_def
      split: if_splits option.splits sum.splits handshake_pc.splits)

lemma late_run_ends:
  fixes P Q :: "world \<Rightarrow> bool" and own :: "hid_event \<Rightarrow> bool" and rank :: "world \<Rightarrow> nat"
  assumes step: "\<And>e u v. P u \<Longrightarrow> hid_step e u = Some v \<Longrightarrow>
      (P v \<or> Q v) \<and> (if own e then rank v < rank u else rank v = rank u)"
    and "P w" and "hid_run es w = Some w'"
  shows "(\<exists>es1 es2 w1. es = es1 @ es2 \<and> hid_run es1 w = Some w1 \<and> Q w1 \<and>
      length (filter own es1) \<le> rank w) \<or>
    (P w' \<and> length (filter own es) + rank w' \<le> rank w)"
  using assms(2,3)
proof (induction es arbitrary: w)
  case (Cons e es)
  then obtain v where v: "hid_step e w = Some v" "hid_run es v = Some w'"
    by (auto split: option.splits)
  have less: "length (filter own [e]) + rank v \<le> rank w"
    using step [OF Cons.prems(1) v(1)] by (auto split: if_splits)
  show ?case
  proof (cases "Q v")
    case True
    then show ?thesis
      using v less by (intro disjI1 exI [of _ "[e]"] exI [of _ es] exI [of _ v]) auto
  next
    case False
    then have "P v" using step [OF Cons.prems(1) v(1)] by blast
    from Cons.IH [OF this v(2)] show ?thesis
    proof
      assume "\<exists>es1 es2 w1. es = es1 @ es2 \<and> hid_run es1 v = Some w1 \<and> Q w1 \<and>
        length (filter own es1) \<le> rank v"
      then obtain es1 es2 w1 where "es = es1 @ es2" "hid_run es1 v = Some w1" "Q w1"
        "length (filter own es1) \<le> rank v" by blast
      then show ?thesis
        using v(1) less by (intro disjI1 exI [of _ "e # es1"] exI [of _ es2] exI [of _ w1]) (auto split: if_splits)
    next
      assume "P w' \<and> length (filter own es) + rank w' \<le> rank v"
      then show ?thesis using less by (auto split: if_splits)
    qed
  qed
qed simp

lemma release_late_step:
  assumes "release_late w" "hid_step e w = Some w'"
  shows "(release_late w' \<or> w_rel w' = RelIdle) \<and>
    (if release_event e then release_rank (w_rel w') < release_rank (w_rel w)
     else release_rank (w_rel w') = release_rank (w_rel w))"
  using assms hid_reach.step [OF _ assms(2)] late_context_stays [OF assms(2)]
    own_step_release [OF assms(2)] foreign_step_release [OF assms(2)]
  by (auto simp: release_late_def)

lemma handshake_late_step:
  assumes "handshake_late w" "hid_step e w = Some w'"
  shows "(handshake_late w' \<or> (\<exists>err. w_hs w' = HsFinished (Inl err))) \<and>
    (if handshake_event e then handshake_rank (w_hs w') < handshake_rank (w_hs w)
     else handshake_rank (w_hs w') = handshake_rank (w_hs w))"
  using assms hid_reach.step [OF _ assms(2)] late_context_stays [OF assms(2)]
    own_step_handshake [OF assms(2)] foreign_step_handshake [OF assms(2)]
  by (cases "handshake_event e") (auto simp: handshake_late_def)

lemma release_can_step:
  assumes "hid_reach w" and "w_rel w \<noteq> RelIdle" and "w_deadCtx w (w_relCtx w)"
  shows "\<exists>e v. release_event e \<and> hid_step e w = Some v"
proof (cases "w_rel w")
  case RelClear
  then show ?thesis by (intro exI [of _ RelClearStep]) (simp add: rel_clear_def)
next
  case (RelClose out)
  then obtain c where "w_relCause w = Some c" using rel_cause_reach [OF assms(1)] by auto
  with RelClose show ?thesis by (intro exI [of _ RelCloseStep]) (simp add: rel_close_def)
qed (use assms in \<open>auto simp: rel_ctx_done_def intro!: exI [of _ RelCtxDone]\<close>)

lemma late_release_step:
  assumes "release_late w"
  shows "\<exists>e v. release_event e \<and> hid_step e w = Some v \<and> release_rank (w_rel v) < release_rank (w_rel w)"
proof -
  obtain e v where "release_event e" "hid_step e w = Some v"
    using release_can_step assms unfolding release_late_def by blast
  with own_step_release assms show ?thesis unfolding release_late_def by blast
qed

lemma late_handshake_step:
  assumes "handshake_late w"
  shows "\<exists>e v err. handshake_event e \<and> hid_step e w = Some v \<and> w_hs v = HsFinished (Inl err)"
proof -
  have "\<exists>e v err. e \<in> {HsCtxDone 0, HsConfirmReady 0} \<and> hid_step e w = Some v \<and> w_hs v = HsFinished (Inl err)"
    using handshake_ends [of w] assms by (simp add: handshake_late_def)
  then show ?thesis by (auto intro: exI [of _ "HsCtxDone 0"] exI [of _ "HsConfirmReady 0"])
qed

text \<open>
  C12. Releases and handshakes are bounded by their contexts. In every run from a world in which
  the context of a running release has ended, the release is back at the unlocked lifecycle
  after at most four of its own steps, whichever they are and whatever the writer, the
  transport, the device and the callers do in between; as long as it is not, one of its own
  steps can be taken and fewer remain. A handshake whose context has ended finishes with an
  error after at most two of its own steps, in the same sense.
\<close>

theorem waits_end_with_context:
  assumes "hid_reach w" and "hid_run es w = Some w'"
  shows "(w_rel w \<noteq> RelIdle \<and> w_deadCtx w (w_relCtx w) \<longrightarrow>
      (\<exists>es1 es2 w1. es = es1 @ es2 \<and> hid_run es1 w = Some w1 \<and> w_rel w1 = RelIdle \<and>
         length (filter release_event es1) \<le> 4) \<or>
      (length (filter release_event es) + release_rank (w_rel w') \<le> 4 \<and>
       (\<exists>e v. release_event e \<and> hid_step e w' = Some v \<and>
          release_rank (w_rel v) < release_rank (w_rel w')))) \<and>
    (w_hs w \<noteq> HsIdle \<and> (\<forall>r. w_hs w \<noteq> HsFinished r) \<and> w_deadCtx w (w_hsCtx w) \<longrightarrow>
      (\<exists>es1 es2 w1 err. es = es1 @ es2 \<and> hid_run es1 w = Some w1 \<and> w_hs w1 = HsFinished (Inl err) \<and>
         length (filter handshake_event es1) \<le> 2) \<or>
      (length (filter handshake_event es) + handshake_rank (w_hs w') \<le> 2 \<and>
       (\<exists>e v err. handshake_event e \<and> hid_step e w' = Some v \<and> w_hs v = HsFinished (Inl err))))"
proof (intro conjI impI)
  assume "w_rel w \<noteq> RelIdle \<and> w_deadCtx w (w_relCtx w)"
  then have "release_late w" using assms(1) by (simp add: release_late_def)
  from late_run_ends [where P = release_late and Q = "\<lambda>w. w_rel w = RelIdle" and own = release_event
      and rank = "\<lambda>w. release_rank (w_rel w)", OF release_late_step this assms(2)]
  show "(\<exists>es1 es2 w1. es = es1 @ es2 \<and> hid_run es1 w = Some w1 \<and> w_rel w1 = RelIdle \<and>
         length (filter release_event es1) \<le> 4) \<or>
      (length (filter release_event es) + release_rank (w_rel w') \<le> 4 \<and>
       (\<exists>e v. release_event e \<and> hid_step e w' = Some v \<and>
          release_rank (w_rel v) < release_rank (w_rel w')))"
    using release_rank_le [of "w_rel w"] late_release_step by (meson order_trans)
next
  assume "w_hs w \<noteq> HsIdle \<and> (\<forall>r. w_hs w \<noteq> HsFinished r) \<and> w_deadCtx w (w_hsCtx w)"
  then have "handshake_late w" using assms(1) by (simp add: handshake_late_def)
  from late_run_ends [where P = handshake_late and Q = "\<lambda>w. \<exists>err. w_hs w = HsFinished (Inl err)"
      and own = handshake_event and rank = "\<lambda>w. handshake_rank (w_hs w)", OF handshake_late_step this assms(2)]
  show "(\<exists>es1 es2 w1 err. es = es1 @ es2 \<and> hid_run es1 w = Some w1 \<and> w_hs w1 = HsFinished (Inl err) \<and>
         length (filter handshake_event es1) \<le> 2) \<or>
      (length (filter handshake_event es) + handshake_rank (w_hs w') \<le> 2 \<and>
       (\<exists>e v err. handshake_event e \<and> hid_step e w' = Some v \<and> w_hs v = HsFinished (Inl err)))"
    using handshake_rank_le [of "w_hs w"] late_handshake_step by (meson order_trans)
qed

text \<open>The witness: the context of a release ends while it waits for its first frame.\<close>

theorem waits_end_with_context_witness:
  "\<exists>w'. hid_run [CancelCtx 2, RelEnqueue, PickPriority, CheckContext, RelResult] releasing_world = Some w' \<and>
     w_rel w' = RelIdle \<and> g_outcome w' = Some Unverified \<and>
     (\<exists>v e u. hid_run [CancelCtx 2, RelEnqueue] releasing_world = Some v \<and> release_event e \<and>
        hid_step e v = Some u \<and> release_rank (w_rel u) < release_rank (w_rel v))"
proof -
  have r: "hid_reach releasing_world" by (rule hid_reach_run [OF pressed_world_reach releasing_run])
  let ?w = "releasing_world\<lparr>w_deadCtx := (w_deadCtx releasing_world)(2 := True)\<rparr>"
  have st: "hid_step (CancelCtx 2) releasing_world = Some ?w" by (simp add: cancel_ctx_def)
  have late: "hid_reach ?w" by (rule hid_reach.step [OF r st])
  have d: "w_rel ?w \<noteq> RelIdle \<and> w_deadCtx ?w (w_relCtx ?w)" by (simp add: releasing_world_def)
  obtain v where v: "hid_run [RelEnqueue] ?w = Some v" "w_rel v = RelWait 0 0 (w_nextId ?w)"
    by (simp add: rel_enqueue_def hid_limits releasing_world_def pressed_world_def sending_world_def
        ready_world_def newHIDClient_def)
  have "w_rel u \<noteq> RelIdle" if "[RelEnqueue] = es1 @ es2" "hid_run es1 ?w = Some u" for es1 es2 u
    using that v d by (cases es1) auto
  then obtain e u where "release_event e" "hid_step e v = Some u" "release_rank (w_rel u) < release_rank (w_rel v)"
    using waits_end_with_context [OF late v(1)] d by blast
  moreover have "hid_run [CancelCtx 2, RelEnqueue] releasing_world = Some v" using st v(1) by simp
  moreover obtain w' where "hid_run [RelEnqueue, PickPriority, CheckContext, RelResult] ?w = Some w'"
    "w_rel w' = RelIdle" "g_outcome w' = Some Unverified"
    by (simp add: releasing_world_def pressed_world_def sending_world_def
        ready_world_def newHIDClient_def newHIDClient_core_def run_defs release_plan_def)
  ultimately show ?thesis using st by auto
qed

end
