(* ===== verification/Lease.thy ===== *)
theory Lease
  imports Hid_Properties
begin

text \<open>
  The control lease of \<open>owner.go\<close> over the HID client of \<open>Hid_System\<close>. The exclusivity slot is the
  semaphore of the code, a flag here; that a holder occupies it is an invariant. A holder is the
  position of one acquisition: waiting at the slot, beginning a generation, holding a token, inside
  \<open>Release\<close>, or done. The watchdog only ever calls \<open>Release\<close>, which a step may start at any time;
  \<open>Acquire\<close> and \<open>AcquirePersistent\<close> differ in the lifetime context of the watchdog only.
\<close>

section \<open>Holders\<close>

datatype lease_error =
    ErrControlDisabled
  | ErrAcquireContext
  | ErrControlHeld
  | ErrControlLifecycleBusy
  | ErrBeginLease hid_error

text \<open>The result of \<open>Release\<close>: the release ended, or its 2 s ran out before it had the lifecycle.\<close>

datatype hold_result = ReleaseEnded release_outcome | ReleaseTimedOut

datatype holder =
    NotAcquired
  | Waiting bool nat
  | Beginning bool nat
  | Refused lease_error
  | Holding u64
  | Releasing u64 nat
  | Neutralizing u64
  | Returned u64 hold_result
  | SlotFreed u64 hold_result
  | Released u64 hold_result

record lease_world =
  lw_enabled :: bool
  lw_slot :: bool
  lw_holder :: "nat \<Rightarrow> holder"
  lw_hid :: world

definition newControlLease :: "bool \<Rightarrow> world \<Rightarrow> lease_world" where
  "newControlLease enabled hid = \<lparr>lw_enabled = enabled, lw_slot = False,
     lw_holder = (\<lambda>_. NotAcquired), lw_hid = hid\<rparr>"

definition set_holder :: "nat \<Rightarrow> holder \<Rightarrow> lease_world \<Rightarrow> lease_world" where
  "set_holder i h w = w\<lparr>lw_holder := (lw_holder w)(i := h)\<rparr>"

section \<open>Acquisition\<close>

text \<open>The entry checks of \<open>Acquire\<close> (\<open>blocking\<close>) and \<open>TryAcquire\<close>.\<close>

definition acquire :: "nat \<Rightarrow> bool \<Rightarrow> nat \<Rightarrow> lease_world \<Rightarrow> lease_world option" where
  "acquire i blocking ctx w =
    (if lw_holder w i \<noteq> NotAcquired then None
     else Some (set_holder i
       (if \<not> lw_enabled w then Refused ErrControlDisabled
        else if w_deadCtx (lw_hid w) ctx then Refused ErrAcquireContext
        else Waiting blocking ctx) w))"

text \<open>The select on the slot.\<close>

definition take_slot :: "nat \<Rightarrow> lease_world \<Rightarrow> lease_world option" where
  "take_slot i w = (case lw_holder w i of
      Waiting blocking ctx \<Rightarrow>
        (if \<not> lw_slot w then Some ((set_holder i (Beginning blocking ctx) w)\<lparr>lw_slot := True\<rparr>)
         else if blocking then None
         else Some (set_holder i (Refused ErrControlHeld) w))
    | _ \<Rightarrow> None)"

definition wait_ended :: "nat \<Rightarrow> lease_world \<Rightarrow> lease_world option" where
  "wait_ended i w = (case lw_holder w i of
      Waiting True ctx \<Rightarrow>
        (if w_deadCtx (lw_hid w) ctx then Some (set_holder i (Refused ErrAcquireContext) w) else None)
    | _ \<Rightarrow> None)"

text \<open>\<open>startHeld\<close> on an error frees the slot.\<close>

definition refuse_lease :: "nat \<Rightarrow> lease_error \<Rightarrow> lease_world \<Rightarrow> lease_world" where
  "refuse_lease i e w = (set_holder i (Refused e) w)\<lparr>lw_slot := False\<rparr>"

text \<open>\<open>hold\<close> and \<open>tryHold\<close>: \<open>beginLease\<close> waits for the lifecycle, \<open>tryBeginLease\<close> does not.\<close>

definition hold :: "nat \<Rightarrow> lease_world \<Rightarrow> lease_world option" where
  "hold i w = (case lw_holder w i of
      Beginning blocking ctx \<Rightarrow>
        (if w_deadCtx (lw_hid w) ctx then Some (refuse_lease i ErrAcquireContext w)
         else case begin_lease ctx (lw_hid w) of
            None \<Rightarrow> (if blocking then None else Some (refuse_lease i ErrControlLifecycleBusy w))
          | Some hid \<Rightarrow> (case beginLeaseLocked False (w_core (lw_hid w)) of
                Inl e \<Rightarrow> Some (refuse_lease i (ErrBeginLease e) w)
              | Inr (token, _) \<Rightarrow> Some ((set_holder i (Holding token) w)\<lparr>lw_hid := hid\<rparr>)))
    | _ \<Rightarrow> None)"

section \<open>Release\<close>

text \<open>
  \<open>Release\<close> runs once: the first call starts it, with a fresh 2 s context; a later one returns the
  stored error when the first is done.
\<close>

definition release :: "nat \<Rightarrow> nat \<Rightarrow> lease_world \<Rightarrow> lease_world option" where
  "release i ctx w = (case lw_holder w i of
      Holding token \<Rightarrow> Some (set_holder i (Releasing token ctx) w)
    | Released _ _ \<Rightarrow> Some w
    | _ \<Rightarrow> None)"

definition result_of :: "world \<Rightarrow> hold_result" where
  "result_of hid = (case g_outcome hid of Some out \<Rightarrow> ReleaseEnded out | None \<Rightarrow> ReleaseEnded Unverified)"

text \<open>\<open>releaseAll\<close> takes the lifecycle and revokes the generation, or its context ends first.\<close>

definition release_locked :: "nat \<Rightarrow> lease_world \<Rightarrow> lease_world option" where
  "release_locked i w = (case lw_holder w i of
      Releasing token ctx \<Rightarrow> (case rel_start ctx None (lw_hid w) of
          None \<Rightarrow> None
        | Some hid \<Rightarrow> Some ((set_holder i
            (if w_rel hid = RelIdle then Returned token (result_of hid) else Neutralizing token) w)
            \<lparr>lw_hid := hid\<rparr>))
    | _ \<Rightarrow> None)"

definition release_timed_out :: "nat \<Rightarrow> lease_world \<Rightarrow> lease_world option" where
  "release_timed_out i w = (case lw_holder w i of
      Releasing token ctx \<Rightarrow>
        (if w_deadCtx (lw_hid w) ctx then Some (set_holder i (Returned token ReleaseTimedOut) w)
         else None)
    | _ \<Rightarrow> None)"

definition free_slot :: "nat \<Rightarrow> lease_world \<Rightarrow> lease_world option" where
  "free_slot i w = (case lw_holder w i of
      Returned token r \<Rightarrow> Some ((set_holder i (SlotFreed token r) w)\<lparr>lw_slot := False\<rparr>)
    | _ \<Rightarrow> None)"

definition close_done :: "nat \<Rightarrow> lease_world \<Rightarrow> lease_world option" where
  "close_done i w = (case lw_holder w i of
      SlotFreed token r \<Rightarrow> Some (set_holder i (Released token r) w)
    | _ \<Rightarrow> None)"

section \<open>Sending\<close>

fun holder_token :: "holder \<Rightarrow> u64 option" where
  "holder_token (Holding t) = Some t"
| "holder_token (Releasing t _) = Some t"
| "holder_token (Neutralizing t) = Some t"
| "holder_token (Returned t _) = Some t"
| "holder_token (SlotFreed t _) = Some t"
| "holder_token (Released t _) = Some t"
| "holder_token _ = None"

definition checkAlive :: "holder \<Rightarrow> hid_error + unit" where
  "checkAlive h = (case h of Released _ _ \<Rightarrow> Inl ErrStaleControlToken | _ \<Rightarrow> Inr ())"

text \<open>The send methods of a holder.\<close>

definition held_send :: "nat \<Rightarrow> hid_send \<Rightarrow> nat \<Rightarrow> lease_world \<Rightarrow> lease_world option" where
  "held_send i s ctx w = (case holder_token (lw_holder w i) of
      None \<Rightarrow> None
    | Some token \<Rightarrow> (case checkAlive (lw_holder w i) of
        Inl _ \<Rightarrow> Some w
      | Inr _ \<Rightarrow> map_option (\<lambda>hid. w\<lparr>lw_hid := hid\<rparr>) (submit s ctx token (lw_hid w))))"

section \<open>The client beneath\<close>

text \<open>
  Every other step of the HID client, \<open>neutralize\<close> (the \<open>releaseAllAndClose\<close> of \<open>Client.Close\<close>)
  included. Generations begin and end, and input is sent, only through holders. When the release
  in progress ends, the holder that waits for it has its result.
\<close>

fun through_holder :: "hid_event \<Rightarrow> bool" where
  "through_holder (BeginLease _) = True"
| "through_holder (RelStart _ None) = True"
| "through_holder (Submit _ _ _) = True"
| "through_holder _ = False"

definition deliver :: "world \<Rightarrow> holder \<Rightarrow> holder" where
  "deliver hid h = (case h of Neutralizing token \<Rightarrow> Returned token (result_of hid) | _ \<Rightarrow> h)"

definition client_step :: "hid_event \<Rightarrow> lease_world \<Rightarrow> lease_world option" where
  "client_step e w =
    (if through_holder e then None
     else case hid_step e (lw_hid w) of
        None \<Rightarrow> None
      | Some hid \<Rightarrow> Some (w\<lparr>lw_hid := hid, lw_holder :=
          (if w_rel (lw_hid w) \<noteq> RelIdle \<and> w_rel hid = RelIdle then deliver hid \<circ> lw_holder w
           else lw_holder w)\<rparr>))"

datatype lease_event =
    LAcquire nat bool nat | LTake nat | LWaitEnded nat | LHold nat
  | LRelease nat nat | LLocked nat | LTimedOut nat | LFree nat | LDone nat
  | LSend nat hid_send nat
  | LClient hid_event

fun lease_step :: "lease_event \<Rightarrow> lease_world \<Rightarrow> lease_world option" where
  "lease_step (LAcquire i blocking ctx) w = acquire i blocking ctx w"
| "lease_step (LTake i) w = take_slot i w"
| "lease_step (LWaitEnded i) w = wait_ended i w"
| "lease_step (LHold i) w = hold i w"
| "lease_step (LRelease i ctx) w = release i ctx w"
| "lease_step (LLocked i) w = release_locked i w"
| "lease_step (LTimedOut i) w = release_timed_out i w"
| "lease_step (LFree i) w = free_slot i w"
| "lease_step (LDone i) w = close_done i w"
| "lease_step (LSend i s ctx) w = held_send i s ctx w"
| "lease_step (LClient e) w = client_step e w"

fun lease_steps :: "lease_event list \<Rightarrow> lease_world \<Rightarrow> lease_world option" where
  "lease_steps [] w = Some w"
| "lease_steps (e # es) w = (case lease_step e w of None \<Rightarrow> None | Some w' \<Rightarrow> lease_steps es w')"

inductive lease_reach :: "lease_world \<Rightarrow> bool" where
  start: "lease_reach (newControlLease enabled newHIDClient)"
| step: "lease_reach w \<Longrightarrow> lease_step e w = Some w' \<Longrightarrow> lease_reach w'"

lemmas acquire_defs = acquire_def take_slot_def wait_ended_def hold_def refuse_lease_def set_holder_def

lemmas release_defs = release_def release_locked_def release_timed_out_def free_slot_def
  close_done_def held_send_def client_step_def set_holder_def

lemma lease_reach_steps: "lease_reach w \<Longrightarrow> lease_steps es w = Some w' \<Longrightarrow> lease_reach w'"
  by (induction es arbitrary: w) (auto split: option.splits intro: lease_reach.step)

end
