(* ===== verification/Lease_Properties.thy ===== *)
theory Lease_Properties
  imports Lease
begin

text \<open>
  What the control lease promises: exclusivity of the slot, one token per holder, and the active
  generation in the hands of the holder. The facts on tokens come from the contract
  \<open>generations\<close> of the HID client.
\<close>

section \<open>The client beneath a step\<close>

lemma begin_lease_step: "begin_lease ctx h = Some h' \<Longrightarrow> hid_step (BeginLease ctx) h = Some h'"
  by simp

lemma lease_hid:
  assumes "lease_step e w = Some w'"
  shows "lw_hid w' = lw_hid w \<or> (\<exists>he. hid_step he (lw_hid w) = Some (lw_hid w'))"
proof (cases e)
  case (LHold i)
  with assms show ?thesis
    by (auto simp: acquire_defs split: holder.splits if_splits option.splits sum.splits
        dest!: begin_lease_step)
next
  case (LLocked i)
  with assms show ?thesis
    by (auto simp: release_defs split: holder.splits option.splits)
      (metis hid_step.simps(26))+
next
  case (LSend i s ctx)
  with assms show ?thesis
    by (auto simp: release_defs split: holder.splits option.splits sum.splits)
      (metis hid_step.simps(13))+
next
  case (LClient he)
  with assms show ?thesis by (auto simp: release_defs split: if_splits option.splits)
qed (use assms in \<open>auto simp: acquire_defs release_defs split: holder.splits if_splits bool.splits\<close>)

lemma lease_reach_hid: "lease_reach w \<Longrightarrow> hid_reach (lw_hid w)"
proof (induction rule: lease_reach.induct)
  case (start enabled)
  then show ?case by (simp add: newControlLease_def hid_reach.start)
next
  case (step w e w')
  then show ?case using lease_hid [OF step.hyps(2)] by (auto intro: hid_reach.step)
qed

section \<open>The slot\<close>

fun occupies :: "holder \<Rightarrow> bool" where
  "occupies (Beginning _ _) = True"
| "occupies (Holding _) = True"
| "occupies (Releasing _ _) = True"
| "occupies (Neutralizing _) = True"
| "occupies (Returned _ _) = True"
| "occupies _ = False"

definition slot_inv :: "lease_world \<Rightarrow> bool" where
  "slot_inv w \<longleftrightarrow> (\<exists>occ. (lw_slot w \<longleftrightarrow> occ \<noteq> None) \<and>
     (\<forall>i. occupies (lw_holder w i) \<longleftrightarrow> occ = Some i))"

lemma slot_keep:
  assumes "slot_inv w" "lw_slot w' = lw_slot w"
    "\<And>i. occupies (lw_holder w' i) = occupies (lw_holder w i)"
  shows "slot_inv w'"
  using assms by (simp add: slot_inv_def)

lemma slot_take:
  assumes "slot_inv w" "\<not> lw_slot w" "lw_slot w'" "occupies (lw_holder w' i)"
    "\<And>j. j \<noteq> i \<Longrightarrow> lw_holder w' j = lw_holder w j"
  shows "slot_inv w'"
proof -
  have "\<not> occupies (lw_holder w j)" for j using assms(1,2) by (auto simp: slot_inv_def)
  then show ?thesis using assms(3-5) unfolding slot_inv_def
    by (intro exI [of _ "Some i"]) (metis option.distinct(1) option.inject)
qed

lemma slot_give:
  assumes "slot_inv w" "occupies (lw_holder w i)" "\<not> lw_slot w'" "\<not> occupies (lw_holder w' i)"
    "\<And>j. j \<noteq> i \<Longrightarrow> lw_holder w' j = lw_holder w j"
  shows "slot_inv w'"
proof -
  have "occupies (lw_holder w j) \<longleftrightarrow> j = i" for j using assms(1,2) by (auto simp: slot_inv_def)
  then show ?thesis using assms(3-5) unfolding slot_inv_def
    by (intro exI [of _ None]) (metis option.distinct(1))
qed

lemma occupies_deliver [simp]: "occupies (deliver hid h) = occupies h"
  by (simp add: deliver_def split: holder.split)

lemma slot_inv_step:
  assumes "slot_inv w" "lease_step e w = Some w'"
  shows "slot_inv w'"
proof (cases e)
  case (LTake i)
  show ?thesis
  proof (cases "lw_slot w")
    case True
    with LTake assms show ?thesis
      by (intro slot_keep [OF assms(1)]) (auto simp: acquire_defs split: holder.splits if_splits)
  next
    case False
    with LTake assms show ?thesis
      by (intro slot_take [OF assms(1) False, of _ i]) (auto simp: acquire_defs split: holder.splits)
  qed
next
  case (LHold i)
  from assms LHold obtain b ctx where h: "lw_holder w i = Beginning b ctx"
    by (auto simp: hold_def split: holder.splits)
  then consider "w' = refuse_lease i ErrAcquireContext w" | "w' = refuse_lease i ErrControlLifecycleBusy w"
    | er where "w' = refuse_lease i (ErrBeginLease er) w" | t hid where "w' = (set_holder i (Holding t) w)\<lparr>lw_hid := hid\<rparr>"
    using assms LHold by (auto simp: hold_def split: if_splits option.splits sum.splits)
  then show ?thesis
  proof cases
    case 4
    with h show ?thesis by (intro slot_keep [OF assms(1)]) (auto simp: set_holder_def)
  qed (auto simp: refuse_lease_def set_holder_def h intro!: slot_give [OF assms(1), of i])
next
  case (LFree i)
  with assms(2) obtain t r where "lw_holder w i = Returned t r"
    "w' = (set_holder i (SlotFreed t r) w)\<lparr>lw_slot := False\<rparr>"
    by (auto simp: free_slot_def split: holder.splits)
  then show ?thesis by (auto simp: set_holder_def intro!: slot_give [OF assms(1), of i])
next
  case (LClient he)
  with assms(2) show ?thesis
    by (intro slot_keep [OF assms(1)]) (auto simp: client_step_def split: if_splits option.splits)
qed (use assms(2) in \<open>auto simp: acquire_defs release_def release_locked_def release_timed_out_def
    close_done_def held_send_def intro!: slot_keep [OF assms(1)]
    split: holder.splits if_splits bool.splits option.splits sum.splits\<close>)

lemma slot_inv_reach: "lease_reach w \<Longrightarrow> slot_inv w"
proof (induction rule: lease_reach.induct)
  case (start enabled)
  then show ?case by (auto simp: newControlLease_def slot_inv_def intro: exI [of _ None])
next
  case (step w e w')
  then show ?case using slot_inv_step by blast
qed


section \<open>Tokens\<close>

text \<open>
  A holder's token is live until its release has revoked the generation; a release that ran out of
  time before it had the lifecycle has not.
\<close>

fun live_token :: "holder \<Rightarrow> u64 option" where
  "live_token (Holding t) = Some t"
| "live_token (Releasing t _) = Some t"
| "live_token (Returned t ReleaseTimedOut) = Some t"
| "live_token (SlotFreed t ReleaseTimedOut) = Some t"
| "live_token (Released t ReleaseTimedOut) = Some t"
| "live_token _ = None"

abbreviation active_gen :: "lease_world \<Rightarrow> u64" where
  "active_gen w \<equiv> hc_activeGen (w_core (lw_hid w))"

definition quiet_shape :: "lease_world \<Rightarrow> lease_world \<Rightarrow> bool" where
  "quiet_shape w w' \<longleftrightarrow> g_issued (lw_hid w') = g_issued (lw_hid w) \<and>
     (\<forall>j. holder_token (lw_holder w' j) = holder_token (lw_holder w j)) \<and>
     ((\<forall>j. live_token (lw_holder w' j) = live_token (lw_holder w j)) \<or> active_gen w' = 0)"

definition issue_shape :: "lease_world \<Rightarrow> lease_world \<Rightarrow> bool" where
  "issue_shape w w' \<longleftrightarrow> (\<exists>i t. lw_holder w' = (lw_holder w)(i := Holding t) \<and>
     holder_token (lw_holder w i) = None \<and> active_gen w' = t \<and>
     g_issued (lw_hid w') = g_issued (lw_hid w) @ [t])"

lemma tokens_deliver [simp]:
  "holder_token (deliver hid h) = holder_token h" "live_token (deliver hid h) = live_token h"
  by (cases h; simp add: deliver_def result_of_def split: option.split)+

lemma live_token_later [simp]:
  "live_token (SlotFreed t r) = live_token (Returned t r)"
  "live_token (Released t r) = live_token (Returned t r)"
  by (cases r; simp)+

lemma begin_lease_issues:
  "begin_lease ctx h = Some h' \<Longrightarrow> beginLeaseLocked (w_deadCtx h ctx) (w_core h) = Inr (t, c) \<Longrightarrow>
   g_issued h' = g_issued h @ [t] \<and> hc_activeGen (w_core h') = t"
  using beginLeaseLocked_Inr_iff [of "w_deadCtx h ctx" "w_core h" t c]
  by (auto simp: begin_lease_def observe_revoked_def simp del: One_nat_def split: if_splits)

lemma rel_start_revokes:
  "rel_start ctx cause h = Some h' \<Longrightarrow> g_issued h' = g_issued h \<and> hc_activeGen (w_core h') = 0"
  by (auto simp: rel_start_def observe_revoked_def invalidateLeaseLocked_def finish_release_def Let_def
      split: if_splits option.splits sum.splits)

lemma submit_shape:
  "submit s ctx t h = Some h' \<Longrightarrow> g_issued h' = g_issued h \<and> w_core h' = w_core h \<and> w_rel h' = w_rel h"
  by (auto simp: submit_def split: if_splits sum.splits)

lemma lease_step_shape:
  assumes "lease_step e w = Some w'"
  shows "quiet_shape w w' \<or> issue_shape w w'"
proof (cases e)
  case (LHold i)
  from assms LHold obtain b ctx where h: "lw_holder w i = Beginning b ctx"
    by (auto simp: hold_def split: holder.splits)
  show ?thesis
  proof (cases "\<exists>er. w' = refuse_lease i er w")
    case True
    then show ?thesis by (auto simp: quiet_shape_def refuse_lease_def set_holder_def h)
  next
    case False
    then obtain t hid c where "\<not> w_deadCtx (lw_hid w) ctx" "begin_lease ctx (lw_hid w) = Some hid"
      "beginLeaseLocked False (w_core (lw_hid w)) = Inr (t, c)"
      "w' = (set_holder i (Holding t) w)\<lparr>lw_hid := hid\<rparr>"
      using assms LHold h by (auto simp: hold_def split: if_splits option.splits sum.splits)
    then show ?thesis
      using begin_lease_issues [of ctx "lw_hid w" hid t c] h
      by (auto simp: issue_shape_def set_holder_def)
  qed
next
  case (LLocked i)
  with assms show ?thesis
    by (auto simp: release_locked_def set_holder_def quiet_shape_def result_of_def dest!: rel_start_revokes
        split: holder.splits option.splits if_splits)
next
  case (LSend i s ctx)
  with assms show ?thesis
    by (auto simp: held_send_def quiet_shape_def dest!: submit_shape split: option.splits sum.splits)
next
  case (LClient he)
  with assms obtain hid where "\<not> through_holder he" "hid_step he (lw_hid w) = Some hid" "lw_hid w' = hid"
    "lw_holder w' = deliver hid \<circ> lw_holder w \<or> lw_holder w' = lw_holder w"
    by (auto simp: client_step_def split: if_splits option.splits)
  moreover from this have "g_issued hid = g_issued (lw_hid w)"
    by (intro step_issued [of he]) auto
  ultimately show ?thesis by (auto simp: quiet_shape_def)
qed (use assms in \<open>auto simp: acquire_defs release_def release_timed_out_def free_slot_def close_done_def
    quiet_shape_def split: holder.splits if_splits bool.splits\<close>)


definition token_inv_l :: "lease_world \<Rightarrow> bool" where
  "token_inv_l w \<longleftrightarrow>
     (\<forall>i t. holder_token (lw_holder w i) = Some t \<longrightarrow> t \<in> set (g_issued (lw_hid w))) \<and>
     (\<forall>i j t. holder_token (lw_holder w i) = Some t \<longrightarrow> holder_token (lw_holder w j) = Some t \<longrightarrow> i = j) \<and>
     (\<forall>i t. holder_token (lw_holder w i) = Some t \<longrightarrow> live_token (lw_holder w i) = None \<longrightarrow>
        t \<noteq> active_gen w)"

lemma live_is_token: "live_token h = Some t \<Longrightarrow> holder_token h = Some t"
  by (cases h rule: live_token.cases) auto

definition active_inv :: "lease_world \<Rightarrow> bool" where
  "active_inv w \<longleftrightarrow> (active_gen w \<noteq> 0 \<longrightarrow> (\<exists>i. live_token (lw_holder w i) = Some (active_gen w)))"

text \<open>The client below a step, as one of its own steps or none.\<close>

lemma lease_hid_facts:
  assumes "lease_reach w" "lease_step e w = Some w'"
  shows "g_bumps (lw_hid w) \<le> g_bumps (lw_hid w')"
    and "g_issued (lw_hid w') = g_issued (lw_hid w) \<Longrightarrow> active_gen w' = active_gen w \<or> active_gen w' = 0"
    and "g_bumps (lw_hid w') < 2 ^ 64 \<Longrightarrow> t \<in> set (g_issued (lw_hid w)) \<Longrightarrow> t \<noteq> active_gen w \<Longrightarrow>
      t \<noteq> active_gen w'"
    and "g_bumps (lw_hid w') < 2 ^ 64 \<Longrightarrow> g_issued (lw_hid w') \<noteq> g_issued (lw_hid w) \<Longrightarrow>
      active_gen w' \<notin> set (g_issued (lw_hid w))"
proof -
  note r = lease_reach_hid [OF assms(1)]
  consider "lw_hid w' = lw_hid w" | he where "hid_step he (lw_hid w) = Some (lw_hid w')"
    using lease_hid [OF assms(2)] by blast
  then have all: "g_bumps (lw_hid w) \<le> g_bumps (lw_hid w') \<and>
    (g_issued (lw_hid w') = g_issued (lw_hid w) \<longrightarrow> active_gen w' = active_gen w \<or> active_gen w' = 0) \<and>
    (g_bumps (lw_hid w') < 2 ^ 64 \<longrightarrow> t \<in> set (g_issued (lw_hid w)) \<longrightarrow> t \<noteq> active_gen w \<longrightarrow>
      t \<noteq> active_gen w') \<and>
    (g_bumps (lw_hid w') < 2 ^ 64 \<longrightarrow> g_issued (lw_hid w') \<noteq> g_issued (lw_hid w) \<longrightarrow>
      active_gen w' \<notin> set (g_issued (lw_hid w)))"
  proof cases
    case (2 he)
    then show ?thesis
      using lease_tokens.active_step [OF r 2] lease_tokens.stale_step [OF r 2]
        lease_tokens.fresh_step [OF r 2] bumps_mono [OF hid_step_hstep [OF 2]] by blast
  qed simp
  show "g_bumps (lw_hid w) \<le> g_bumps (lw_hid w')"
    "g_issued (lw_hid w') = g_issued (lw_hid w) \<Longrightarrow> active_gen w' = active_gen w \<or> active_gen w' = 0"
    "g_bumps (lw_hid w') < 2 ^ 64 \<Longrightarrow> t \<in> set (g_issued (lw_hid w)) \<Longrightarrow> t \<noteq> active_gen w \<Longrightarrow>
      t \<noteq> active_gen w'"
    "g_bumps (lw_hid w') < 2 ^ 64 \<Longrightarrow> g_issued (lw_hid w') \<noteq> g_issued (lw_hid w) \<Longrightarrow>
      active_gen w' \<notin> set (g_issued (lw_hid w))"
    using all by blast+
qed

lemma active_inv_step:
  assumes "lease_reach w" "lease_step e w = Some w'" "active_inv w"
  shows "active_inv w'"
proof -
  consider "quiet_shape w w'" | "issue_shape w w'" using lease_step_shape [OF assms(2)] by blast
  then show ?thesis
  proof cases
    case 1
    with assms(3) lease_hid_facts(2) [OF assms(1,2)] show ?thesis
      unfolding quiet_shape_def active_inv_def by metis
  next
    case 2
    then show ?thesis unfolding issue_shape_def active_inv_def by (metis fun_upd_same live_token.simps(1))
  qed
qed

lemma token_inv_quiet:
  assumes "lease_reach w" "lease_step e w = Some w'" "g_bumps (lw_hid w') < 2 ^ 64" "token_inv_l w"
    and "quiet_shape w w'" and zero: "0 \<notin> set (g_issued (lw_hid w))"
  shows "token_inv_l w'"
proof -
  have q: "g_issued (lw_hid w') = g_issued (lw_hid w)"
    "\<And>j. holder_token (lw_holder w' j) = holder_token (lw_holder w j)"
    "(\<forall>j. live_token (lw_holder w' j) = live_token (lw_holder w j)) \<or> active_gen w' = 0"
    using assms(5) unfolding quiet_shape_def by blast+
  have "t \<noteq> active_gen w'"
    if "holder_token (lw_holder w' i) = Some t" "live_token (lw_holder w' i) = None" for i t
  proof -
    have t: "t \<in> set (g_issued (lw_hid w))" using assms(4) that(1) q(2) by (simp add: token_inv_l_def)
    show ?thesis
    proof (cases "active_gen w' = 0")
      case True
      then show ?thesis using t zero by metis
    next
      case False
      then have "t \<noteq> active_gen w" using q assms(4) that by (simp add: token_inv_l_def)
      then show ?thesis using lease_hid_facts(3) [OF assms(1-3) t] by simp
    qed
  qed
  then show ?thesis using assms(4) q(1,2) unfolding token_inv_l_def by metis
qed

lemma token_inv_issue:
  assumes "token_inv_l w" and n: "lw_holder w' = (lw_holder w)(i := Holding t)"
      "active_gen w' = t" "g_issued (lw_hid w') = g_issued (lw_hid w) @ [t]"
    and fresh: "t \<notin> set (g_issued (lw_hid w))"
  shows "token_inv_l w'"
proof -
  have old: "\<And>j u. holder_token (lw_holder w j) = Some u \<Longrightarrow> u \<in> set (g_issued (lw_hid w))"
    using assms(1) by (simp add: token_inv_l_def)
  then have "\<And>j u. holder_token (lw_holder w j) = Some u \<Longrightarrow> u \<noteq> t" using fresh by blast
  moreover have "\<And>j k u. holder_token (lw_holder w j) = Some u \<Longrightarrow> holder_token (lw_holder w k) = Some u \<Longrightarrow> j = k"
    using assms(1) by (simp add: token_inv_l_def)
  ultimately show ?thesis
    unfolding token_inv_l_def n using old by (auto split: if_splits)
qed

lemma active_token_step:
  assumes "lease_reach w" "lease_step e w = Some w'" "g_bumps (lw_hid w') < 2 ^ 64" "token_inv_l w"
  shows "token_inv_l w'"
proof -
  note hid = lease_hid_facts [OF assms(1,2)]
  have zero: "0 \<notin> set (g_issued (lw_hid w))"
    using issued_distinct [OF lease_reach_hid [OF assms(1)]] hid(1) assms(3) by auto
  consider "quiet_shape w w'" | "issue_shape w w'" using lease_step_shape [OF assms(2)] by blast
  then show ?thesis
  proof cases
    case 1
    then show ?thesis using token_inv_quiet [OF assms _ zero] by blast
  next
    case 2
    then obtain i t where n: "lw_holder w' = (lw_holder w)(i := Holding t)"
      "active_gen w' = t" "g_issued (lw_hid w') = g_issued (lw_hid w) @ [t]"
      unfolding issue_shape_def by blast
    then show ?thesis using token_inv_issue [OF assms(4) n] hid(4) [OF assms(3)] by simp
  qed
qed

lemma lease_inv_reach:
  assumes "lease_reach w"
  shows "active_inv w \<and> (g_bumps (lw_hid w) < 2 ^ 64 \<longrightarrow> token_inv_l w)"
  using assms
proof (induction rule: lease_reach.induct)
  case (start enabled)
  then show ?case
    by (simp add: newControlLease_def active_inv_def token_inv_l_def newHIDClient_def newHIDClient_core_def)
next
  case (step w e w')
  then show ?case
    using active_inv_step active_token_step lease_hid_facts(1) [OF step.hyps] by (meson le_less_trans)
qed


lemma stale_lease_run:
  assumes "lease_reach w" "lease_steps es w = Some w'" "g_bumps (lw_hid w') < 2 ^ 64"
  shows "g_bumps (lw_hid w) \<le> g_bumps (lw_hid w') \<and>
    (t \<in> set (g_issued (lw_hid w)) \<and> t \<noteq> active_gen w \<longrightarrow> t \<noteq> active_gen w')"
  using assms
proof (induction es arbitrary: w)
  case (Cons e es)
  then obtain v where v: "lease_step e w = Some v" "lease_steps es v = Some w'"
    by (auto split: option.splits)
  note hid = lease_hid_facts [OF Cons.prems(1) v(1)]
  have ih: "g_bumps (lw_hid v) \<le> g_bumps (lw_hid w') \<and>
    (t \<in> set (g_issued (lw_hid v)) \<and> t \<noteq> active_gen v \<longrightarrow> t \<noteq> active_gen w')"
    using Cons.IH [OF lease_reach.step [OF Cons.prems(1) v(1)] v(2) Cons.prems(3)] .
  then have b: "g_bumps (lw_hid v) < 2 ^ 64" using Cons.prems(3) by simp
  have "set (g_issued (lw_hid w)) \<subseteq> set (g_issued (lw_hid v))"
    using lease_step_shape [OF v(1)] by (auto simp: quiet_shape_def issue_shape_def)
  then show ?case using ih hid(1) hid(3) [OF b, of t] by auto
qed simp

section \<open>A lease to evaluate\<close>

lemma client_run:
  assumes "hid_run es h = Some h'" "\<forall>e \<in> set es. \<not> through_holder e"
    and "\<And>hid j. deliver hid (lw_holder w j) = lw_holder w j"
  shows "lease_steps (map LClient es) (w\<lparr>lw_hid := h\<rparr>) = Some (w\<lparr>lw_hid := h'\<rparr>)"
  using assms(1,2)
proof (induction es arbitrary: h)
  case (Cons e es)
  then obtain g where g: "hid_step e h = Some g" "hid_run es g = Some h'" by (auto split: option.splits)
  have "deliver g \<circ> lw_holder w = lw_holder w" using assms(3) by (simp add: fun_eq_iff)
  then have "lease_step (LClient e) (w\<lparr>lw_hid := h\<rparr>) = Some (w\<lparr>lw_hid := g\<rparr>)"
    using g(1) Cons.prems(2) by (simp add: client_step_def)
  with Cons g show ?case by simp
qed simp

text \<open>The client is ready, holder 0 has acquired the lease and has sent nothing yet.\<close>

definition held_world :: lease_world where
  "held_world = \<lparr>lw_enabled = True, lw_slot = True, lw_holder = (\<lambda>_. NotAcquired)(0 := Holding 1),
     lw_hid = ready_world\<lparr>w_core := (w_core ready_world)\<lparr>hc_genCounter := 1, hc_activeGen := 1,
       hc_activeDone := Some 0, hc_nextDone := 1\<rparr>, g_since := 0, g_bumps := 1, g_issued := [1]\<rparr>\<rparr>"

lemma held_world_reach: "lease_reach held_world"
proof -
  let ?w = "newControlLease True newHIDClient"
  have r: "lease_steps (map LClient handshake_events) (?w\<lparr>lw_hid := newHIDClient\<rparr>) = Some (?w\<lparr>lw_hid := ready_world\<rparr>)"
    by (rule client_run [OF handshake_run]) (simp_all add: handshake_events_def newControlLease_def deliver_def)
  have "?w\<lparr>lw_hid := newHIDClient\<rparr> = ?w" by (simp add: newControlLease_def)
  with r have "lease_steps (map LClient handshake_events) ?w = Some (?w\<lparr>lw_hid := ready_world\<rparr>)"
    by simp
  from lease_reach_steps [OF lease_reach.start this] have "lease_reach (?w\<lparr>lw_hid := ready_world\<rparr>)" .
  moreover have "lease_steps [LAcquire 0 True 1, LTake 0, LHold 0] (?w\<lparr>lw_hid := ready_world\<rparr>) = Some held_world"
    by (simp add: acquire_defs newControlLease_def held_world_def ready_world_def newHIDClient_def
        newHIDClient_core_def begin_lease_def lifecycle_free_def beginLeaseLocked_def held_any_def no_held_def
        observe_revoked_def Let_def)
  ultimately show ?thesis using lease_reach_steps by blast
qed

section \<open>Properties\<close>

lemma dormant_step:
  assumes "lw_holder w k = NotAcquired \<or> lw_holder w k = Refused er"
  shows "take_slot k w = None" "wait_ended k w = None" "hold k w = None" "release k c w = None"
    "release_locked k w = None" "release_timed_out k w = None" "free_slot k w = None"
    "close_done k w = None" "held_send k s c w = None"
  using assms
  by (auto simp: take_slot_def wait_ended_def hold_def release_def release_locked_def release_timed_out_def
      free_slot_def close_done_def held_send_def)

lemma enabled_inv: "lease_reach w \<Longrightarrow> \<not> lw_enabled w \<Longrightarrow> lw_holder w i = NotAcquired \<or>
    lw_holder w i = Refused ErrControlDisabled"
proof (induction arbitrary: i rule: lease_reach.induct)
  case (start enabled)
  then show ?case by (simp add: newControlLease_def)
next
  case (step w e w')
  have same: "lw_enabled w' = lw_enabled w"
    using step.hyps(2)
    by (cases e) (auto simp: acquire_defs release_defs
        split: holder.splits if_splits option.splits sum.splits bool.splits)
  with step have h: "\<And>j. lw_holder w j = NotAcquired \<or> lw_holder w j = Refused ErrControlDisabled"
    by simp
  have nt: "deliver hid (lw_holder w j) = lw_holder w j" for hid j
    using h [of j] by (auto simp: deliver_def)
  show ?case
  proof (cases e)
    case (LAcquire j b ctx)
    then have "lw_holder w' = (lw_holder w)(j := Refused ErrControlDisabled)"
      using step.hyps(2) step.prems same by (auto simp: acquire_def set_holder_def split: if_splits)
    then show ?thesis using h [of i] by simp
  next
    case (LClient he)
    then have "lw_holder w' = lw_holder w"
      using step.hyps(2) nt by (auto simp: client_step_def fun_eq_iff split: if_splits option.splits)
    then show ?thesis using h [of i] by simp
  qed (use step.hyps(2) dormant_step [OF h] in simp_all)
qed

text \<open>
  C20. The lease slot excludes. The semaphore is taken exactly while one acquisition is between the
  select and the return of its \<open>Release\<close>, and never by two at once; a disabled lease never admits
  anyone. So a blocking acquisition waits and a \<open>TryAcquire\<close> is refused with \<open>ErrControlHeld\<close>
  exactly while another holder is there.
\<close>

theorem slot_is_exclusive:
  assumes "lease_reach w"
  shows "(lw_slot w \<longleftrightarrow> (\<exists>i. occupies (lw_holder w i))) \<and>
    (\<forall>i j. occupies (lw_holder w i) \<and> occupies (lw_holder w j) \<longrightarrow> i = j) \<and>
    (\<not> lw_enabled w \<longrightarrow> \<not> lw_slot w)"
proof -
  obtain occ where o: "lw_slot w \<longleftrightarrow> occ \<noteq> None" "\<forall>i. occupies (lw_holder w i) \<longleftrightarrow> occ = Some i"
    using slot_inv_reach [OF assms] unfolding slot_inv_def by blast
  have "\<not> lw_slot w" if "\<not> lw_enabled w"
    using enabled_inv [OF assms that] o by (metis not_None_eq occupies.simps(6,8))
  with o show ?thesis by auto
qed


theorem slot_is_exclusive_witness:
  "lw_slot held_world \<and> occupies (lw_holder held_world 0) \<and> \<not> occupies (lw_holder held_world 1) \<and>
   (\<exists>w'. lease_steps [LAcquire 1 False 1, LTake 1] held_world = Some w' \<and>
      lw_holder w' 1 = Refused ErrControlHeld \<and> lease_steps [LAcquire 1 True 1, LTake 1] held_world = None)"
  using slot_is_exclusive [OF held_world_reach]
  by (simp add: held_world_def acquire_defs ready_world_def newHIDClient_def)

text \<open>
  The active generation is the token of exactly one holder, and of one whose release has not
  revoked it: a holder that sends, that waits in \<open>Release\<close> for the lifecycle, or whose \<open>Release\<close>
  ran out of its 2 s there. Bound: fewer than \<open>2^64\<close> generation changes.
\<close>

theorem generation_belongs_to_one_holder:
  assumes "lease_reach w" and "g_bumps (lw_hid w) < 2 ^ 64" and "hc_activeGen (w_core (lw_hid w)) \<noteq> 0"
  shows "\<exists>i. live_token (lw_holder w i) = Some (hc_activeGen (w_core (lw_hid w))) \<and>
    (\<forall>j. holder_token (lw_holder w j) = Some (hc_activeGen (w_core (lw_hid w))) \<longrightarrow> j = i)"
proof -
  obtain i where i: "live_token (lw_holder w i) = Some (active_gen w)"
    using lease_inv_reach [OF assms(1)] assms(3) unfolding active_inv_def by blast
  have "token_inv_l w" using lease_inv_reach [OF assms(1)] assms(2) by blast
  then show ?thesis using i live_is_token [OF i] unfolding token_inv_l_def by blast
qed

theorem generation_belongs_to_one_holder_witness:
  "\<exists>i. live_token (lw_holder held_world i) = Some 1 \<and>
     {j. holder_token (lw_holder held_world j) = Some 1} = {i}"
proof -
  have "g_bumps (lw_hid held_world) < 2 ^ 64" "hc_activeGen (w_core (lw_hid held_world)) = 1"
    by (simp_all add: held_world_def)
  then obtain i where "live_token (lw_holder held_world i) = Some 1"
      "\<forall>j. holder_token (lw_holder held_world j) = Some 1 \<longrightarrow> j = i"
    using generation_belongs_to_one_holder [OF held_world_reach] by auto
  moreover from this(1) have "holder_token (lw_holder held_world i) = Some 1"
    by (rule live_is_token)
  ultimately show ?thesis by blast
qed

text \<open>
  C21. A released holder is powerless. Once a holder's release has revoked its generation, whatever
  the client does afterwards, no frame under that token passes the final check before the wire,
  also one that was queued before the release or is sent before \<open>Done\<close> is closed.
\<close>

theorem released_holder_is_powerless:
  assumes "lease_reach w" and "holder_token (lw_holder w i) = Some t" and "live_token (lw_holder w i) = None"
    and "lease_steps es w = Some w'" and "g_bumps (lw_hid w') < 2 ^ 64"
    and "\<not> rq_privileged r" and "rq_token r = t"
  shows "\<not> is_ok (checkWritableLocked r (w_core (lw_hid w')))"
proof -
  have "t \<in> set (g_issued (lw_hid w)) \<and> t \<noteq> active_gen w" if "g_bumps (lw_hid w) < 2 ^ 64"
    using lease_inv_reach [OF assms(1)] that assms(2,3) unfolding token_inv_l_def by blast
  then have "t \<noteq> active_gen w'"
    using stale_lease_run [OF assms(1,4,5), of t] assms(5) le_less_trans by blast
  then show ?thesis
    using checkWritableLocked_ordinary [OF assms(6), of "w_core (lw_hid w')"] assms(7)
    by (cases "checkWritableLocked r (w_core (lw_hid w'))") auto
qed

theorem released_holder_is_powerless_witness:
  "\<exists>w. lease_steps [LRelease 0 2, LLocked 0] held_world = Some w \<and>
     lw_holder w 0 = Neutralizing 1 \<and> \<not> is_ok (checkWritableLocked pressed_request (w_core (lw_hid w)))"
proof -
  have held: "hc_held (w_core (lw_hid held_world)) = no_held"
    by (simp add: held_world_def ready_world_def newHIDClient_core_def)
  obtain plan where plan: "buildNeutralizationPlan no_held = Inr plan"
    by (simp add: buildNeutralizationPlan_def ReleaseAllKeyboardReport_eq ReleaseAllMouseReport_eq
        no_held_def Let_def)
  obtain w where w: "lease_steps [LRelease 0 2, LLocked 0] held_world = Some w"
    "lw_holder w 0 = Neutralizing 1" "g_bumps (lw_hid w) = 2"
    using plan by (simp add: release_defs held_world_def rel_start_def lifecycle_free_def ready_world_def
        newHIDClient_def newHIDClient_core_def observe_revoked_def invalidateLeaseLocked_def Let_def)
  then have "lease_reach w" using lease_reach_steps [OF held_world_reach] by blast
  moreover have "\<not> rq_privileged pressed_request" "rq_token pressed_request = 1"
    by (simp_all add: pressed_request_def request_def)
  ultimately show ?thesis
    using released_holder_is_powerless [of w 0 1 "[]" w pressed_request] w by auto
qed


text \<open>
  The one exception to "the generation is revoked first": a release whose 2 s run out before it has
  the lifecycle. If it was waiting for another release, that one has revoked the generation.
\<close>

lemma timed_out_behind_release:
  assumes "lease_reach w" "lease_step (LTimedOut i) w = Some w'" "\<not> lifecycle_free (lw_hid w)"
  shows "active_gen w' = 0"
proof -
  have "lw_hid w' = lw_hid w"
    using assms(2) by (auto simp: release_timed_out_def set_holder_def split: holder.splits if_splits)
  then show ?thesis
    using release_inv_reach [OF lease_reach_hid [OF assms(1)]] assms(3)
    by (simp add: release_inv_def lifecycle_free_def)
qed

section \<open>Between two leases\<close>

text \<open>A frame of an ended lease that is still in flight under the next lease presses nothing.\<close>

definition crossing_inv :: "world \<Rightarrow> bool" where
  "crossing_inv w \<longleftrightarrow> (\<forall>r d. w_writer w = WSend r d \<and> \<not> rq_privileged r \<and>
     hc_activeGen (w_core w) \<noteq> 0 \<and> rq_token r \<noteq> hc_activeGen (w_core w) \<longrightarrow> held_le r no_held)"

lemma crossing_inv_step:
  assumes "hid_reach w" "hstep w w'" "crossing_inv w"
  shows "crossing_inv w'"
  using assms(2)
proof (cases rule: hstep.cases)
  case (lease c g h)
  have "held_le r no_held" if "w_writer w = WSend r d" for r d
    using held_inv_reach [OF assms(1)] that lease(3)
    by (auto simp: held_inv_def held_le_def beginLeaseLocked_Inr_iff held_any_def split: option.splits)
  then show ?thesis using lease by (auto simp: crossing_inv_def observe_revoked_def)
next
  case (commit req d h)
  then have "\<not> rq_privileged req \<Longrightarrow> rq_token req = hc_activeGen (w_core w)"
    by (auto simp: commit_write_Inr_iff checkWritableLocked_ordinary)
  then show ?thesis using commit commit_write_core [OF commit(3)] by (auto simp: crossing_inv_def)
qed (use assms(3) in \<open>auto simp: crossing_inv_def core_op_defs\<close>)

lemma crossing_inv_reach: "hid_reach w \<Longrightarrow> crossing_inv w"
proof (induction rule: hid_reach_inv)
  case start
  show ?case by (simp add: crossing_inv_def newHIDClient_def)
next
  case (step w w')
  then show ?case using crossing_inv_step by blast
qed


text \<open>
  C22. No press crosses from one lease to the next. A frame committed under an ended lease may still
  reach the wire when the next lease is already active, because its \<open>Send\<close> was in progress; but such
  a frame puts nothing down: each interface is down after it only if it was before.
\<close>

theorem no_press_crosses_leases:
  assumes "hid_reach w" and "hid_step e w = Some w'" and "w_wire w' = w_wire w @ [r]"
    and "\<not> rq_privileged r" and "hc_activeGen (w_core w) \<noteq> 0" and "rq_token r \<noteq> hc_activeGen (w_core w)"
  shows "(dh_keyboard (dev_apply (rq_frame r) d) \<longrightarrow> dh_keyboard d) \<and>
    (dh_absolute (dev_apply (rq_frame r) d) \<longrightarrow> dh_absolute d) \<and>
    (dh_relative (dev_apply (rq_frame r) d) \<longrightarrow> dh_relative d)"
proof -
  obtain c where c: "w_writer w = WSend r c"
    using hid_step_hstep [OF assms(2)] assms(3)
    by (cases rule: hstep.cases) (auto simp: core_op_defs)
  then have "held_le r no_held" using crossing_inv_reach [OF assms(1)] assms(4-6) by (simp add: crossing_inv_def)
  moreover have "request_ok r"
    using queue_inv_reach [OF assms(1)] c by (simp add: queue_inv_def pending_def)
  ultimately show ?thesis
    by (auto simp: request_ok_def set_by_def held_le_def no_held_def split: option.splits)
qed

definition moving_request :: hidRequest where
  "moving_request = request [3, 0, 0, 0, 7, 0, 0, 0, 9, 0] 1 1 1
     (Some (no_held\<lparr>hi_absolutePositionKnown := True, hi_absoluteX := 7, hi_absoluteY := 9\<rparr>)) False"

text \<open>A pointer move is in flight, its lease ends without confirmation, and the next lease begins.\<close>

definition crossing_world :: world where
  "crossing_world = ready_world
     \<lparr>w_core := (w_core ready_world)\<lparr>hc_genCounter := 3, hc_activeGen := 3, hc_activeDone := Some 1,
        hc_nextDone := 2, hc_held := no_held\<lparr>hi_absolutePositionKnown := True, hi_absoluteX := 7,
          hi_absoluteY := 9\<rparr>\<rparr>,
      w_writer := WSend moving_request None, w_nextId := 2, g_since := 0, g_bumps := 3,
      g_issued := [1, 3], w_deadCtx := (\<lambda>_. False)(2 := True), w_relCtx := 2, g_outcome := Some Unverified,
      w_relPlan := \<lparr>np_frames = [[2, 0, 0, 0, 0, 0, 0, 0], [6, 0, 0, 0]], np_keyboard = True,
        np_relativeButtons = True, np_absoluteButtons = False\<rparr>\<rparr>"

lemma crossing_world_reach: "hid_reach crossing_world"
proof -
  have s: "send_request (SendPointerReport 7 9 0) 1 1 1 = Inr moving_request"
    by (simp add: moving_request_def EncodePointerReport_Inr_iff pointer_in_range_def no_held_def
        EncodePointerReport_def Marshal_def bound_defs message_type_defs put_u32_be_def)
  have z: "replicate 6 (0::byte) = [0, 0, 0, 0, 0, 0]" by (simp add: numeral_eq_Suc)
  have "hid_run (BeginLease 1 # input_events (SendPointerReport 7 9 0) 1 @
      [RelStart 2 None, CancelCtx 2, RelCtxDone, BeginLease 1]) ready_world = Some crossing_world"
    using s z
    by (simp add: crossing_world_def ready_world_def input_events_def newHIDClient_def newHIDClient_core_def
        run_defs moving_request_def buildNeutralizationPlan_def ReleaseAllKeyboardReport_eq
        ReleaseAllMouseReport_eq Let_def)
  then show ?thesis using hid_reach_run ready_world_reach by blast
qed

theorem no_press_crosses_leases_witness:
  "\<exists>w'. hid_step (TransportSend True True) crossing_world = Some w' \<and>
     w_wire w' = w_wire crossing_world @ [moving_request] \<and>
     \<not> dh_absolute (dev_apply (rq_frame moving_request) dev_neutral)"
proof -
  obtain w' where w: "hid_step (TransportSend True True) crossing_world = Some w'"
    "w_wire w' = w_wire crossing_world @ [moving_request]"
    by (simp add: write_send_def crossing_world_def moving_request_def request_def)
  moreover have "\<not> rq_privileged moving_request" "rq_token moving_request = 1"
    "hc_activeGen (w_core crossing_world) = 3"
    by (simp_all add: moving_request_def request_def crossing_world_def)
  ultimately show ?thesis
    using no_press_crosses_leases [OF crossing_world_reach w, of dev_neutral]
    by (auto simp: dev_neutral_def)
qed

end
