(* ===== verification/Rpc.thy ===== *)
theory Rpc
  imports Prelude
begin

text \<open>
  The JSON-RPC client of \<open>rpc.go\<close> as one transition system: callers inside \<open>call\<close> and \<open>send\<close>, the
  message and close callbacks of the data channel, and the deliveries to the callers' channels.
  A step is one critical section, one channel operation or one transport call.

  What a data-channel message decodes to is the JSON decoder's: \<open>rpc_frame\<close> lists the cases the
  code distinguishes. Fields starting with \<open>g_\<close> are observations; no step reads them.
\<close>

section \<open>Frames and results\<close>

definition maxRPCFrameBytes :: nat where "maxRPCFrameBytes = 65536"

definition maxRPCBufferedAmount :: nat where "maxRPCBufferedAmount = 65536"

text \<open>
  A response as far as \<open>call\<close> looks at it: the code of its error object (if the object is there, and
  if the code is), and whether its result decodes into the caller's value.
\<close>

record rpcResponse =
  rs_error :: "int option option"
  rs_decodes :: bool

datatype rpc_error =
    RPCTimeout
  | RPCBadFrame
  | RPCUnreachable
  | ErrRPCBufferFull nat nat nat
  | RPCEncode
  | RPCError string "int option"

datatype rpcCallResult = RPCResponse nat rpcResponse | RPCFailure rpc_error

text \<open>The decoded message; the ID of a response is \<open>None\<close> when it is no 64-bit number.\<close>

datatype rpc_frame =
    Undecodable
  | Event
  | BadResponse
  | Response "u64 option" rpcResponse

text \<open>What \<open>call\<close> returns; \<open>ambiguous\<close> is \<open>errors.Is(err, errRPCAmbiguousDelivery)\<close>.\<close>

datatype rpc_return = CallOK | CallError rpc_error bool

section \<open>The state\<close>

record rpc_request =
  rr_method :: string
  rr_ctx :: nat
  rr_bytes :: "nat option"

text \<open>\<open>rr_bytes\<close> is the length of the marshalled request, or none if it cannot be marshalled.\<close>

datatype call_pc =
    Idle
  | Register u64
  | SendLock u64
  | SendBuffered u64
  | SendGate u64 nat
  | SendText u64
  | Await u64
  | Done rpc_return

record rpcClient =
  rc_nextID :: u64
  rc_pending :: "u64 \<rightharpoonup> nat"
  rc_chan :: "nat \<Rightarrow> rpcCallResult option"
  rc_deliver :: "(nat \<times> rpcCallResult) list"
  rc_sendMu :: "nat option"
  rc_buffered :: nat
  rc_call :: "nat \<Rightarrow> call_pc"
  rc_req :: "nat \<Rightarrow> rpc_request"
  rc_deadCtx :: "nat \<Rightarrow> bool"
  g_calls :: nat
  g_id :: "nat \<Rightarrow> u64 option"
  g_sent :: "nat set"
  g_serial :: nat
  g_respID :: "nat \<Rightarrow> u64 option"
  g_got :: "nat \<Rightarrow> rpcCallResult option"

definition newRPCClient :: "(nat \<Rightarrow> rpc_request) \<Rightarrow> rpcClient" where
  "newRPCClient reqs = \<lparr>rc_nextID = 0, rc_pending = (\<lambda>_. None), rc_chan = (\<lambda>_. None), rc_deliver = [],
     rc_sendMu = None, rc_buffered = 0, rc_call = (\<lambda>_. Idle), rc_req = reqs, rc_deadCtx = (\<lambda>_. False),
     g_calls = 0, g_id = (\<lambda>_. None), g_sent = {}, g_serial = 0, g_respID = (\<lambda>_. None),
     g_got = (\<lambda>_. None)\<rparr>"

definition ctx_dead :: "nat \<Rightarrow> rpcClient \<Rightarrow> bool" where
  "ctx_dead n c \<longleftrightarrow> rc_deadCtx c (rr_ctx (rc_req c n))"

definition goto :: "nat \<Rightarrow> call_pc \<Rightarrow> rpcClient \<Rightarrow> rpcClient" where
  "goto n pc c = c\<lparr>rc_call := (rc_call c)(n := pc)\<rparr>"

text \<open>A return runs the deferred \<open>delete(c.pending, id)\<close>.\<close>

definition return :: "nat \<Rightarrow> u64 \<Rightarrow> rpc_return \<Rightarrow> rpcClient \<Rightarrow> rpcClient" where
  "return n i r c = (goto n (Done r) c)\<lparr>rc_pending := (rc_pending c)(i := None)\<rparr>"

section \<open>Calling\<close>

text \<open>The entry of \<open>call\<close>: context, fresh ID, marshalling.\<close>

definition call_begin :: "nat \<Rightarrow> rpcClient \<Rightarrow> rpcClient option" where
  "call_begin n c = (case rc_call c n of
      Idle \<Rightarrow> Some (if ctx_dead n c then goto n (Done (CallError RPCTimeout False)) c
        else let i = rc_nextID c + 1;
                 c' = c\<lparr>rc_nextID := i, g_calls := g_calls c + 1, g_id := (g_id c)(n := Some i)\<rparr> in
          (case rr_bytes (rc_req c n) of
             None \<Rightarrow> goto n (Done (CallError RPCEncode False)) c'
           | Some _ \<Rightarrow> goto n (Register i) c'))
    | _ \<Rightarrow> None)"

definition call_register :: "nat \<Rightarrow> rpcClient \<Rightarrow> rpcClient option" where
  "call_register n c = (case rc_call c n of
      Register i \<Rightarrow> Some ((goto n (SendLock i) c)\<lparr>rc_pending := (rc_pending c)(i \<mapsto> n)\<rparr>)
    | _ \<Rightarrow> None)"

text \<open>\<open>send\<close>: under \<open>sendMu\<close> the buffered amount is read, then the context, then the limit.\<close>

definition send_lock :: "nat \<Rightarrow> rpcClient \<Rightarrow> rpcClient option" where
  "send_lock n c = (case rc_call c n of
      SendLock i \<Rightarrow> (if rc_sendMu c = None then Some ((goto n (SendBuffered i) c)\<lparr>rc_sendMu := Some n\<rparr>)
                     else None)
    | _ \<Rightarrow> None)"

definition send_buffered :: "nat \<Rightarrow> rpcClient \<Rightarrow> rpcClient option" where
  "send_buffered n c = (case rc_call c n of
      SendBuffered i \<Rightarrow> Some (goto n (SendGate i (rc_buffered c)) c)
    | _ \<Rightarrow> None)"

definition frame_bytes :: "nat \<Rightarrow> rpcClient \<Rightarrow> nat" where
  "frame_bytes n c = (case rr_bytes (rc_req c n) of None \<Rightarrow> 0 | Some b \<Rightarrow> b)"

definition send_gate :: "nat \<Rightarrow> rpcClient \<Rightarrow> rpcClient option" where
  "send_gate n c = (case rc_call c n of
      SendGate i amount \<Rightarrow>
        (let b = frame_bytes n c in
         Some (if ctx_dead n c
               then (return n i (CallError RPCTimeout False) c)\<lparr>rc_sendMu := None\<rparr>
               else if b > maxRPCBufferedAmount \<or> amount > maxRPCBufferedAmount - b
               then (return n i (CallError (ErrRPCBufferFull amount b maxRPCBufferedAmount) False) c)
                  \<lparr>rc_sendMu := None\<rparr>
               else goto n (SendText i) c))
    | _ \<Rightarrow> None)"

text \<open>
  \<open>SendText\<close>; \<open>accepted\<close> says whether the bytes went out when it fails. Its failure is
  \<open>unreachable\<close>, or a timeout when the context has ended, and ambiguous either way.
\<close>

definition send_text :: "nat \<Rightarrow> bool \<Rightarrow> bool \<Rightarrow> rpcClient \<Rightarrow> rpcClient option" where
  "send_text n ok accepted c = (case rc_call c n of
      SendText i \<Rightarrow>
        (let c' = c\<lparr>rc_sendMu := None, g_sent := insert n (g_sent c),
                    rc_buffered := (if ok \<or> accepted then rc_buffered c + frame_bytes n c
                                    else rc_buffered c)\<rparr> in
         Some (if ok then goto n (Await i) c'
               else return n i (CallError (if ctx_dead n c then RPCTimeout else RPCUnreachable) True) c'))
    | _ \<Rightarrow> None)"

section \<open>Waiting for the response\<close>

definition response_return :: "string \<Rightarrow> bool \<Rightarrow> rpcResponse \<Rightarrow> rpc_return" where
  "response_return m dead resp =
    (if dead then CallError RPCTimeout False
     else case rs_error resp of
        Some code \<Rightarrow> CallError (RPCError m code) False
      | None \<Rightarrow> if rs_decodes resp then CallOK else CallError RPCBadFrame False)"

definition result_return :: "string \<Rightarrow> bool \<Rightarrow> rpcCallResult \<Rightarrow> rpc_return" where
  "result_return m dead r = (case r of
      RPCFailure e \<Rightarrow> CallError (if dead then RPCTimeout else e) True
    | RPCResponse _ resp \<Rightarrow> response_return m dead resp)"

definition call_result :: "nat \<Rightarrow> rpcClient \<Rightarrow> rpcClient option" where
  "call_result n c = (case (rc_call c n, rc_chan c n) of
      (Await i, Some r) \<Rightarrow>
        Some ((return n i (result_return (rr_method (rc_req c n)) (ctx_dead n c) r) c)
          \<lparr>rc_chan := (rc_chan c)(n := None), g_got := (g_got c)(n \<mapsto> r)\<rparr>)
    | _ \<Rightarrow> None)"

definition call_ctx_done :: "nat \<Rightarrow> rpcClient \<Rightarrow> rpcClient option" where
  "call_ctx_done n c = (case rc_call c n of
      Await i \<Rightarrow> (if ctx_dead n c then Some (return n i (CallError RPCTimeout True) c) else None)
    | _ \<Rightarrow> None)"

section \<open>Callbacks\<close>

text \<open>\<open>failPending\<close> takes the whole map; the deliveries follow one by one, in any order.\<close>

definition failPending :: "rpc_error \<Rightarrow> nat list \<Rightarrow> rpcClient \<Rightarrow> rpcClient option" where
  "failPending e order c =
    (if distinct order \<and> set order = ran (rc_pending c) then
       Some (c\<lparr>rc_pending := (\<lambda>_. None), rc_deliver := rc_deliver c @ map (\<lambda>n. (n, RPCFailure e)) order\<rparr>)
     else None)"

definition handleMessage :: "nat \<Rightarrow> rpc_frame \<Rightarrow> nat list \<Rightarrow> rpcClient \<Rightarrow> rpcClient option" where
  "handleMessage bytes frm order c =
    (if bytes > maxRPCFrameBytes then failPending RPCBadFrame order c
     else case frm of
        Undecodable \<Rightarrow> failPending RPCBadFrame order c
      | Event \<Rightarrow> Some c
      | BadResponse \<Rightarrow> failPending RPCBadFrame order c
      | Response None _ \<Rightarrow> failPending RPCBadFrame order c
      | Response (Some i) resp \<Rightarrow>
          (let c' = c\<lparr>g_serial := g_serial c + 1, g_respID := (g_respID c)(g_serial c \<mapsto> i)\<rparr> in
           case rc_pending c i of
             None \<Rightarrow> Some c'
           | Some n \<Rightarrow> Some (c'\<lparr>rc_pending := (rc_pending c)(i := None),
               rc_deliver := rc_deliver c @ [(n, RPCResponse (g_serial c) resp)]\<rparr>)))"

text \<open>\<open>ch <- result\<close> on a channel of capacity one: it waits while the channel is full.\<close>

definition deliver_result :: "nat \<Rightarrow> rpcClient \<Rightarrow> rpcClient option" where
  "deliver_result k c =
    (if k < length (rc_deliver c) then
       (case rc_deliver c ! k of (n, r) \<Rightarrow>
          (if rc_chan c n = None
           then Some (c\<lparr>rc_chan := (rc_chan c)(n \<mapsto> r),
                        rc_deliver := take k (rc_deliver c) @ drop (Suc k) (rc_deliver c)\<rparr>)
           else None))
     else None)"

datatype rpc_event =
    CallBegin nat | CallRegister nat | LockSend nat | ReadBuffered nat | GateSend nat
  | TextSend nat bool bool | TakeResult nat | CtxDone nat
  | Message nat rpc_frame "nat list" | ChannelClosed "nat list" | Deliver nat
  | Cancel nat | Drained nat

fun rpc_step :: "rpc_event \<Rightarrow> rpcClient \<Rightarrow> rpcClient option" where
  "rpc_step (CallBegin n) c = call_begin n c"
| "rpc_step (CallRegister n) c = call_register n c"
| "rpc_step (LockSend n) c = send_lock n c"
| "rpc_step (ReadBuffered n) c = send_buffered n c"
| "rpc_step (GateSend n) c = send_gate n c"
| "rpc_step (TextSend n ok acc) c = send_text n ok acc c"
| "rpc_step (TakeResult n) c = call_result n c"
| "rpc_step (CtxDone n) c = call_ctx_done n c"
| "rpc_step (Message bytes frm order) c = handleMessage bytes frm order c"
| "rpc_step (ChannelClosed order) c = failPending RPCUnreachable order c"
| "rpc_step (Deliver k) c = deliver_result k c"
| "rpc_step (Cancel x) c = Some (c\<lparr>rc_deadCtx := (rc_deadCtx c)(x := True)\<rparr>)"
| "rpc_step (Drained b) c = (if b \<le> rc_buffered c then Some (c\<lparr>rc_buffered := b\<rparr>) else None)"

fun rpc_run :: "rpc_event list \<Rightarrow> rpcClient \<Rightarrow> rpcClient option" where
  "rpc_run [] c = Some c"
| "rpc_run (e # es) c = (case rpc_step e c of None \<Rightarrow> None | Some c' \<Rightarrow> rpc_run es c')"

inductive rpc_reach :: "rpcClient \<Rightarrow> bool" where
  start: "rpc_reach (newRPCClient reqs)"
| step: "rpc_reach c \<Longrightarrow> rpc_step e c = Some c' \<Longrightarrow> rpc_reach c'"

lemma rpc_reach_run: "rpc_reach c \<Longrightarrow> rpc_run es c = Some c' \<Longrightarrow> rpc_reach c'"
  by (induction es arbitrary: c) (auto split: option.splits intro: rpc_reach.step)

lemmas caller_defs = call_begin_def call_register_def send_lock_def send_buffered_def send_gate_def
  send_text_def call_result_def call_ctx_done_def goto_def return_def

lemmas callback_defs = failPending_def handleMessage_def deliver_result_def

end
