(* ===== verification/Rpc_Properties.thy ===== *)
theory Rpc_Properties
  imports Rpc
begin

text \<open>
  The properties of the JSON-RPC client over every interleaving: the outbound buffer, what a return
  says about the delivery of the request, and the deliveries of responses.
\<close>

section \<open>The shape of every step\<close>

definition numbered :: "nat \<Rightarrow> rpcClient \<Rightarrow> rpcClient" where
  "numbered n c = c\<lparr>rc_nextID := rc_nextID c + 1, g_calls := Suc (g_calls c),
     g_id := (g_id c)(n \<mapsto> rc_nextID c + 1)\<rparr>"

definition answered :: "u64 \<Rightarrow> rpcClient \<Rightarrow> rpcClient" where
  "answered i c = c\<lparr>g_serial := Suc (g_serial c), g_respID := (g_respID c)(g_serial c \<mapsto> i)\<rparr>"

definition texted :: "nat \<Rightarrow> nat \<Rightarrow> rpcClient \<Rightarrow> rpcClient" where
  "texted n b c = c\<lparr>rc_sendMu := None, g_sent := insert n (g_sent c), rc_buffered := b\<rparr>"

inductive rstep :: "rpcClient \<Rightarrow> rpcClient \<Rightarrow> bool" where
  stutter: "rstep c c"
| early: "rc_call c n = Idle \<Longrightarrow> rstep c (goto n (Done (CallError e False)) c)"
| unencoded: "rc_call c n = Idle \<Longrightarrow> rstep c (goto n (Done (CallError e False)) (numbered n c))"
| begun: "rc_call c n = Idle \<Longrightarrow> rstep c (goto n (Register (rc_nextID c + 1)) (numbered n c))"
| registered: "rc_call c n = Register i \<Longrightarrow>
    rstep c ((goto n (SendLock i) c)\<lparr>rc_pending := (rc_pending c)(i \<mapsto> n)\<rparr>)"
| locked: "rc_call c n = SendLock i \<Longrightarrow> rc_sendMu c = None \<Longrightarrow>
    rstep c ((goto n (SendBuffered i) c)\<lparr>rc_sendMu := Some n\<rparr>)"
| amount_read: "rc_call c n = SendBuffered i \<Longrightarrow> rstep c (goto n (SendGate i (rc_buffered c)) c)"
| gate_closed: "rc_call c n = SendGate i a \<Longrightarrow>
    rstep c ((return n i (CallError e False) c)\<lparr>rc_sendMu := None\<rparr>)"
| gate_open: "rc_call c n = SendGate i a \<Longrightarrow> a + frame_bytes n c \<le> 65536 \<Longrightarrow>
    rstep c (goto n (SendText i) c)"
| sent: "rc_call c n = SendText i \<Longrightarrow> rstep c (goto n (Await i) (texted n (rc_buffered c + frame_bytes n c) c))"
| send_failed: "rc_call c n = SendText i \<Longrightarrow> b \<le> rc_buffered c + frame_bytes n c \<Longrightarrow>
    rstep c (return n i (CallError e True) (texted n b c))"
| taken: "rc_call c n = Await i \<Longrightarrow> rc_chan c n = Some r \<Longrightarrow>
    rstep c ((return n i (result_return m dead r) c)
      \<lparr>rc_chan := (rc_chan c)(n := None), g_got := (g_got c)(n \<mapsto> r)\<rparr>)"
| abandoned: "rc_call c n = Await i \<Longrightarrow> rstep c (return n i (CallError RPCTimeout True) c)"
| failed: "distinct ns \<Longrightarrow> set ns = ran (rc_pending c) \<Longrightarrow>
    rstep c (c\<lparr>rc_pending := (\<lambda>_. None), rc_deliver := rc_deliver c @ map (\<lambda>n. (n, RPCFailure e)) ns\<rparr>)"
| unmatched: "rstep c (answered i c)"
| matched: "rc_pending c i = Some n \<Longrightarrow>
    rstep c ((answered i c)\<lparr>rc_pending := (rc_pending c)(i := None),
      rc_deliver := rc_deliver c @ [(n, RPCResponse (g_serial c) resp)]\<rparr>)"
| delivered: "rc_deliver c = us @ (n, r) # vs \<Longrightarrow> rc_chan c n = None \<Longrightarrow>
    rstep c (c\<lparr>rc_chan := (rc_chan c)(n \<mapsto> r), rc_deliver := us @ vs\<rparr>)"
| cancelled: "rstep c (c\<lparr>rc_deadCtx := d\<rparr>)"
| drained: "b \<le> rc_buffered c \<Longrightarrow> rstep c (c\<lparr>rc_buffered := b\<rparr>)"

lemma call_begin_rstep: "call_begin n c = Some c' \<Longrightarrow> rstep c c'"
  using rstep.early [of c n RPCTimeout] rstep.unencoded [of c n RPCEncode] rstep.begun [of c n]
  by (auto simp: call_begin_def numbered_def Let_def split: call_pc.splits if_splits option.splits)

lemma send_rstep:
  "call_register n c = Some c' \<Longrightarrow> rstep c c'"
  "send_lock n c = Some c' \<Longrightarrow> rstep c c'"
  "send_buffered n c = Some c' \<Longrightarrow> rstep c c'"
  by (auto simp: call_register_def send_lock_def send_buffered_def split: call_pc.splits if_splits
      intro: rstep.registered rstep.locked rstep.amount_read)

lemma send_gate_rstep: "send_gate n c = Some c' \<Longrightarrow> rstep c c'"
  by (auto simp: send_gate_def Let_def maxRPCBufferedAmount_def split: call_pc.splits if_splits
      intro: rstep.gate_closed rstep.gate_open)

lemma send_text_rstep: "send_text n ok acc c = Some c' \<Longrightarrow> rstep c c'"
proof -
  assume s: "send_text n ok acc c = Some c'"
  then obtain i where i: "rc_call c n = SendText i" by (auto simp: send_text_def split: call_pc.splits)
  show ?thesis
  proof (cases ok)
    case True
    with s i have "c' = goto n (Await i) (texted n (rc_buffered c + frame_bytes n c) c)"
      by (simp add: send_text_def texted_def)
    then show ?thesis using rstep.sent [OF i] by simp
  next
    case False
    let ?b = "if acc then rc_buffered c + frame_bytes n c else rc_buffered c"
    from False s i have "\<exists>e. c' = return n i (CallError e True) (texted n ?b c)"
      by (auto simp: send_text_def texted_def ctx_dead_def)
    then show ?thesis using rstep.send_failed [OF i, of ?b] by auto
  qed
qed

lemma wait_rstep:
  "call_result n c = Some c' \<Longrightarrow> rstep c c'"
  "call_ctx_done n c = Some c' \<Longrightarrow> rstep c c'"
  by (auto simp: call_result_def call_ctx_done_def split: call_pc.splits option.splits if_splits
      intro: rstep.taken rstep.abandoned)

lemma fail_rstep: "failPending e order c = Some c' \<Longrightarrow> rstep c c'"
  by (auto simp: failPending_def split: if_splits intro: rstep.failed)

lemma message_rstep: "handleMessage bytes frm order c = Some c' \<Longrightarrow> rstep c c'"
  by (auto simp: handleMessage_def Let_def
      split: if_splits rpc_frame.splits option.splits
      intro: fail_rstep rstep.stutter rstep.unmatched [unfolded answered_def]
        rstep.matched [unfolded answered_def])

lemma deliver_rstep: "deliver_result k c = Some c' \<Longrightarrow> rstep c c'"
proof -
  assume d: "deliver_result k c = Some c'"
  then have k: "k < length (rc_deliver c)" by (auto simp: deliver_result_def split: if_splits)
  obtain n r where nr: "rc_deliver c ! k = (n, r)" by fastforce
  then have "rc_deliver c = take k (rc_deliver c) @ (n, r) # drop (Suc k) (rc_deliver c)"
    using k by (metis id_take_nth_drop)
  then show ?thesis
    using rstep.delivered [of c "take k (rc_deliver c)" n r "drop (Suc k) (rc_deliver c)"] d k nr
    by (auto simp: deliver_result_def split: if_splits)
qed

lemma rpc_step_rstep: "rpc_step e c = Some c' \<Longrightarrow> rstep c c'"
  by (cases e) (auto intro: call_begin_rstep send_rstep send_gate_rstep send_text_rstep wait_rstep
      message_rstep fail_rstep deliver_rstep rstep.cancelled rstep.drained split: if_splits)

lemma rpc_reach_inv [consumes 1, case_names start step]:
  assumes "rpc_reach c" "\<And>reqs. P (newRPCClient reqs)"
    and "\<And>c c'. rpc_reach c \<Longrightarrow> P c \<Longrightarrow> rstep c c' \<Longrightarrow> P c'"
  shows "P c"
  using assms(1) by induction (auto intro: assms rpc_step_rstep)

lemmas rpc_op_defs = goto_def return_def numbered_def answered_def texted_def frame_bytes_def

section \<open>The outbound buffer\<close>

fun has_mutex :: "call_pc \<Rightarrow> bool" where
  "has_mutex (SendBuffered _) = True"
| "has_mutex (SendGate _ _) = True"
| "has_mutex (SendText _) = True"
| "has_mutex _ = False"

text \<open>What the holder of \<open>sendMu\<close> knows of the buffer: it can only have drained since it was read.\<close>

definition buffer_inv :: "rpcClient \<Rightarrow> bool" where
  "buffer_inv c \<longleftrightarrow> rc_buffered c \<le> 65536 \<and>
     (\<forall>n. has_mutex (rc_call c n) \<longrightarrow> rc_sendMu c = Some n) \<and>
     (\<forall>n i a. rc_call c n = SendGate i a \<longrightarrow> rc_buffered c \<le> a) \<and>
     (\<forall>n i. rc_call c n = SendText i \<longrightarrow> rc_buffered c + frame_bytes n c \<le> 65536)"

lemma one_mutex:
  assumes "buffer_inv c" "has_mutex (rc_call c n)" "has_mutex (rc_call c m)"
  shows "m = n"
  using assms unfolding buffer_inv_def by (metis option.inject)

lemma buffer_inv_released:
  assumes "buffer_inv c" "has_mutex (rc_call c n)" "\<not> has_mutex pc"
    "rc_call c' = (rc_call c)(n := pc)" "rc_buffered c' \<le> 65536"
  shows "buffer_inv c'"
proof -
  have "\<not> has_mutex (rc_call c' m)" for m
    using one_mutex [OF assms(1,2), of m] assms(3,4) by auto
  then show ?thesis unfolding buffer_inv_def by (metis assms(5) has_mutex.simps(2,3))
qed

lemma buffer_invD:
  "buffer_inv c \<Longrightarrow> rc_buffered c \<le> 65536"
  "buffer_inv c \<Longrightarrow> rc_call c n = SendText i \<Longrightarrow> rc_buffered c + frame_bytes n c \<le> 65536"
  by (simp_all add: buffer_inv_def)

lemma buffer_inv_step:
  assumes "rstep c c'" "buffer_inv c"
  shows "buffer_inv c'"
  using assms(1)
proof (cases rule: rstep.cases)
  case (gate_closed n i a e)
  show ?thesis
    by (rule buffer_inv_released [OF assms(2), of n "Done (CallError e False)"])
      (simp_all add: gate_closed rpc_op_defs buffer_invD(1) [OF assms(2)])
next
  case (sent n i)
  show ?thesis
    by (rule buffer_inv_released [OF assms(2), of n "Await i"])
      (use sent buffer_invD(2) [OF assms(2), of n i] in \<open>simp_all add: rpc_op_defs\<close>)
next
  case (send_failed n i b e)
  show ?thesis
    by (rule buffer_inv_released [OF assms(2), of n "Done (CallError e True)"])
      (use send_failed buffer_invD(2) [OF assms(2), of n i] in \<open>simp_all add: rpc_op_defs\<close>)
next
  case (gate_open n i a)
  then have "rc_buffered c + frame_bytes n c \<le> 65536"
    using assms(2) by (fastforce simp: buffer_inv_def)
  then have t: "rc_buffered c + frame_bytes m c \<le> 65536" if "m = n \<or> rc_call c m = SendText j" for m j
    using that buffer_invD(2) [OF assms(2)] by blast
  have f: "frame_bytes m c' = frame_bytes m c" for m using gate_open by (simp add: rpc_op_defs)
  show ?thesis
    using gate_open assms(2) t unfolding buffer_inv_def f by (auto simp: goto_def)
next
  case (drained b)
  with assms(2) show ?thesis unfolding buffer_inv_def by (auto simp: frame_bytes_def; force)
qed (use assms(2) in \<open>auto simp: buffer_inv_def rpc_op_defs\<close>)

lemma buffer_inv_reach: "rpc_reach c \<Longrightarrow> buffer_inv c"
proof (induction rule: rpc_reach_inv)
  case (start reqs)
  show ?case by (simp add: newRPCClient_def buffer_inv_def)
qed (rule buffer_inv_step)


section \<open>Deliveries\<close>

fun active_id :: "call_pc \<Rightarrow> u64 option" where
  "active_id (SendLock i) = Some i"
| "active_id (SendBuffered i) = Some i"
| "active_id (SendGate i _) = Some i"
| "active_id (SendText i) = Some i"
| "active_id (Await i) = Some i"
| "active_id _ = None"

fun starting :: "call_pc \<Rightarrow> bool" where
  "starting Idle = True"
| "starting (Register _) = True"
| "starting _ = False"

text \<open>
  A result is under way for a call, or in its channel, or may still come because the call is
  pending: never two of these, and none before the call is registered.
\<close>

definition under_way :: "rpcClient \<Rightarrow> nat \<Rightarrow> bool" where
  "under_way c n \<longleftrightarrow> n \<in> set (map fst (rc_deliver c))"

definition result_ok :: "rpcClient \<Rightarrow> nat \<Rightarrow> bool" where
  "result_ok c n \<longleftrightarrow>
     (under_way c n \<or> rc_chan c n \<noteq> None \<longrightarrow> \<not> starting (rc_call c n) \<and> n \<notin> ran (rc_pending c)) \<and>
     \<not> (under_way c n \<and> rc_chan c n \<noteq> None) \<and>
     (g_got c n \<noteq> None \<longrightarrow> (\<exists>r. rc_call c n = Done r))"

definition channel_inv :: "rpcClient \<Rightarrow> bool" where
  "channel_inv c \<longleftrightarrow> (\<forall>i n. rc_pending c i = Some n \<longrightarrow> active_id (rc_call c n) = Some i) \<and>
     distinct (map fst (rc_deliver c)) \<and> (\<forall>n. result_ok c n)"

lemma channel_invI:
  assumes "\<And>i n. rc_pending c i = Some n \<Longrightarrow> active_id (rc_call c n) = Some i"
    and "distinct (map fst (rc_deliver c))" "\<And>n. result_ok c n"
  shows "channel_inv c"
  using assms by (simp add: channel_inv_def)

lemma channel_invD:
  assumes "channel_inv c"
  shows "rc_pending c i = Some n \<Longrightarrow> active_id (rc_call c n) = Some i"
    and "distinct (map fst (rc_deliver c))" and "result_ok c n"
  using assms by (simp_all add: channel_inv_def)

lemma active_not_starting: "active_id pc = Some i \<Longrightarrow> \<not> starting pc \<and> pc \<noteq> Done r"
  by (cases pc) auto

lemma pending_active:
  assumes "channel_inv c" "n \<in> ran (rc_pending c)"
  obtains i where "active_id (rc_call c n) = Some i" "rc_pending c i = Some n"
  using assms by (auto simp: channel_inv_def ran_def)

text \<open>A pending call has no result yet.\<close>

lemma pending_free:
  assumes "channel_inv c" "n \<in> ran (rc_pending c)"
  shows "\<not> under_way c n" "rc_chan c n = None" "\<not> starting (rc_call c n)" "g_got c n = None"
  using channel_invD(3) [OF assms(1), of n] assms(2) pending_active [OF assms] active_not_starting
  unfolding result_ok_def by metis+

lemma ran_deleted:
  assumes "channel_inv c" "active_id (rc_call c n) = Some i"
  shows "n \<notin> ran ((rc_pending c)(i := None))"
  using assms by (auto simp: channel_inv_def ran_def)

lemma ran_delete: "m \<notin> ran f \<Longrightarrow> m \<notin> ran (f(i := None))"
  by (auto simp: ran_def)

lemma channel_inv_return:
  assumes "channel_inv c" "active_id (rc_call c n) = Some i"
    and "rc_call c' = (rc_call c)(n := Done r)" "rc_pending c' = (rc_pending c)(i := None)"
    and "rc_deliver c' = rc_deliver c" "rc_chan c' = rc_chan c \<or> rc_chan c' = (rc_chan c)(n := None)"
    and "g_got c' = g_got c \<or> (\<exists>x. g_got c' = (g_got c)(n \<mapsto> x))"
  shows "channel_inv c'"
proof (rule channel_invI)
  show "active_id (rc_call c' m) = Some j" if "rc_pending c' j = Some m" for j m
    using that assms(2-4) channel_invD(1) [OF assms(1)] by (auto split: if_splits)
  show "distinct (map fst (rc_deliver c'))" using channel_invD(2) [OF assms(1)] assms(5) by simp
  show "result_ok c' m" for m
  proof (cases "m = n")
    case True
    then show ?thesis
      using channel_invD(3) [OF assms(1), of n] ran_deleted [OF assms(1,2)] assms(3-6)
      by (auto simp: result_ok_def under_way_def)
  next
    case False
    then show ?thesis
      using channel_invD(3) [OF assms(1), of m] ran_delete [of m "rc_pending c" i] assms(3-7)
      by (auto simp: result_ok_def under_way_def)
  qed
qed

text \<open>Steps that touch no result and leave a call where it may have one.\<close>

lemma channel_inv_move:
  assumes "channel_inv c" "active_id pc = active_id (rc_call c n)" "starting pc \<longrightarrow> starting (rc_call c n)"
    and "\<forall>r. rc_call c n \<noteq> Done r" "rc_call c' = (rc_call c)(n := pc)" "rc_pending c' = rc_pending c"
    and "rc_deliver c' = rc_deliver c" "rc_chan c' = rc_chan c" "g_got c' = g_got c"
  shows "channel_inv c'"
proof (rule channel_invI)
  show "active_id (rc_call c' m) = Some j" if "rc_pending c' j = Some m" for j m
    using that assms(2,5,6) channel_invD(1) [OF assms(1)] by simp
  show "result_ok c' m" for m
    using channel_invD(3) [OF assms(1), of m] assms(3-9)
    by (cases "m = n") (auto simp: result_ok_def under_way_def)
qed (use channel_invD(2) [OF assms(1)] assms(7) in simp)

lemma channel_inv_same:
  assumes "channel_inv c" "rc_call c' = rc_call c" "rc_pending c' = rc_pending c"
    and "rc_deliver c' = rc_deliver c" "rc_chan c' = rc_chan c" "g_got c' = g_got c"
  shows "channel_inv c'"
  using assms by (simp add: channel_inv_def result_ok_def under_way_def)

lemma channel_inv_registered:
  assumes "channel_inv c" "rc_call c n = Register i"
    and "c' = (goto n (SendLock i) c)\<lparr>rc_pending := (rc_pending c)(i \<mapsto> n)\<rparr>"
  shows "channel_inv c'"
proof (rule channel_invI)
  have free: "\<not> under_way c n" "rc_chan c n = None"
    using channel_invD(3) [OF assms(1), of n] assms(2) by (auto simp: result_ok_def)
  show "active_id (rc_call c' m) = Some j" if "rc_pending c' j = Some m" for j m
    using that assms(2,3) channel_invD(1) [OF assms(1), of j m]
    by (auto simp: rpc_op_defs split: if_splits)
  show "result_ok c' m" for m
    using channel_invD(3) [OF assms(1), of m] free assms(2,3)
    by (cases "m = n") (auto simp: result_ok_def under_way_def rpc_op_defs ran_def split: if_splits)
qed (use channel_invD(2) [OF assms(1)] assms(3) in \<open>simp add: rpc_op_defs\<close>)

text \<open>Results for pending calls are put under way, and their entries go.\<close>

lemma channel_inv_results:
  assumes "channel_inv c" "set (map fst new) \<subseteq> ran (rc_pending c)" "distinct (map fst new)"
    and "rc_deliver c' = rc_deliver c @ new" "rc_call c' = rc_call c" "rc_chan c' = rc_chan c"
    and "g_got c' = g_got c" "\<And>j m. rc_pending c' j = Some m \<Longrightarrow> rc_pending c j = Some m"
    and "set (map fst new) \<inter> ran (rc_pending c') = {}"
  shows "channel_inv c'"
proof (rule channel_invI)
  have free: "\<not> under_way c m" "rc_chan c m = None" "\<not> starting (rc_call c m)" "g_got c m = None"
    if "m \<in> set (map fst new)" for m
    using pending_free [OF assms(1), of m] that assms(2) by blast+
  have sub: "m \<in> ran (rc_pending c)" if "m \<in> ran (rc_pending c')" for m
    using that assms(8) unfolding ran_def by blast
  show "active_id (rc_call c' m) = Some j" if "rc_pending c' j = Some m" for j m
    using assms(8) [OF that] channel_invD(1) [OF assms(1), of j m] assms(5) by simp
  show "distinct (map fst (rc_deliver c'))"
    using channel_invD(2) [OF assms(1)] assms(3,4) free(1) by (auto simp: under_way_def)
  show "result_ok c' m" for m
  proof (cases "m \<in> set (map fst new)")
    case True
    then show ?thesis using free [OF True] assms(4-7,9) by (auto simp: result_ok_def under_way_def)
  next
    case False
    then show ?thesis
      using channel_invD(3) [OF assms(1), of m] sub assms(4-7) by (auto simp: result_ok_def under_way_def)
  qed
qed

lemma channel_inv_delivered:
  assumes "channel_inv c" "rc_deliver c = us @ (n, r) # vs"
    and "c' = c\<lparr>rc_chan := (rc_chan c)(n \<mapsto> r), rc_deliver := us @ vs\<rparr>"
  shows "channel_inv c'"
proof (rule channel_invI)
  show "distinct (map fst (rc_deliver c'))" using channel_invD(2) [OF assms(1)] assms(2,3) by simp
  have n: "n \<notin> set (map fst (us @ vs))" using channel_invD(2) [OF assms(1)] assms(2) by simp
  show "result_ok c' m" for m
    using channel_invD(3) [OF assms(1), of m] n assms(2,3)
    by (cases "m = n") (auto simp: result_ok_def under_way_def)
qed (use channel_invD(1) [OF assms(1)] assms(3) in simp)

lemma channel_inv_step:
  assumes "rstep c c'" "channel_inv c"
  shows "channel_inv c'"
  using assms(1)
proof (cases rule: rstep.cases)
  case (registered n i)
  then show ?thesis using channel_inv_registered [OF assms(2)] by simp
next
  case (gate_closed n i a e)
  show ?thesis
    by (rule channel_inv_return [OF assms(2), of n i]) (use gate_closed in \<open>simp_all add: rpc_op_defs\<close>)
next
  case (send_failed n i b e)
  show ?thesis
    by (rule channel_inv_return [OF assms(2), of n i]) (use send_failed in \<open>simp_all add: rpc_op_defs\<close>)
next
  case (taken n i r m dead)
  show ?thesis
    by (rule channel_inv_return [OF assms(2), of n i]) (use taken in \<open>auto simp: rpc_op_defs\<close>)
next
  case (abandoned n i)
  show ?thesis
    by (rule channel_inv_return [OF assms(2), of n i]) (use abandoned in \<open>simp_all add: rpc_op_defs\<close>)
next
  case (failed ns e)
  show ?thesis
    by (rule channel_inv_results [OF assms(2), of "map (\<lambda>n. (n, RPCFailure e)) ns"])
      (use failed in \<open>simp_all add: comp_def\<close>)
next
  case (matched i n resp)
  have "active_id (rc_call c n) = Some i" using channel_invD(1) [OF assms(2) matched(2)] .
  from ran_deleted [OF assms(2) this] show ?thesis
    by (intro channel_inv_results [OF assms(2), of "[(n, RPCResponse (g_serial c) resp)]"])
      (use matched in \<open>auto simp: rpc_op_defs ran_def split: if_splits\<close>)
next
  case (delivered us n r vs)
  then show ?thesis using channel_inv_delivered [OF assms(2)] by simp
qed (use assms(2) in \<open>auto simp: rpc_op_defs intro: channel_inv_same [OF assms(2)] channel_inv_move [OF assms(2), rotated 3]\<close>)

lemma channel_inv_reach: "rpc_reach c \<Longrightarrow> channel_inv c"
proof (induction rule: rpc_reach_inv)
  case (start reqs)
  show ?case by (simp add: newRPCClient_def channel_inv_def result_ok_def under_way_def)
qed (rule channel_inv_step)


section \<open>What a return says\<close>

definition has_response :: "rpcClient \<Rightarrow> nat \<Rightarrow> bool" where
  "has_response c n \<longleftrightarrow> (\<exists>s resp. g_got c n = Some (RPCResponse s resp))"

fun return_ok :: "rpcClient \<Rightarrow> nat \<Rightarrow> rpc_return \<Rightarrow> bool" where
  "return_ok c n CallOK = (\<exists>s resp. g_got c n = Some (RPCResponse s resp) \<and> rs_error resp = None \<and> rs_decodes resp)"
| "return_ok c n (CallError e ambiguous) =
    (if ambiguous then n \<in> g_sent c \<and> \<not> has_response c n else n \<notin> g_sent c \<or> has_response c n)"

fun call_ok :: "rpcClient \<Rightarrow> nat \<Rightarrow> call_pc \<Rightarrow> bool" where
  "call_ok c n (Done r) = return_ok c n r"
| "call_ok c n (Await i) = (n \<in> g_sent c \<and> g_got c n = None)"
| "call_ok c n _ = (n \<notin> g_sent c \<and> g_got c n = None)"

definition return_inv :: "rpcClient \<Rightarrow> bool" where
  "return_inv c \<longleftrightarrow> (\<forall>n. call_ok c n (rc_call c n))"

lemma call_ok_cong:
  assumes "n \<in> g_sent c' \<longleftrightarrow> n \<in> g_sent c" "g_got c' n = g_got c n"
  shows "call_ok c' n pc = call_ok c n pc"
proof -
  have "return_ok c' n r = return_ok c n r" for r
    using assms by (cases r) (simp_all add: has_response_def)
  then show ?thesis using assms by (cases pc) simp_all
qed

lemma result_return_ok:
  assumes "n \<in> g_sent c" "g_got c n = Some r"
  shows "return_ok c n (result_return m dead r)"
  using assms
  by (auto simp: result_return_def response_return_def has_response_def split: rpcCallResult.split option.split)

text \<open>A step changes the observations of at most one call, the one it moves.\<close>

lemma return_inv_move:
  assumes "return_inv c" "rc_call c' = (rc_call c)(n := pc)"
    and "\<And>m. m \<noteq> n \<Longrightarrow> (m \<in> g_sent c' \<longleftrightarrow> m \<in> g_sent c) \<and> g_got c' m = g_got c m"
    and "call_ok c' n pc"
  shows "return_inv c'"
  unfolding return_inv_def
proof
  fix m
  show "call_ok c' m (rc_call c' m)"
    using assms call_ok_cong [of m c' c] by (cases "m = n") (auto simp: return_inv_def)
qed

lemma return_invD:
  assumes "return_inv c"
  shows "rc_call c n = Await i \<Longrightarrow> n \<in> g_sent c \<and> g_got c n = None"
    and "rc_call c n = SendText i \<Longrightarrow> n \<notin> g_sent c \<and> g_got c n = None"
    and "rc_call c n = SendGate i a \<Longrightarrow> n \<notin> g_sent c \<and> g_got c n = None"
    and "rc_call c n \<in> {Idle, Register i, SendLock i, SendBuffered i} \<Longrightarrow> n \<notin> g_sent c \<and> g_got c n = None"
  using assms [unfolded return_inv_def, rule_format, of n] by auto

lemma return_inv_same:
  assumes "return_inv c" "rc_call c' = rc_call c" "g_sent c' = g_sent c" "g_got c' = g_got c"
  shows "return_inv c'"
  using assms call_ok_cong [of _ c' c] by (simp add: return_inv_def)

text \<open>A call before its request is sent, and what it may become without having sent it.\<close>

fun unsent :: "call_pc \<Rightarrow> bool" where
  "unsent (Done r) = False"
| "unsent (Await i) = False"
| "unsent pc = True"

lemma return_inv_unsent:
  assumes "return_inv c" "rc_call c' = (rc_call c)(n := pc)" "unsent (rc_call c n)"
    and "unsent pc \<or> (\<exists>e. pc = Done (CallError e False))" "g_sent c' = g_sent c" "g_got c' = g_got c"
  shows "return_inv c'"
proof (rule return_inv_move [OF assms(1,2)])
  have "n \<notin> g_sent c \<and> g_got c n = None"
    using assms(1,3) unfolding return_inv_def by (cases "rc_call c n") (auto dest: spec [of _ n])
  then show "call_ok c' n pc" using assms(4-6) by (cases pc) auto
qed (simp add: assms(5,6))

lemma return_inv_step:
  assumes "rstep c c'" "return_inv c"
  shows "return_inv c'"
  using assms(1)
proof (cases rule: rstep.cases)
  case (sent n i)
  show ?thesis
    by (rule return_inv_move [OF assms(2), of _ n "Await i"])
      (use sent return_invD(2) [OF assms(2), of n i] in \<open>simp_all add: rpc_op_defs\<close>)
next
  case (send_failed n i b e)
  show ?thesis
    by (rule return_inv_move [OF assms(2), of _ n "Done (CallError e True)"])
      (use send_failed return_invD(2) [OF assms(2), of n i] in \<open>simp_all add: rpc_op_defs has_response_def\<close>)
next
  case (taken n i r m dead)
  show ?thesis
    by (rule return_inv_move [OF assms(2), of _ n "Done (result_return m dead r)"])
      (use taken return_invD(1) [OF assms(2), of n i] in \<open>simp_all add: rpc_op_defs result_return_ok\<close>)
next
  case (abandoned n i)
  show ?thesis
    by (rule return_inv_move [OF assms(2), of _ n "Done (CallError RPCTimeout True)"])
      (use abandoned return_invD(1) [OF assms(2), of n i] in \<open>simp_all add: rpc_op_defs has_response_def\<close>)
qed (use assms(2) in \<open>auto simp: rpc_op_defs intro: return_inv_same [OF assms(2)] return_inv_unsent [OF assms(2)]\<close>)

lemma return_inv_reach: "rpc_reach c \<Longrightarrow> return_inv c"
proof (induction rule: rpc_reach_inv)
  case (start reqs)
  show ?case by (simp add: newRPCClient_def return_inv_def)
qed (rule return_inv_step)


section \<open>Responses and their callers\<close>

definition carries :: "rpcClient \<Rightarrow> nat \<Rightarrow> nat \<Rightarrow> bool" where
  "carries c n s \<longleftrightarrow> (\<exists>resp. (n, RPCResponse s resp) \<in> set (rc_deliver c) \<or>
     rc_chan c n = Some (RPCResponse s resp) \<or> g_got c n = Some (RPCResponse s resp))"

fun own_id :: "call_pc \<Rightarrow> u64 option" where
  "own_id (Register i) = Some i"
| "own_id pc = active_id pc"

lemma active_own: "active_id pc = Some i \<Longrightarrow> own_id pc = Some i"
  by (cases pc) auto

definition response_inv :: "rpcClient \<Rightarrow> bool" where
  "response_inv c \<longleftrightarrow>
     (\<forall>n. rc_call c n = Idle \<longrightarrow> g_id c n = None) \<and>
     (\<forall>n i. own_id (rc_call c n) = Some i \<longrightarrow> g_id c n = Some i) \<and>
     (\<forall>n s. carries c n s \<longrightarrow> s < g_serial c \<and> g_id c n \<noteq> None \<and> g_respID c s = g_id c n) \<and>
     (\<forall>n m s. carries c n s \<longrightarrow> carries c m s \<longrightarrow> n = m)"

lemma response_invI:
  assumes "\<And>n. rc_call c n = Idle \<Longrightarrow> g_id c n = None"
    and "\<And>n i. own_id (rc_call c n) = Some i \<Longrightarrow> g_id c n = Some i"
    and "\<And>n s. carries c n s \<Longrightarrow> s < g_serial c \<and> g_id c n \<noteq> None \<and> g_respID c s = g_id c n"
    and "\<And>n m s. carries c n s \<Longrightarrow> carries c m s \<Longrightarrow> n = m"
  shows "response_inv c"
  using assms unfolding response_inv_def by blast

lemma response_invD:
  assumes "response_inv c"
  shows "rc_call c n = Idle \<Longrightarrow> g_id c n = None"
    and "own_id (rc_call c n) = Some i \<Longrightarrow> g_id c n = Some i"
    and "carries c n s \<Longrightarrow> s < g_serial c \<and> g_id c n \<noteq> None \<and> g_respID c s = g_id c n"
    and "carries c n s \<Longrightarrow> carries c m s \<Longrightarrow> n = m"
  using assms unfolding response_inv_def by blast+

lemma idle_carries_nothing:
  assumes "channel_inv c" "rc_call c n = Idle"
  shows "\<not> carries c n s"
  using channel_invD(3) [OF assms(1), of n] assms(2)
  by (force simp: carries_def result_ok_def under_way_def)

lemma carries_cong:
  "rc_deliver c' = rc_deliver c \<Longrightarrow> rc_chan c' = rc_chan c \<Longrightarrow> g_got c' = g_got c \<Longrightarrow> carries c' n s = carries c n s"
  by (simp add: carries_def)

text \<open>A step that moves one call along with its own ID, and carries nothing new.\<close>

lemma response_inv_move:
  assumes "response_inv c" "rc_call c' = (rc_call c)(n := pc)" "pc \<noteq> Idle"
    and "own_id pc = None \<or> own_id pc = own_id (rc_call c n)"
    and "g_id c' = g_id c" "g_serial c' = g_serial c" "g_respID c' = g_respID c"
    and "\<And>m s. carries c' m s \<Longrightarrow> carries c m s"
  shows "response_inv c'"
proof (rule response_invI)
  show "g_id c' m = Some i" if "own_id (rc_call c' m) = Some i" for m i
    using that assms(2,4,5) response_invD(2) [OF assms(1), of m i] by (cases "m = n") auto
  show "s < g_serial c' \<and> g_id c' m \<noteq> None \<and> g_respID c' s = g_id c' m" if "carries c' m s" for m s
    using response_invD(3) [OF assms(1) assms(8) [OF that]] assms(5-7) by simp
  show "m = k" if "carries c' m s" "carries c' k s" for m k s
    using response_invD(4) [OF assms(1)] assms(8) that by blast
qed (use assms(2,3,5) response_invD(1) [OF assms(1)] in \<open>auto split: if_splits\<close>)

lemma response_inv_numbered:
  assumes "response_inv c" "channel_inv c" "rc_call c n = Idle" "pc \<noteq> Idle"
    and "own_id pc = None \<or> own_id pc = Some (rc_nextID c + 1)" "c' = goto n pc (numbered n c)"
  shows "response_inv c'"
proof (rule response_invI)
  have same: "carries c' m s = carries c m s" for m s
    using assms(6) by (intro carries_cong) (simp_all add: rpc_op_defs)
  have no: "\<not> carries c n s" for s using idle_carries_nothing [OF assms(2,3)] .
  show "s < g_serial c' \<and> g_id c' m \<noteq> None \<and> g_respID c' s = g_id c' m" if "carries c' m s" for m s
  proof -
    have c: "carries c m s" using that by (simp only: same)
    then have "m \<noteq> n" using no by blast
    then show ?thesis using response_invD(3) [OF assms(1) c] assms(6) by (simp add: rpc_op_defs)
  qed
  show "m = k" if "carries c' m s" "carries c' k s" for m k s
    using that response_invD(4) [OF assms(1), of m s k] by (simp only: same)
qed (use assms(3-6) response_invD(1,2) [OF assms(1)] in \<open>auto simp: rpc_op_defs split: if_splits\<close>)

text \<open>A step that moves no call and puts at most the newest response under way.\<close>

lemma response_inv_carry:
  assumes "response_inv c" "rc_call c' = rc_call c" "g_id c' = g_id c"
    and "\<And>m s. carries c' m s \<Longrightarrow> carries c m s \<or>
      m = n \<and> s = g_serial c \<and> g_serial c < g_serial c' \<and> g_id c n \<noteq> None \<and> g_respID c' (g_serial c) = g_id c n"
    and "g_serial c \<le> g_serial c'" "\<And>s. s < g_serial c \<Longrightarrow> g_respID c' s = g_respID c s"
  shows "response_inv c'"
proof (rule response_invI)
  have old: "s < g_serial c" if "carries c m s" for m s using response_invD(3) [OF assms(1) that] by simp
  show "s < g_serial c' \<and> g_id c' m \<noteq> None \<and> g_respID c' s = g_id c' m" if "carries c' m s" for m s
    using assms(4) [OF that]
  proof
    assume c: "carries c m s"
    then show ?thesis using response_invD(3) [OF assms(1) c] assms(3,5,6) by simp
  qed (use assms(3) in simp)
  show "m = k" if "carries c' m s" "carries c' k s" for m k s
    using assms(4) [OF that(1)] assms(4) [OF that(2)] response_invD(4) [OF assms(1), of m s k] old by blast
qed (use assms(2,3) response_invD(1,2) [OF assms(1)] in simp_all)

lemma response_inv_same:
  assumes "response_inv c" "rc_call c' = rc_call c" "g_id c' = g_id c" "g_serial c' = g_serial c"
    and "g_respID c' = g_respID c" "rc_deliver c' = rc_deliver c" "rc_chan c' = rc_chan c" "g_got c' = g_got c"
  shows "response_inv c'"
  using assms by (simp add: response_inv_def carries_def)

lemma response_inv_step:
  assumes "rstep c c'" "channel_inv c" "response_inv c"
  shows "response_inv c'"
  using assms(1)
proof (cases rule: rstep.cases)
  case (unencoded n e)
  then show ?thesis by (intro response_inv_numbered [OF assms(3,2) unencoded(2)]) simp_all
next
  case (begun n)
  then show ?thesis by (intro response_inv_numbered [OF assms(3,2) begun(2)]) simp_all
next
  case (taken n i r m dead)
  show ?thesis
    by (rule response_inv_move [OF assms(3), of _ n "Done (result_return m dead r)"])
      (use taken in \<open>auto simp: rpc_op_defs carries_def split: if_splits\<close>)
next
  case (failed ns e)
  then have "carries c' m s \<Longrightarrow> carries c m s" for m s by (auto simp: carries_def)
  then show ?thesis by (intro response_inv_carry [OF assms(3)]) (use failed in \<open>simp_all\<close>)
next
  case (unmatched i)
  then have "carries c' m s \<Longrightarrow> carries c m s" for m s by (simp add: carries_def answered_def)
  then show ?thesis
    by (intro response_inv_carry [OF assms(3)]) (use unmatched in \<open>simp_all add: answered_def\<close>)
next
  case (matched i n resp)
  have id: "g_id c n = Some i"
    using channel_invD(1) [OF assms(2) matched(2)] active_own response_invD(2) [OF assms(3)] by blast
  have "carries c' m s \<Longrightarrow> carries c m s \<or> m = n \<and> s = g_serial c" for m s
    using matched by (auto simp: carries_def answered_def)
  then show ?thesis
    by (intro response_inv_carry [OF assms(3), of _ n]) (use matched id in \<open>auto simp: answered_def\<close>)
next
  case (delivered us n r vs)
  then have "carries c' m s \<Longrightarrow> carries c m s" for m s
    by (auto simp: carries_def split: if_splits)
  then show ?thesis by (intro response_inv_carry [OF assms(3)]) (use delivered in \<open>simp_all\<close>)
qed (use assms(3) in \<open>auto simp: rpc_op_defs carries_def split: if_splits
    intro: response_inv_same [OF assms(3)] response_inv_move [OF assms(3)]\<close>)

lemma response_inv_reach: "rpc_reach c \<Longrightarrow> response_inv c"
proof (induction rule: rpc_reach_inv)
  case (start reqs)
  show ?case by (simp add: newRPCClient_def response_inv_def carries_def)
next
  case (step c c')
  then show ?case using response_inv_step channel_inv_reach by blast
qed


text \<open>The IDs are the counter's values, so that distinct calls have distinct ones before it wraps.\<close>

definition id_inv :: "rpcClient \<Rightarrow> bool" where
  "id_inv c \<longleftrightarrow> rc_nextID c = of_nat (g_calls c) \<and> (\<exists>num.
     (\<forall>n i. g_id c n = Some i \<longrightarrow> i = of_nat (num n) \<and> num n \<le> g_calls c) \<and>
     (\<forall>n m. g_id c n \<noteq> None \<longrightarrow> g_id c m \<noteq> None \<longrightarrow> num n = num m \<longrightarrow> n = m))"

lemma id_inv_numbered:
  assumes "id_inv c" "rc_nextID c' = rc_nextID c + 1" "g_calls c' = Suc (g_calls c)"
    "g_id c' = (g_id c)(n \<mapsto> rc_nextID c + 1)"
  shows "id_inv c'"
proof -
  obtain num where num: "\<forall>n i. g_id c n = Some i \<longrightarrow> i = of_nat (num n) \<and> num n \<le> g_calls c"
    "\<forall>n m. g_id c n \<noteq> None \<longrightarrow> g_id c m \<noteq> None \<longrightarrow> num n = num m \<longrightarrow> n = m"
    "rc_nextID c = of_nat (g_calls c)"
    using assms(1) unfolding id_inv_def by blast
  let ?num = "num(n := Suc (g_calls c))"
  have "\<forall>k i. g_id c' k = Some i \<longrightarrow> i = of_nat (?num k) \<and> ?num k \<le> g_calls c'"
    using num(1,3) assms(3,4) by (auto simp: le_SucI)
  moreover have "\<forall>k m. g_id c' k \<noteq> None \<longrightarrow> g_id c' m \<noteq> None \<longrightarrow> ?num k = ?num m \<longrightarrow> k = m"
  proof (intro allI impI)
    fix k m
    assume k: "g_id c' k \<noteq> None" and m: "g_id c' m \<noteq> None" and e: "?num k = ?num m"
    have old: "num j \<noteq> Suc (g_calls c)" if "j \<noteq> n" "g_id c' j \<noteq> None" for j
      using num(1) assms(4) that by fastforce
    show "k = m"
      using old [of k] old [of m] k m e num(2) assms(4) by (cases "k = n"; cases "m = n") auto
  qed
  moreover have "rc_nextID c' = of_nat (g_calls c')" using num(3) assms(2,3) by simp
  ultimately show ?thesis unfolding id_inv_def by blast
qed

lemma id_inv_same:
  "id_inv c \<Longrightarrow> rc_nextID c' = rc_nextID c \<Longrightarrow> g_calls c' = g_calls c \<Longrightarrow> g_id c' = g_id c \<Longrightarrow> id_inv c'"
  by (simp add: id_inv_def)

lemma id_inv_step:
  assumes "rstep c c'" "id_inv c"
  shows "id_inv c'"
  using assms(1)
proof (cases rule: rstep.cases)
  case (unencoded n e)
  show ?thesis by (rule id_inv_numbered [OF assms(2), of _ n]) (use unencoded in \<open>simp_all add: rpc_op_defs\<close>)
next
  case (begun n)
  show ?thesis by (rule id_inv_numbered [OF assms(2), of _ n]) (use begun in \<open>simp_all add: rpc_op_defs\<close>)
qed (use assms(2) in \<open>auto simp: rpc_op_defs intro: id_inv_same [OF assms(2)]\<close>)

lemma id_inv_reach: "rpc_reach c \<Longrightarrow> id_inv c"
proof (induction rule: rpc_reach_inv)
  case (start reqs)
  show ?case by (simp add: newRPCClient_def id_inv_def)
qed (rule id_inv_step)

lemma ids_distinct:
  assumes "rpc_reach c" "g_calls c < 2 ^ 64" "g_id c n = Some i" "g_id c m = Some i"
  shows "n = m"
proof -
  obtain num where num: "\<forall>n i. g_id c n = Some i \<longrightarrow> i = of_nat (num n) \<and> num n \<le> g_calls c"
    "\<forall>n m. g_id c n \<noteq> None \<longrightarrow> g_id c m \<noteq> None \<longrightarrow> num n = num m \<longrightarrow> n = m"
    using id_inv_reach [OF assms(1)] unfolding id_inv_def by blast
  then have e: "of_nat (num n) = (of_nat (num m) :: u64)" "num n < 2 ^ 64" "num m < 2 ^ 64"
    using assms(2-4) by fastforce+
  have "num n = num m"
    using arg_cong [OF e(1), of unat] e(2,3) by (simp add: unat_of_nat take_bit_nat_eq_self)
  with num(2) assms(3,4) show ?thesis by blast
qed


section \<open>A run to evaluate\<close>

text \<open>One call of 40 bytes is sent; the device's response is under way to it.\<close>

definition one_call :: "nat \<Rightarrow> rpc_request" where
  "one_call = (\<lambda>_. \<lparr>rr_method = ''ping'', rr_ctx = 0, rr_bytes = Some 40\<rparr>)"

definition fine :: rpcResponse where
  "fine = \<lparr>rs_error = None, rs_decodes = True\<rparr>"

definition gated_client :: rpcClient where
  "gated_client = (newRPCClient one_call)\<lparr>rc_nextID := 1, rc_pending := (\<lambda>_. None)(1 \<mapsto> 7),
     rc_sendMu := Some 7, rc_call := (\<lambda>_. Idle)(7 := SendText 1), g_calls := 1, g_id := (\<lambda>_. None)(7 \<mapsto> 1)\<rparr>"

lemma gated_client_reach: "rpc_reach gated_client"
  by (rule rpc_reach_run [OF rpc_reach.start,
        of "[CallBegin 7, CallRegister 7, LockSend 7, ReadBuffered 7, GateSend 7]" one_call])
    (simp add: newRPCClient_def one_call_def gated_client_def caller_defs ctx_dead_def frame_bytes_def
      maxRPCBufferedAmount_def fun_upd_def fun_eq_iff Let_def)

definition answered_client :: rpcClient where
  "answered_client = gated_client\<lparr>rc_pending := (\<lambda>_. None), rc_sendMu := None, rc_buffered := 40,
     rc_call := (\<lambda>_. Idle)(7 := Await 1), rc_deliver := [(7, RPCResponse 0 fine)], g_sent := {7},
     g_serial := 1, g_respID := (\<lambda>_. None)(0 \<mapsto> 1)\<rparr>"

lemma answered_client_reach: "rpc_reach answered_client"
  by (rule rpc_reach_run [OF gated_client_reach, of "[TextSend 7 True True, Message 20 (Response (Some 1) fine) []]"])
    (simp add: newRPCClient_def one_call_def gated_client_def answered_client_def caller_defs callback_defs
      frame_bytes_def maxRPCFrameBytes_def fun_upd_def fun_eq_iff Let_def)

definition served_client :: rpcClient where
  "served_client = answered_client\<lparr>rc_deliver := [], rc_call := (\<lambda>_. Idle)(7 := Done CallOK),
     g_got := (\<lambda>_. None)(7 \<mapsto> RPCResponse 0 fine)\<rparr>"

lemma served_client_reach: "rpc_reach served_client"
  by (rule rpc_reach_run [OF answered_client_reach, of "[Deliver 0, TakeResult 7]"])
    (simp add: newRPCClient_def one_call_def gated_client_def answered_client_def served_client_def caller_defs
      callback_defs ctx_dead_def result_return_def response_return_def fine_def fun_upd_def fun_eq_iff Let_def)

section \<open>Properties\<close>

text \<open>
  C23. What a returned call says about its request. A call that returns nil got the device's response,
  which carried no error and decoded. An error without the ambiguity mark means that the request
  never reached the transport, or that its response arrived; with the mark, that it did reach the
  transport and no response arrived.
\<close>

theorem return_tells_delivery:
  assumes "rpc_reach c" and "rc_call c n = Done r"
  shows "case r of
      CallOK \<Rightarrow> \<exists>s resp. g_got c n = Some (RPCResponse s resp) \<and> rs_error resp = None \<and> rs_decodes resp
    | CallError e ambiguous \<Rightarrow>
        (if ambiguous then n \<in> g_sent c \<and> (\<nexists>s resp. g_got c n = Some (RPCResponse s resp))
         else n \<notin> g_sent c \<or> (\<exists>s resp. g_got c n = Some (RPCResponse s resp)))"
  using return_inv_reach [OF assms(1)] assms(2)
  by (cases r) (auto simp: return_inv_def has_response_def dest!: spec [of _ n] split: if_splits)

theorem return_tells_delivery_witness:
  "rc_call served_client 7 = Done CallOK \<and> g_got served_client 7 = Some (RPCResponse 0 fine) \<and> rs_decodes fine"
  using return_tells_delivery [OF served_client_reach, of 7 CallOK]
  by (simp add: served_client_def answered_client_def fine_def)

text \<open>
  C24. A response reaches exactly its caller: the response a call takes carried the call's own ID, no
  other call has this ID, and no other call takes this response. Bound: fewer than \<open>2^64\<close> calls.
\<close>

theorem response_reaches_its_caller:
  assumes "rpc_reach c" and "g_calls c < 2 ^ 64" and "g_got c n = Some (RPCResponse s resp)"
  shows "\<exists>i. g_id c n = Some i \<and> g_respID c s = Some i \<and> (\<forall>m. g_id c m = Some i \<longrightarrow> m = n) \<and>
    (\<forall>m resp'. g_got c m = Some (RPCResponse s resp') \<longrightarrow> m = n)"
proof -
  have c: "carries c n s" using assms(3) by (auto simp: carries_def)
  obtain i where i: "g_id c n = Some i" "g_respID c s = Some i"
    using response_invD(3) [OF response_inv_reach [OF assms(1)] c] by auto
  have "m = n" if "g_got c m = Some (RPCResponse s resp')" for m resp'
    using response_invD(4) [OF response_inv_reach [OF assms(1)] _ c, of m] that by (auto simp: carries_def)
  with i ids_distinct [OF assms(1,2)] show ?thesis by blast
qed

theorem response_reaches_its_caller_witness:
  "g_id served_client 7 = Some 1 \<and> g_respID served_client 0 = Some 1 \<and>
   {m. g_id served_client m = Some 1} = {7}"
proof -
  have g: "g_got served_client 7 = Some (RPCResponse 0 fine)" "g_id served_client 7 = Some 1"
    "g_calls served_client < 2 ^ 64"
    by (simp_all add: served_client_def answered_client_def gated_client_def)
  obtain i where i: "g_id served_client 7 = Some i" "g_respID served_client 0 = Some i"
      "\<forall>m. g_id served_client m = Some i \<longrightarrow> m = 7"
    using response_reaches_its_caller [OF served_client_reach g(3,1)] by blast
  then have "i = 1" using g(2) by simp
  with i show ?thesis by blast
qed

text \<open>
  No callback blocks. Whatever is to be put into a caller's channel finds it empty, so that the
  goroutine that reads the data channel never waits for a caller, also for callers that have
  returned long ago.
\<close>

theorem delivery_never_blocks:
  assumes "rpc_reach c" and "k < length (rc_deliver c)"
  shows "\<exists>c'. rpc_step (Deliver k) c = Some c' \<and> length (rc_deliver c') < length (rc_deliver c)"
proof -
  obtain n r where nr: "rc_deliver c ! k = (n, r)" by fastforce
  then have "(n, r) \<in> set (rc_deliver c)" using nth_mem [OF assms(2)] by simp
  then have "under_way c n" by (force simp: under_way_def)
  then have "rc_chan c n = None"
    using channel_invD(3) [OF channel_inv_reach [OF assms(1)], of n] by (simp add: result_ok_def)
  with nr assms(2) show ?thesis by (simp add: deliver_result_def)
qed

theorem delivery_never_blocks_witness:
  "\<exists>c'. rpc_step (Deliver 0) answered_client = Some c' \<and> rc_deliver c' = []"
  using delivery_never_blocks [OF answered_client_reach, of 0]
  by (auto simp: answered_client_def)

text \<open>
  C25. The outbound buffer is bounded. When a request is handed to the transport, what is buffered and
  the request together are at most 65536 bytes, whatever the other callers do between the check
  and the send.
\<close>

theorem outbound_bounded:
  assumes "rpc_reach c" and "rpc_step (TextSend n ok accepted) c = Some c'"
  shows "rc_buffered c + frame_bytes n c \<le> 65536 \<and> rc_buffered c' \<le> 65536"
proof -
  obtain i where "rc_call c n = SendText i"
    using assms(2) by (auto simp: send_text_def split: call_pc.splits)
  then show ?thesis
    using buffer_invD [OF buffer_inv_reach [OF assms(1)]]
      buffer_invD(1) [OF buffer_inv_reach [OF rpc_reach.step [OF assms]]] by blast
qed

theorem outbound_bounded_witness:
  "\<exists>c'. rpc_step (TextSend 7 True True) gated_client = Some c' \<and> rc_buffered c' = 40 \<and>
     rc_buffered gated_client + frame_bytes 7 gated_client \<le> 65536"
proof -
  obtain c' where c: "rpc_step (TextSend 7 True True) gated_client = Some c'" "rc_buffered c' = 40"
    by (simp add: send_text_def goto_def gated_client_def newRPCClient_def frame_bytes_def one_call_def Let_def)
  then show ?thesis using outbound_bounded [OF gated_client_reach c(1)] by blast
qed

end
