(* ===== verification/Diagnostics.thy ===== *)
theory Diagnostics
  imports Frame_Capture
begin

text \<open>
  The evidence a session collects about its video pipeline, \<open>diagnostics.go\<close>: the collector
  with one operation per recorder. What leaves it is in \<open>Video_Report\<close>, its vocabulary in
  \<open>Vocabulary\<close>.

  A recorder is one critical section, except \<open>rtpPacket\<close>, which adds to its atomic counters
  before it takes \<open>wireMu\<close>: it is two steps (\<open>rtp_counters\<close> and \<open>rtp_wire\<close>). \<open>diag_step\<close> is
  any of these steps with its arguments, and a run of the session's goroutines is a list of
  them in any order. Times are nanoseconds since the start, read by the caller of the operation.
\<close>

section \<open>State\<close>

definition naluTypeCount :: nat where "naluTypeCount = 32"

record videoDiagnostics =
  vd_rtpPackets :: u64
  vd_rtpBytes :: u64
  vd_samples :: u64
  vd_builderDropped :: u64
  vd_framesBuilt :: u64
  vd_pliSent :: u64
  vd_pliFailed :: u64
  vd_firstRTPNanos :: time
  vd_lastRTPNanos :: time
  vd_naluCounts :: "u64 list"
  vd_wireEmpty :: u64
  vd_wireSingleNALU :: u64
  vd_wireSTAPA :: u64
  vd_wireFUA :: u64
  vd_wireOther :: u64
  vd_wireMalformed :: u64
  vd_wireNALUCounts :: "u64 list"
  vd_fuStarts :: u64
  vd_fuEnds :: u64
  vd_seq :: rtpSequenceTracker
  vd_frames :: rtpFrameTracker
  vd_mediaSSRC :: u32
  vd_mediaSSRCSeen :: bool
  vd_mediaSSRCMoved :: u64
  vd_pliTargetSSRC :: u32
  vd_pliTargetSeen :: bool
  vd_paramSetFromRTP :: bool
  vd_paramSetFromSDP :: bool
  vd_answerApplied :: bool
  vd_answerRejected :: bool
  vd_remoteCandidates :: int
  vd_remoteCandidatesBad :: int
  vd_remoteCandidatesQueued :: int
  vd_localCandidates :: int
  vd_unhandledMessages :: int
  vd_malformedMessages :: int
  vd_pumpStopped :: text_runes
  vd_trackObserved :: bool
  vd_trackAtNanos :: time
  vd_trackMimeType :: text_runes
  vd_trackPayload :: byte
  vd_trackProfile :: text_runes
  vd_trackPktMode :: text_runes
  vd_trackRejection :: text_runes
  vd_trackReadFail :: text_runes
  vd_decodeAttempts :: int
  vd_decodeBytesIn :: u64
  vd_decodeFailure :: text_runes

definition newVideoDiagnostics :: videoDiagnostics where
  "newVideoDiagnostics =
    \<lparr>vd_rtpPackets = 0, vd_rtpBytes = 0, vd_samples = 0, vd_builderDropped = 0,
     vd_framesBuilt = 0, vd_pliSent = 0, vd_pliFailed = 0, vd_firstRTPNanos = 0,
     vd_lastRTPNanos = 0, vd_naluCounts = replicate naluTypeCount 0, vd_wireEmpty = 0,
     vd_wireSingleNALU = 0, vd_wireSTAPA = 0, vd_wireFUA = 0, vd_wireOther = 0,
     vd_wireMalformed = 0, vd_wireNALUCounts = replicate naluTypeCount 0, vd_fuStarts = 0,
     vd_fuEnds = 0, vd_seq = seq_tracker_init, vd_frames = frame_tracker_init, vd_mediaSSRC = 0,
     vd_mediaSSRCSeen = False, vd_mediaSSRCMoved = 0, vd_pliTargetSSRC = 0,
     vd_pliTargetSeen = False, vd_paramSetFromRTP = False, vd_paramSetFromSDP = False,
     vd_answerApplied = False, vd_answerRejected = False, vd_remoteCandidates = 0,
     vd_remoteCandidatesBad = 0, vd_remoteCandidatesQueued = 0, vd_localCandidates = 0,
     vd_unhandledMessages = 0, vd_malformedMessages = 0, vd_pumpStopped = [],
     vd_trackObserved = False, vd_trackAtNanos = 0, vd_trackMimeType = [], vd_trackPayload = 0,
     vd_trackProfile = [], vd_trackPktMode = [], vd_trackRejection = [], vd_trackReadFail = [],
     vd_decodeAttempts = 0, vd_decodeBytesIn = 0, vd_decodeFailure = []\<rparr>"

section \<open>Recorders\<close>

definition bump :: "nat \<Rightarrow> u64 list \<Rightarrow> u64 list" where
  "bump i counts = counts[i := counts ! i + 1]"

text \<open>\<open>bits.TrailingZeros32\<close> and the loop over the set bits of a mask.\<close>

definition trailing_zeros :: "u32 \<Rightarrow> nat" where
  "trailing_zeros w = length (takeWhile (\<lambda>n. \<not> bit w n) [0..<32])"

lemma clear_lowest_less:
  assumes "m \<noteq> 0"
  shows "unat (m AND (m - 1)) < unat (m :: u32)"
proof -
  have "unat (m AND (m - 1)) \<le> unat (m - 1)"
    by (simp add: word_and_le1 flip: word_le_nat_alt)
  moreover have "unat m \<noteq> 0" using assms by (simp add: unat_eq_zero)
  ultimately show ?thesis using unat_minus_one [OF assms] by linarith
qed

function count_types :: "u32 \<Rightarrow> u64 list \<Rightarrow> u64 list" where
  "count_types m counts =
    (if m = 0 then counts
     else count_types (m AND (m - 1)) (bump (trailing_zeros m) counts))"
  by pat_completeness auto
termination
  by (relation "measure (\<lambda>(m, counts). unat m)") (simp_all add: clear_lowest_less)

declare count_types.simps [simp del]

text \<open>The atomic part of \<open>rtpPacket\<close>, and its part under \<open>wireMu\<close>.\<close>

definition rtp_counters :: "time \<Rightarrow> media_packet \<Rightarrow> videoDiagnostics \<Rightarrow> videoDiagnostics" where
  "rtp_counters now p d =
    (let n = vd_rtpPackets d + 1 in
     d\<lparr>vd_rtpPackets := n,
       vd_firstRTPNanos := (if n = 1 then now else vd_firstRTPNanos d),
       vd_lastRTPNanos := now,
       vd_rtpBytes := (if length (mp_payload p) > 0
         then vd_rtpBytes d + of_nat (length (mp_payload p)) else vd_rtpBytes d)\<rparr>)"

definition count_class :: "rtpPayloadInfo \<Rightarrow> videoDiagnostics \<Rightarrow> videoDiagnostics" where
  "count_class info d = (case rp_class info of
      RtpEmpty \<Rightarrow> d\<lparr>vd_wireEmpty := vd_wireEmpty d + 1\<rparr>
    | RtpSingleNALU \<Rightarrow> d\<lparr>vd_wireSingleNALU := vd_wireSingleNALU d + 1\<rparr>
    | RtpSTAPA \<Rightarrow> d\<lparr>vd_wireSTAPA := vd_wireSTAPA d + 1\<rparr>
    | RtpFUA \<Rightarrow> d\<lparr>vd_wireFUA := vd_wireFUA d + 1,
        vd_fuStarts := (if fuStart info then vd_fuStarts d + 1 else vd_fuStarts d),
        vd_fuEnds := (if fuEnd info then vd_fuEnds d + 1 else vd_fuEnds d)\<rparr>
    | RtpOther \<Rightarrow> d\<lparr>vd_wireOther := vd_wireOther d + 1\<rparr>)"

definition observe_ssrc :: "u32 \<Rightarrow> videoDiagnostics \<Rightarrow> videoDiagnostics" where
  "observe_ssrc ssrc d =
    (if \<not> vd_mediaSSRCSeen d then d\<lparr>vd_mediaSSRCSeen := True, vd_mediaSSRC := ssrc\<rparr>
     else if ssrc \<noteq> vd_mediaSSRC d
     then d\<lparr>vd_mediaSSRC := ssrc, vd_mediaSSRCMoved := vd_mediaSSRCMoved d + 1\<rparr>
     else d)"

definition frame_packet :: "media_packet \<Rightarrow> rtp_packet" where
  "frame_packet p = \<lparr>pk_timestamp = mp_timestamp p, pk_marker = mp_marker p,
     pk_idr = carries (classifyRTPPayload (mp_payload p)) naluTypeIDR\<rparr>"

definition rtp_wire :: "media_packet \<Rightarrow> videoDiagnostics \<Rightarrow> videoDiagnostics" where
  "rtp_wire p d0 =
    (let info = classifyRTPPayload (mp_payload p);
         d1 = count_class info d0;
         d2 = d1\<lparr>vd_wireMalformed := (if malformed info then vd_wireMalformed d1 + 1 else vd_wireMalformed d1)\<rparr>;
         d3 = d2\<lparr>vd_wireNALUCounts := count_types (naluTypeMask info) (vd_wireNALUCounts d2)\<rparr>;
         d4 = d3\<lparr>vd_seq := seq_observe (mp_sequence p) (vd_seq d3)\<rparr>;
         d5 = d4\<lparr>vd_frames := frame_observe (frame_packet p) (vd_frames d4)\<rparr>
     in observe_ssrc (mp_ssrc p) d5)"

definition sampleAssembled :: "u16 \<Rightarrow> videoDiagnostics \<Rightarrow> videoDiagnostics" where
  "sampleAssembled droppedBefore d =
    (let d = d\<lparr>vd_samples := vd_samples d + 1\<rparr> in
     if droppedBefore > 0 then d\<lparr>vd_builderDropped := vd_builderDropped d + ucast droppedBefore\<rparr> else d)"

definition parameterSetSource :: "param_source \<Rightarrow> videoDiagnostics \<Rightarrow> videoDiagnostics" where
  "parameterSetSource source d = (case source of
      ParamRTP \<Rightarrow> d\<lparr>vd_paramSetFromRTP := True\<rparr>
    | ParamSDP \<Rightarrow> d\<lparr>vd_paramSetFromSDP := True\<rparr>)"

definition keyframeRequestTarget :: "u32 \<Rightarrow> videoDiagnostics \<Rightarrow> videoDiagnostics" where
  "keyframeRequestTarget ssrc d = d\<lparr>vd_pliTargetSeen := True, vd_pliTargetSSRC := ssrc\<rparr>"

definition naluSeen :: "byte \<Rightarrow> videoDiagnostics \<Rightarrow> videoDiagnostics" where
  "naluSeen t d =
    (if unat t < naluTypeCount then d\<lparr>vd_naluCounts := bump (unat t) (vd_naluCounts d)\<rparr> else d)"

definition frameAssembled :: "videoDiagnostics \<Rightarrow> videoDiagnostics" where
  "frameAssembled d = d\<lparr>vd_framesBuilt := vd_framesBuilt d + 1\<rparr>"

text \<open>The argument is whether the write of the request failed.\<close>

definition keyframeRequested :: "bool \<Rightarrow> videoDiagnostics \<Rightarrow> videoDiagnostics" where
  "keyframeRequested failed d =
    (if failed then d\<lparr>vd_pliFailed := vd_pliFailed d + 1\<rparr> else d\<lparr>vd_pliSent := vd_pliSent d + 1\<rparr>)"

definition answerOutcome :: "bool \<Rightarrow> videoDiagnostics \<Rightarrow> videoDiagnostics" where
  "answerOutcome applied d =
    (if applied then d\<lparr>vd_answerApplied := True\<rparr> else d\<lparr>vd_answerRejected := True\<rparr>)"

definition remoteCandidate :: "bool \<Rightarrow> videoDiagnostics \<Rightarrow> videoDiagnostics" where
  "remoteCandidate accepted d =
    (if accepted then d\<lparr>vd_remoteCandidates := vd_remoteCandidates d + 1\<rparr>
     else d\<lparr>vd_remoteCandidatesBad := vd_remoteCandidatesBad d + 1\<rparr>)"

definition remoteCandidateQueued :: "videoDiagnostics \<Rightarrow> videoDiagnostics" where
  "remoteCandidateQueued d = d\<lparr>vd_remoteCandidatesQueued := vd_remoteCandidatesQueued d + 1\<rparr>"

definition localCandidate :: "videoDiagnostics \<Rightarrow> videoDiagnostics" where
  "localCandidate d = d\<lparr>vd_localCandidates := vd_localCandidates d + 1\<rparr>"

definition unhandledMessage :: "videoDiagnostics \<Rightarrow> videoDiagnostics" where
  "unhandledMessage d = d\<lparr>vd_unhandledMessages := vd_unhandledMessages d + 1\<rparr>"

definition malformedMessage :: "videoDiagnostics \<Rightarrow> videoDiagnostics" where
  "malformedMessage d = d\<lparr>vd_malformedMessages := vd_malformedMessages d + 1\<rparr>"

definition signalingPumpStopped :: "text_runes \<Rightarrow> videoDiagnostics \<Rightarrow> videoDiagnostics" where
  "signalingPumpStopped reason d = (if vd_pumpStopped d = [] then d\<lparr>vd_pumpStopped := reason\<rparr> else d)"

text \<open>A negotiated codec as the recorder reads it.\<close>

record track_codec =
  tc_mime :: text_runes
  tc_fmtp :: text_runes
  tc_payload_type :: byte

definition trackStarted ::
  "(rune \<Rightarrow> rune) \<Rightarrow> time \<Rightarrow> track_codec \<Rightarrow> videoDiagnostics \<Rightarrow> videoDiagnostics" where
  "trackStarted ulow now tc d =
    (let (profile, mode) = parseH264Fmtp ulow (tc_fmtp tc) in
     d\<lparr>vd_trackObserved := True, vd_trackAtNanos := now,
       vd_trackMimeType := sanitizeMimeType ulow (tc_mime tc),
       vd_trackPayload := tc_payload_type tc,
       vd_trackProfile := profile, vd_trackPktMode := mode\<rparr>)"

definition trackRejected :: "text_runes \<Rightarrow> videoDiagnostics \<Rightarrow> videoDiagnostics" where
  "trackRejected reason d = d\<lparr>vd_trackRejection := reason\<rparr>"

definition trackReadFailed :: "text_runes \<Rightarrow> videoDiagnostics \<Rightarrow> videoDiagnostics" where
  "trackReadFailed category d = (if vd_trackReadFail d = [] then d\<lparr>vd_trackReadFail := category\<rparr> else d)"

definition decodeAttempted :: "int \<Rightarrow> videoDiagnostics \<Rightarrow> videoDiagnostics" where
  "decodeAttempted bytesIn d =
    (let d = d\<lparr>vd_decodeAttempts := vd_decodeAttempts d + 1\<rparr> in
     if bytesIn > 0 then d\<lparr>vd_decodeBytesIn := vd_decodeBytesIn d + word_of_int bytesIn\<rparr> else d)"

definition decodeFailed :: "text_runes \<Rightarrow> videoDiagnostics \<Rightarrow> videoDiagnostics" where
  "decodeFailed category d = d\<lparr>vd_decodeFailure := category\<rparr>"

section \<open>Steps\<close>

datatype diag_step =
    RtpCounters time media_packet
  | RtpWire media_packet
  | SampleStep u16
  | NaluStep byte
  | SourceStep param_source
  | FrameStep
  | ReadFailedStep text_runes
  | AnswerStep bool
  | CandidateStep bool
  | CandidateQueuedStep
  | LocalCandidateStep
  | UnhandledStep
  | MalformedStep
  | PumpStoppedStep text_runes
  | TrackStartedStep time track_codec
  | TrackRejectedStep text_runes
  | TargetStep u32
  | RequestedStep bool
  | DecodeTriedStep int
  | DecodeFailedStep text_runes

fun diagnose :: "(rune \<Rightarrow> rune) \<Rightarrow> diag_step \<Rightarrow> videoDiagnostics \<Rightarrow> videoDiagnostics" where
  "diagnose ulow (RtpCounters now p) = rtp_counters now p"
| "diagnose ulow (RtpWire p) = rtp_wire p"
| "diagnose ulow (SampleStep dropped) = sampleAssembled dropped"
| "diagnose ulow (NaluStep t) = naluSeen t"
| "diagnose ulow (SourceStep s) = parameterSetSource s"
| "diagnose ulow FrameStep = frameAssembled"
| "diagnose ulow (ReadFailedStep c) = trackReadFailed c"
| "diagnose ulow (AnswerStep b) = answerOutcome b"
| "diagnose ulow (CandidateStep b) = remoteCandidate b"
| "diagnose ulow CandidateQueuedStep = remoteCandidateQueued"
| "diagnose ulow LocalCandidateStep = localCandidate"
| "diagnose ulow UnhandledStep = unhandledMessage"
| "diagnose ulow MalformedStep = malformedMessage"
| "diagnose ulow (PumpStoppedStep r) = signalingPumpStopped r"
| "diagnose ulow (TrackStartedStep now tc) = trackStarted ulow now tc"
| "diagnose ulow (TrackRejectedStep r) = trackRejected r"
| "diagnose ulow (TargetStep ssrc) = keyframeRequestTarget ssrc"
| "diagnose ulow (RequestedStep failed) = keyframeRequested failed"
| "diagnose ulow (DecodeTriedStep n) = decodeAttempted n"
| "diagnose ulow (DecodeFailedStep c) = decodeFailed c"

definition diag_run :: "(rune \<Rightarrow> rune) \<Rightarrow> diag_step list \<Rightarrow> videoDiagnostics" where
  "diag_run ulow evs = fold (diagnose ulow) evs newVideoDiagnostics"

text \<open>The steps of the calls that the frame store makes.\<close>

fun call_steps :: "diag_call \<Rightarrow> diag_step list" where
  "call_steps (DiagRtpPacket now p) = [RtpCounters now p, RtpWire p]"
| "call_steps (DiagSampleAssembled dropped) = [SampleStep dropped]"
| "call_steps (DiagNaluSeen t) = [NaluStep t]"
| "call_steps (DiagParameterSetSource s) = [SourceStep s]"
| "call_steps DiagFrameAssembled = [FrameStep]"
| "call_steps (DiagTrackReadFailed c) = [ReadFailedStep c]"

definition is_frame_step :: "diag_step \<Rightarrow> bool" where
  "is_frame_step s = (case s of
      RtpCounters _ _ \<Rightarrow> True | RtpWire _ \<Rightarrow> True | SampleStep _ \<Rightarrow> True | NaluStep _ \<Rightarrow> True
    | SourceStep _ \<Rightarrow> True | FrameStep \<Rightarrow> True | ReadFailedStep _ \<Rightarrow> True | _ \<Rightarrow> False)"

end
