(* ===== verification/Video_Report.thy ===== *)
theory Video_Report
  imports Diagnostics
begin

text \<open>
  What leaves the collector of \<open>diagnostics.go\<close>: the snapshot with every field of
  \<open>VideoDiagnostics\<close>, the failure boundary, the hint and the summary line.

  A Go map from names to counters is a partial function; a nil map and an empty one are the
  same. The transport states are the texts the WebRTC library gives for them.
\<close>

section \<open>The exported structure\<close>

record VideoDiagnostics =
  PeerConnectionState :: text_runes
  ICEConnectionState :: text_runes
  SignalingState :: text_runes
  AnswerApplied :: bool
  AnswerRejected :: bool
  LocalICECandidates :: int
  RemoteICECandidates :: int
  RemoteICECandidatesBad :: int
  RemoteICECandidatesQueued :: int
  UnhandledSignalingMsgs :: int
  MalformedSignalingMsgs :: int
  SignalingPumpStopped :: text_runes
  SignalingPumpStillActive :: bool
  TrackObserved :: bool
  TrackAfterMillis :: int
  TrackMimeType :: text_runes
  TrackPayloadType :: byte
  TrackProfileLevel :: text_runes
  TrackPacketMode :: text_runes
  TrackRejection :: text_runes
  OfferedPayloadType :: byte
  OfferedProfileLevel :: text_runes
  OfferedPacketMode :: text_runes
  RTPPackets :: u64
  RTPPayloadBytes :: u64
  FirstRTPAfterMillis :: int
  LastRTPAfterMillis :: int
  TrackReadFailure :: text_runes
  KeyframeRequestsSent :: u64
  KeyframeRequestsFail :: u64
  RTPPacketsByClass :: "text_runes \<rightharpoonup> u64"
  WireNALUnitsByType :: "text_runes \<rightharpoonup> u64"
  MalformedRTPPayloads :: u64
  FUStarts :: u64
  FUEnds :: u64
  RTPPacketsLost :: u64
  RTPPacketsReordered :: u64
  RTPPacketsDuplicated :: u64
  MaxSequenceJump :: u16
  MarkedPackets :: u64
  TimestampChanges :: u64
  UnmarkedFrames :: u64
  MaxPacketsPerFrame :: u64
  MaxPacketsPerKeyframe :: u64
  ReassemblyWindow :: u64
  MediaSourceChanges :: u64
  KeyframeRequestOnTarget :: bool
  AccessUnits :: u64
  NALUnitsByType :: "text_runes \<rightharpoonup> u64"
  SawSPS :: bool
  SawPPS :: bool
  SawIDR :: bool
  FramesAssembled :: u64
  BuilderDropped :: u64
  ParameterSetSource :: text_runes
  DecodeAttempts :: int
  DecodeBytesIn :: u64
  DecodeFailure :: text_runes
  ElapsedMillis :: int
  FailureBoundary :: text_runes

section \<open>Failure boundaries\<close>

definition BoundaryNone :: text_runes where
  "BoundaryNone = runes ''none: a frame was captured''"
definition BoundaryTransport :: text_runes where
  "BoundaryTransport = runes ''transport: peer connection never reached connected''"
definition BoundaryAnswer :: text_runes where
  "BoundaryAnswer = runes ''signaling: no SDP answer was applied''"
definition BoundaryNegotiation :: text_runes where
  "BoundaryNegotiation = runes ''negotiation: no video track (OnTrack never fired)''"
definition BoundaryTrackRejected :: text_runes where
  "BoundaryTrackRejected = runes ''negotiation: video track rejected by this client''"
definition BoundaryNoRTP :: text_runes where
  "BoundaryNoRTP = runes ''media: video track negotiated but zero RTP packets arrived''"
definition BoundaryRTPStalled :: text_runes where
  "BoundaryRTPStalled = runes ''media: RTP arrived then stopped''"
definition BoundaryDepacketize :: text_runes where
  "BoundaryDepacketize = runes ''depacketization: RTP arrived but no access unit was assembled''"
definition BoundaryFragmentation :: text_runes where
  "BoundaryFragmentation =
    runes ''depacketization: fragmented/aggregated NAL units were not reassembled''"
definition BoundaryReassembly :: text_runes where
  "BoundaryReassembly =
    runes ''depacketization: the device sent IDR packets but no IDR access unit was reassembled''"
definition BoundaryNoKeyframe :: text_runes where
  "BoundaryNoKeyframe =
    runes ''encoder: access units arrived but the device never sent an IDR keyframe''"
definition BoundaryNoParamSets :: text_runes where
  "BoundaryNoParamSets = runes ''encoder: IDR arrived but SPS/PPS parameter sets never did''"
definition BoundaryDecode :: text_runes where
  "BoundaryDecode = runes ''decoder: a frame was assembled but decoding failed''"
definition BoundaryUndetermined :: text_runes where
  "BoundaryUndetermined = runes ''undetermined''"

lemmas boundary_defs = BoundaryNone_def BoundaryTransport_def BoundaryAnswer_def
  BoundaryNegotiation_def BoundaryTrackRejected_def BoundaryNoRTP_def BoundaryRTPStalled_def
  BoundaryDepacketize_def BoundaryFragmentation_def BoundaryReassembly_def BoundaryNoKeyframe_def
  BoundaryNoParamSets_def BoundaryDecode_def BoundaryUndetermined_def

definition count_of :: "(text_runes \<rightharpoonup> u64) \<Rightarrow> text_runes \<Rightarrow> u64" where
  "count_of m k = (case m k of None \<Rightarrow> 0 | Some c \<Rightarrow> c)"

definition Boundary :: "VideoDiagnostics \<Rightarrow> text_runes" where
  "Boundary v =
    (if FramesAssembled v > 0 \<and> DecodeFailure v \<noteq> [] then BoundaryDecode
     else if FramesAssembled v > 0 then BoundaryNone
     else if TrackRejection v \<noteq> [] then BoundaryTrackRejected
     else if \<not> TrackObserved v \<and> (AnswerRejected v \<or> \<not> AnswerApplied v) then BoundaryAnswer
     else if \<not> TrackObserved v then BoundaryNegotiation
     else if RTPPackets v = 0 then
       (if PeerConnectionState v \<noteq> runes ''connected'' then BoundaryTransport else BoundaryNoRTP)
     else if AccessUnits v = 0 then
       (if count_of (NALUnitsByType v) (runes ''FU-A'') > 0 \<or>
           count_of (NALUnitsByType v) (runes ''STAP-A'') > 0
        then BoundaryFragmentation else BoundaryDepacketize)
     else if \<not> SawIDR v then
       (if count_of (WireNALUnitsByType v) (runes ''IDR'') > 0 then BoundaryReassembly
        else BoundaryNoKeyframe)
     else if \<not> SawSPS v \<or> \<not> SawPPS v then BoundaryNoParamSets
     else if LastRTPAfterMillis v > 0 \<and> ElapsedMillis v - LastRTPAfterMillis v > 5000
       then BoundaryRTPStalled
     else BoundaryUndetermined)"

text \<open>The dash of the hint is U+2014.\<close>

definition noSignalHint :: "VideoDiagnostics \<Rightarrow> text_runes" where
  "noSignalHint v =
    (if Boundary v = BoundaryNoRTP \<or> Boundary v = BoundaryRTPStalled then
       runes '' '' @ [0x2014] @ runes '' the device is sending no video: the CONTROLLED HOST likely has no HDMI signal (powered off, display-asleep, or unplugged). Wake it with `wake-host` (display-asleep) or `wol` (powered off).''
     else [])"

definition Summary :: "VideoDiagnostics \<Rightarrow> text_runes" where
  "Summary v =
    (if FailureBoundary v = [] then Boundary v else FailureBoundary v) @
    runes '' [pc='' @ PeerConnectionState v @
    runes '' track='' @ format_bool (TrackObserved v) @
    (if TrackObserved v \<and> TrackMimeType v \<noteq> []
     then runes '' codec='' @ TrackMimeType v @ runes ''/pt'' @ decimal (unat (TrackPayloadType v))
     else []) @
    runes '' rtp='' @ decimal (unat (RTPPackets v)) @
    runes '' au='' @ decimal (unat (AccessUnits v)) @
    runes '' idr='' @ format_bool (SawIDR v) @
    runes '' wireIdr='' @ decimal (unat (count_of (WireNALUnitsByType v) (runes ''IDR''))) @
    runes '' dropped='' @ decimal (unat (BuilderDropped v)) @
    runes '' lost='' @ decimal (unat (RTPPacketsLost v)) @
    runes '' pli='' @ decimal (unat (KeyframeRequestsSent v)) @
    runes '' elapsed='' @ decimal_int (ElapsedMillis v) @ runes ''ms]''"

section \<open>The snapshot\<close>

definition offeredProfileLevelID :: text_runes where "offeredProfileLevelID = runes ''42001f''"
definition offeredPacketizationMode :: text_runes where "offeredPacketizationMode = runes ''1''"
definition offeredPayloadType :: byte where "offeredPayloadType = 102"

definition nonZeroCounts :: "(text_runes \<rightharpoonup> u64) \<Rightarrow> (text_runes \<rightharpoonup> u64)" where
  "nonZeroCounts m = (\<lambda>k. case m k of Some c \<Rightarrow> (if c = 0 then None else Some c) | None \<Rightarrow> None)"

definition parameterSetSourceName :: "bool \<Rightarrow> bool \<Rightarrow> text_runes" where
  "parameterSetSourceName fromSDP fromRTP =
    (if fromSDP \<and> fromRTP then runes ''sdp'' @ runes ''+'' @ runes ''rtp''
     else if fromSDP then runes ''sdp'' else if fromRTP then runes ''rtp'' else [])"

text \<open>The loop over the counters of the NAL unit types.\<close>

definition by_type :: "u64 list \<Rightarrow> (text_runes \<rightharpoonup> u64)" where
  "by_type counts = fold (\<lambda>t m. if counts ! t = 0 then m else m(naluTypeName t \<mapsto> counts ! t))
     [0..<naluTypeCount] Map.empty"

text \<open>\<open>time.Duration.Milliseconds\<close> rounds towards zero.\<close>

definition milliseconds :: "time \<Rightarrow> int" where
  "milliseconds t = (if t < 0 then - ((- t) div 1000000) else t div 1000000)"

record transport_state =
  ts_peer :: text_runes
  ts_ice :: text_runes
  ts_signaling :: text_runes

definition unknown_transport :: transport_state where
  "unknown_transport = \<lparr>ts_peer = runes ''unknown'', ts_ice = runes ''unknown'',
     ts_signaling = runes ''unknown''\<rparr>"

text \<open>
  The four readings, in the code's order: \<open>a\<close> the atomic counters, \<open>n\<close> the NAL counters, \<open>w\<close>
  the part under \<open>wireMu\<close>, \<open>m\<close> the part under \<open>mu\<close>.
\<close>

definition snapshot_fields ::
  "transport_state option \<Rightarrow> time \<Rightarrow> videoDiagnostics \<Rightarrow> videoDiagnostics \<Rightarrow> videoDiagnostics \<Rightarrow>
   videoDiagnostics \<Rightarrow> VideoDiagnostics" where
  "snapshot_fields pc now a n w m =
    (let tr = (case pc of None \<Rightarrow> unknown_transport | Some t \<Rightarrow> t) in
     \<lparr>PeerConnectionState = ts_peer tr, ICEConnectionState = ts_ice tr, SignalingState = ts_signaling tr,
      AnswerApplied = vd_answerApplied m, AnswerRejected = vd_answerRejected m,
      LocalICECandidates = vd_localCandidates m, RemoteICECandidates = vd_remoteCandidates m,
      RemoteICECandidatesBad = vd_remoteCandidatesBad m,
      RemoteICECandidatesQueued = vd_remoteCandidatesQueued m,
      UnhandledSignalingMsgs = vd_unhandledMessages m, MalformedSignalingMsgs = vd_malformedMessages m,
      SignalingPumpStopped = vd_pumpStopped m, SignalingPumpStillActive = (vd_pumpStopped m = []),
      TrackObserved = vd_trackObserved m,
      TrackAfterMillis = (if vd_trackObserved m then milliseconds (vd_trackAtNanos m) else 0),
      TrackMimeType = vd_trackMimeType m, TrackPayloadType = vd_trackPayload m,
      TrackProfileLevel = vd_trackProfile m, TrackPacketMode = vd_trackPktMode m,
      TrackRejection = vd_trackRejection m,
      OfferedPayloadType = offeredPayloadType, OfferedProfileLevel = offeredProfileLevelID,
      OfferedPacketMode = offeredPacketizationMode,
      RTPPackets = vd_rtpPackets a, RTPPayloadBytes = vd_rtpBytes a,
      FirstRTPAfterMillis = (if vd_rtpPackets a > 0 then milliseconds (vd_firstRTPNanos a) else 0),
      LastRTPAfterMillis = (if vd_rtpPackets a > 0 then milliseconds (vd_lastRTPNanos a) else 0),
      TrackReadFailure = vd_trackReadFail m,
      KeyframeRequestsSent = vd_pliSent a, KeyframeRequestsFail = vd_pliFailed a,
      RTPPacketsByClass = nonZeroCounts
        [runes ''empty'' \<mapsto> vd_wireEmpty w, runes ''single-nalu'' \<mapsto> vd_wireSingleNALU w,
         runes ''STAP-A'' \<mapsto> vd_wireSTAPA w, runes ''FU-A'' \<mapsto> vd_wireFUA w,
         runes ''other'' \<mapsto> vd_wireOther w],
      WireNALUnitsByType = by_type (vd_wireNALUCounts w),
      MalformedRTPPayloads = vd_wireMalformed w, FUStarts = vd_fuStarts w, FUEnds = vd_fuEnds w,
      RTPPacketsLost = seq_lost (vd_seq w), RTPPacketsReordered = sq_reordered (vd_seq w),
      RTPPacketsDuplicated = sq_duplicates (vd_seq w), MaxSequenceJump = sq_maxJump (vd_seq w),
      MarkedPackets = markers (vd_frames w), TimestampChanges = timestampChanges (vd_frames w),
      UnmarkedFrames = unmarkedRuns (vd_frames w), MaxPacketsPerFrame = largestRun (vd_frames w),
      MaxPacketsPerKeyframe = maxKeyframeRunPackets (vd_frames w),
      ReassemblyWindow = of_nat maxAccessUnitPackets, MediaSourceChanges = vd_mediaSSRCMoved w,
      KeyframeRequestOnTarget =
        (vd_pliTargetSeen w \<and> vd_mediaSSRCSeen w \<and> vd_pliTargetSSRC w = vd_mediaSSRC w),
      AccessUnits = vd_samples a, NALUnitsByType = by_type (vd_naluCounts n),
      SawSPS = (vd_naluCounts n ! unat naluTypeSPS > 0), SawPPS = (vd_naluCounts n ! unat naluTypePPS > 0),
      SawIDR = (vd_naluCounts n ! unat naluTypeIDR > 0),
      FramesAssembled = vd_framesBuilt a, BuilderDropped = vd_builderDropped a,
      ParameterSetSource = parameterSetSourceName (vd_paramSetFromSDP w) (vd_paramSetFromRTP w),
      DecodeAttempts = vd_decodeAttempts m, DecodeBytesIn = vd_decodeBytesIn m,
      DecodeFailure = vd_decodeFailure m,
      ElapsedMillis = milliseconds now, FailureBoundary = []\<rparr>)"

definition snapshot ::
  "transport_state option \<Rightarrow> time \<Rightarrow> videoDiagnostics \<Rightarrow> videoDiagnostics \<Rightarrow> videoDiagnostics \<Rightarrow>
   videoDiagnostics \<Rightarrow> VideoDiagnostics" where
  "snapshot pc now a n w m =
    (let out = snapshot_fields pc now a n w m in out\<lparr>FailureBoundary := Boundary out\<rparr>)"

end
