(* ===== verification/Diagnostics_Properties.thy ===== *)
theory Diagnostics_Properties
  imports Video_Report
begin

text \<open>
  What the diagnostics of \<open>diagnostics.go\<close> say is true of the session: the counters under
  \<open>wireMu\<close> are figures of the packets received, the boundary agrees with the frame store and
  blames the encoder only when no keyframe came, and no text of a snapshot is anything but one
  of a fixed set.
\<close>

section \<open>The loop over a mask\<close>

lemma trailing_zeros_bit:
  assumes "m \<noteq> (0 :: u32)"
  shows "trailing_zeros m < 32" "bit m (trailing_zeros m)" "n < trailing_zeros m \<Longrightarrow> \<not> bit m n"
proof -
  let ?z = "takeWhile (\<lambda>n. \<not> bit m n) [0..<32]"
  obtain k where k: "bit m k" using assms by (auto simp: bit_eq_iff)
  then have "k < 32" using bit_imp_le_length [of m k] by simp
  then have "\<exists>x \<in> set [0..<32]. \<not> \<not> bit m x" using k by auto
  then show less: "trailing_zeros m < 32"
    unfolding trailing_zeros_def
    by (metis length_takeWhile_le length_upt diff_zero le_neq_implies_less
        takeWhile_eq_all_conv takeWhile_eq_take take_all_iff order_refl)
  then show "bit m (trailing_zeros m)"
    using nth_length_takeWhile [of "\<lambda>n. \<not> bit m n" "[0..<32]"] by (simp add: trailing_zeros_def)
  show "\<not> bit m n" if "n < trailing_zeros m" for n
  proof -
    have "?z ! n = n" using that less takeWhile_nth [of n "\<lambda>n. \<not> bit m n" "[0..<32]"]
      by (simp add: trailing_zeros_def)
    then show ?thesis using that nth_mem [of n ?z] set_takeWhileD [of "?z ! n"]
      by (fastforce simp: trailing_zeros_def)
  qed
qed

lemma clear_lowest:
  assumes "m \<noteq> (0 :: u32)"
  shows "bit (m AND (m - 1)) n \<longleftrightarrow> bit m n \<and> n \<noteq> trailing_zeros m"
proof -
  let ?k = "trailing_zeros m"
  let ?h = "m AND NOT (push_bit ?k 1)"
  have k: "?k < 32" "bit m ?k" by (rule trailing_zeros_bit [OF assms])+
  have low: "\<not> bit m i" if "i < ?k" for i using trailing_zeros_bit(3) [OF assms that] .
  have "?h + push_bit ?k 1 = ?h OR push_bit ?k 1"
    by (rule disjunctive_add) (auto simp: bit_simps)
  also have "\<dots> = m" using k by (intro bit_word_eqI) (auto simp: bit_simps)
  finally have "m - 1 = ?h + mask ?k"
    by (simp add: mask_eq_decr_exp push_bit_eq_mult algebra_simps)
  also have "\<dots> = ?h OR mask ?k"
    by (rule disjunctive_add) (auto simp: bit_simps low)
  finally have "m - 1 = ?h OR mask ?k" .
  then show ?thesis using low k bit_imp_le_length [of m n] by (auto simp: bit_simps)
qed

lemma length_bump [simp]: "length (bump i xs) = length xs"
  by (simp add: bump_def)

lemma nth_bump: "t < length xs \<Longrightarrow> bump i xs ! t = xs ! t + (if t = i then 1 else 0)"
  by (auto simp: bump_def)

lemma length_count_types [simp]: "length (count_types m xs) = length xs"
  by (induction m xs rule: count_types.induct) (subst count_types.simps, simp)

lemma nth_count_types:
  "t < length xs \<Longrightarrow> count_types m xs ! t = xs ! t + (if bit m t then 1 else 0)"
proof (induction m xs rule: count_types.induct)
  case (1 m xs)
  show ?case
  proof (cases "m = 0")
    case True
    then show ?thesis by (subst count_types.simps) simp
  next
    case False
    then have "count_types m xs ! t = bump (trailing_zeros m) xs ! t +
        (if bit (m AND (m - 1)) t then 1 else 0)"
      using 1 by (subst count_types.simps) simp
    then show ?thesis
      using False 1(2) trailing_zeros_bit(2) [of m] by (auto simp: nth_bump clear_lowest)
  qed
qed

section \<open>The part under the wire lock\<close>

definition wire_packets :: "diag_step list \<Rightarrow> media_packet list" where
  "wire_packets evs = concat (map (\<lambda>s. case s of RtpWire p \<Rightarrow> [p] | _ \<Rightarrow> []) evs)"

lemma wire_packets_simps [simp]:
  "wire_packets [] = []"
  "wire_packets (evs @ evs') = wire_packets evs @ wire_packets evs'"
  "wire_packets [s] = (case s of RtpWire p \<Rightarrow> [p] | _ \<Rightarrow> [])"
  by (simp_all add: wire_packets_def split: diag_step.splits)

abbreviation info_of :: "media_packet \<Rightarrow> rtpPayloadInfo" where
  "info_of p \<equiv> classifyRTPPayload (mp_payload p)"

definition tally :: "(media_packet \<Rightarrow> bool) \<Rightarrow> media_packet list \<Rightarrow> u64" where
  "tally P ps = of_nat (length (filter P ps))"

definition has_class :: "rtp_class \<Rightarrow> media_packet \<Rightarrow> bool" where
  "has_class c p \<longleftrightarrow> rp_class (info_of p) = c"

definition has_type :: "nat \<Rightarrow> media_packet \<Rightarrow> bool" where
  "has_type t p \<longleftrightarrow> bit (naluTypeMask (info_of p)) t"

lemma tally_simps [simp]:
  "tally P [] = 0"
  "tally P (ps @ [p]) = tally P ps + (if P p then 1 else 0)"
  by (simp_all add: tally_def)

record wire_figures =
  wf_classes :: "u64 list"
  wf_malformed :: u64
  wf_types :: "u64 list"
  wf_fuStarts :: u64
  wf_fuEnds :: u64
  wf_seq :: rtpSequenceTracker
  wf_frames :: rtpFrameTracker

definition wire_view :: "videoDiagnostics \<Rightarrow> wire_figures" where
  "wire_view d =
    \<lparr>wf_classes = [vd_wireEmpty d, vd_wireSingleNALU d, vd_wireSTAPA d, vd_wireFUA d, vd_wireOther d],
     wf_malformed = vd_wireMalformed d, wf_types = vd_wireNALUCounts d,
     wf_fuStarts = vd_fuStarts d, wf_fuEnds = vd_fuEnds d, wf_seq = vd_seq d, wf_frames = vd_frames d\<rparr>"

definition wire_figures_of :: "media_packet list \<Rightarrow> wire_figures" where
  "wire_figures_of ps =
    \<lparr>wf_classes = map (\<lambda>c. tally (has_class c) ps) [RtpEmpty, RtpSingleNALU, RtpSTAPA, RtpFUA, RtpOther],
     wf_malformed = tally (\<lambda>p. malformed (info_of p)) ps,
     wf_types = map (\<lambda>t. tally (has_type t) ps) [0..<32],
     wf_fuStarts = tally (\<lambda>p. has_class RtpFUA p \<and> fuStart (info_of p)) ps,
     wf_fuEnds = tally (\<lambda>p. has_class RtpFUA p \<and> fuEnd (info_of p)) ps,
     wf_seq = fold seq_observe (map mp_sequence ps) seq_tracker_init,
     wf_frames = fold frame_observe (map frame_packet ps) frame_tracker_init\<rparr>"

lemma wire_figures_eqI:
  assumes "wf_classes a = wf_classes b" "wf_malformed a = wf_malformed b" "wf_types a = wf_types b"
    "wf_fuStarts a = wf_fuStarts b" "wf_fuEnds a = wf_fuEnds b" "wf_seq a = wf_seq b"
    "wf_frames a = wf_frames b"
  shows "a = (b :: wire_figures)"
  using assms by (cases a; cases b) simp

lemma observe_ssrc_fields:
  "vd_wireEmpty (observe_ssrc x d) = vd_wireEmpty d"
  "vd_wireSingleNALU (observe_ssrc x d) = vd_wireSingleNALU d"
  "vd_wireSTAPA (observe_ssrc x d) = vd_wireSTAPA d"
  "vd_wireFUA (observe_ssrc x d) = vd_wireFUA d"
  "vd_wireOther (observe_ssrc x d) = vd_wireOther d"
  "vd_wireMalformed (observe_ssrc x d) = vd_wireMalformed d"
  "vd_wireNALUCounts (observe_ssrc x d) = vd_wireNALUCounts d"
  "vd_fuStarts (observe_ssrc x d) = vd_fuStarts d"
  "vd_fuEnds (observe_ssrc x d) = vd_fuEnds d"
  "vd_seq (observe_ssrc x d) = vd_seq d"
  "vd_frames (observe_ssrc x d) = vd_frames d"
  by (simp_all add: observe_ssrc_def)

lemma count_class_fields:
  "vd_wireMalformed (count_class info d) = vd_wireMalformed d"
  "vd_wireNALUCounts (count_class info d) = vd_wireNALUCounts d"
  "vd_seq (count_class info d) = vd_seq d"
  "vd_frames (count_class info d) = vd_frames d"
  "vd_wireEmpty (count_class info d) = vd_wireEmpty d + (if rp_class info = RtpEmpty then 1 else 0)"
  "vd_wireSingleNALU (count_class info d) =
     vd_wireSingleNALU d + (if rp_class info = RtpSingleNALU then 1 else 0)"
  "vd_wireSTAPA (count_class info d) = vd_wireSTAPA d + (if rp_class info = RtpSTAPA then 1 else 0)"
  "vd_wireFUA (count_class info d) = vd_wireFUA d + (if rp_class info = RtpFUA then 1 else 0)"
  "vd_wireOther (count_class info d) = vd_wireOther d + (if rp_class info = RtpOther then 1 else 0)"
  "vd_fuStarts (count_class info d) =
     vd_fuStarts d + (if rp_class info = RtpFUA \<and> fuStart info then 1 else 0)"
  "vd_fuEnds (count_class info d) =
     vd_fuEnds d + (if rp_class info = RtpFUA \<and> fuEnd info then 1 else 0)"
  by (simp_all add: count_class_def split: rtp_class.split)

lemma rtp_wire_fields:
  "vd_wireMalformed (rtp_wire p d) =
     (if malformed (info_of p) then vd_wireMalformed d + 1 else vd_wireMalformed d)"
  "vd_wireNALUCounts (rtp_wire p d) = count_types (naluTypeMask (info_of p)) (vd_wireNALUCounts d)"
  "vd_seq (rtp_wire p d) = seq_observe (mp_sequence p) (vd_seq d)"
  "vd_frames (rtp_wire p d) = frame_observe (frame_packet p) (vd_frames d)"
  "vd_wireEmpty (rtp_wire p d) = vd_wireEmpty d + (if has_class RtpEmpty p then 1 else 0)"
  "vd_wireSingleNALU (rtp_wire p d) = vd_wireSingleNALU d + (if has_class RtpSingleNALU p then 1 else 0)"
  "vd_wireSTAPA (rtp_wire p d) = vd_wireSTAPA d + (if has_class RtpSTAPA p then 1 else 0)"
  "vd_wireFUA (rtp_wire p d) = vd_wireFUA d + (if has_class RtpFUA p then 1 else 0)"
  "vd_wireOther (rtp_wire p d) = vd_wireOther d + (if has_class RtpOther p then 1 else 0)"
  "vd_fuStarts (rtp_wire p d) =
     vd_fuStarts d + (if has_class RtpFUA p \<and> fuStart (info_of p) then 1 else 0)"
  "vd_fuEnds (rtp_wire p d) = vd_fuEnds d + (if has_class RtpFUA p \<and> fuEnd (info_of p) then 1 else 0)"
  by (simp_all add: rtp_wire_def Let_def observe_ssrc_fields count_class_fields has_class_def)

lemmas recorder_defs = rtp_counters_def sampleAssembled_def naluSeen_def parameterSetSource_def
  frameAssembled_def trackReadFailed_def answerOutcome_def remoteCandidate_def
  remoteCandidateQueued_def localCandidate_def unhandledMessage_def malformedMessage_def
  signalingPumpStopped_def trackStarted_def trackRejected_def keyframeRequestTarget_def
  keyframeRequested_def decodeAttempted_def decodeFailed_def

lemma wire_view_other:
  assumes "\<And>p. s \<noteq> RtpWire p"
  shows "wire_view (diagnose ulow s d) = wire_view d"
  using assms by (cases s) (auto simp: wire_view_def recorder_defs Let_def case_prod_beta
      split: param_source.splits)

lemma diag_run_simps [simp]:
  "diag_run ulow [] = newVideoDiagnostics"
  "diag_run ulow (evs @ evs') = fold (diagnose ulow) evs' (diag_run ulow evs)"
  by (simp_all add: diag_run_def)

lemma wire_view_packet:
  assumes "wire_view d = wire_figures_of ps"
  shows "wire_view (rtp_wire p d) = wire_figures_of (ps @ [p])"
proof (rule wire_figures_eqI)
  have d: "vd_wireNALUCounts d = map (\<lambda>t. tally (has_type t) ps) [0..<32]"
    using assms by (simp add: wire_view_def wire_figures_of_def)
  show "wf_types (wire_view (rtp_wire p d)) = wf_types (wire_figures_of (ps @ [p]))"
    by (rule nth_equalityI)
      (simp_all add: wire_view_def wire_figures_of_def rtp_wire_fields d nth_count_types has_type_def)
qed (use assms in \<open>simp_all add: wire_view_def wire_figures_of_def rtp_wire_fields\<close>)

lemma wire_view_run: "wire_view (diag_run ulow evs) = wire_figures_of (wire_packets evs)"
proof (induction evs rule: rev_induct)
  case Nil
  show ?case
    by (simp add: wire_view_def wire_figures_of_def newVideoDiagnostics_def naluTypeCount_def
        map_replicate_const)
next
  case (snoc s evs)
  show ?case
  proof (cases "\<exists>p. s = RtpWire p")
    case True
    with snoc show ?thesis by (auto simp: wire_view_packet)
  next
    case False
    with snoc show ?thesis by (simp add: wire_view_other split: diag_step.splits)
  qed
qed

section \<open>Names\<close>

definition type_names :: "text_runes list" where
  "type_names = map naluTypeName [0..<32]"

lemma type_names_distinct: "distinct type_names"
  by code_simp

lemma naluTypeName_inj: "t < 32 \<Longrightarrow> u < 32 \<Longrightarrow> naluTypeName t = naluTypeName u \<longleftrightarrow> t = u"
  using nth_eq_iff_index_eq [OF type_names_distinct, of t u] by (simp add: type_names_def)

lemma by_type_upto:
  assumes "t < 32" "n \<le> 32"
  shows "fold (\<lambda>t m. if cs ! t = 0 then m else m(naluTypeName t \<mapsto> cs ! t)) [0..<n] Map.empty
     (naluTypeName t) = (if t < n \<and> cs ! t \<noteq> 0 then Some (cs ! t :: u64) else None)"
  using assms(2) by (induction n) (use assms(1) in \<open>auto simp: naluTypeName_inj less_Suc_eq\<close>)

lemma count_by_type: "t < 32 \<Longrightarrow> count_of (by_type cs) (naluTypeName t) = cs ! t"
  by (simp add: count_of_def by_type_def naluTypeCount_def by_type_upto)

lemma dom_fold:
  assumes "\<And>t m. dom (f t m) \<subseteq> insert (g t) (dom m)"
  shows "dom (fold f ts m) \<subseteq> dom m \<union> g ` set ts"
proof (induction ts arbitrary: m)
  case (Cons t ts)
  show ?case using Cons [of "f t m"] assms [of t m] by auto
qed simp

lemma by_type_keys: "dom (by_type cs) \<subseteq> set type_names"
proof -
  let ?f = "\<lambda>t (m :: text_runes \<rightharpoonup> u64). if cs ! t = 0 then m else m(naluTypeName t \<mapsto> cs ! t)"
  have "dom (?f t m) \<subseteq> insert (naluTypeName t) (dom m)" for t m by auto
  from dom_fold [of ?f naluTypeName "[0..<32]" Map.empty, OF this] show ?thesis
    by (simp add: by_type_def naluTypeCount_def type_names_def)
qed

fun class_name :: "rtp_class \<Rightarrow> text_runes" where
  "class_name RtpEmpty = runes ''empty''"
| "class_name RtpSingleNALU = runes ''single-nalu''"
| "class_name RtpSTAPA = runes ''STAP-A''"
| "class_name RtpFUA = runes ''FU-A''"
| "class_name RtpOther = runes ''other''"

lemma class_names_distinct:
  "distinct [runes ''empty'', runes ''single-nalu'', runes ''STAP-A'', runes ''FU-A'', runes ''other'']"
  by code_simp

lemma count_nonZero: "count_of (nonZeroCounts m) k = count_of m k"
  by (simp add: count_of_def nonZeroCounts_def split: option.splits)

lemma count_of_upd: "count_of (m(k \<mapsto> c)) k' = (if k' = k then c else count_of m k')"
  by (simp add: count_of_def)

lemma partition_classes: "(\<Sum>c \<leftarrow> [RtpEmpty, RtpSingleNALU, RtpSTAPA, RtpFUA, RtpOther].
    tally (has_class c) ps) = of_nat (length ps)"
proof (induction ps rule: rev_induct)
  case (snoc p ps)
  then show ?case by (cases "rp_class (info_of p)") (simp_all add: has_class_def algebra_simps)
qed simp

text \<open>
  C26. The wire figures of a report are exact. Whatever the session's goroutines do and in whatever
  order, what a snapshot reports from under \<open>wireMu\<close> is what was received: the packets of each
  class, which add up to all of them, the packets that carry each type of NAL unit, the loss and
  the longest frame of exactly these packets.
\<close>

theorem wire_report_exact:
  assumes "t < 32" and v: "v = snapshot pc now a n (diag_run ulow evs) m" and ps: "ps = wire_packets evs"
  shows "count_of (RTPPacketsByClass v) (class_name c) = tally (has_class c) ps \<and>
    (\<Sum>c \<leftarrow> [RtpEmpty, RtpSingleNALU, RtpSTAPA, RtpFUA, RtpOther].
      count_of (RTPPacketsByClass v) (class_name c)) = of_nat (length ps) \<and>
    count_of (WireNALUnitsByType v) (naluTypeName t) = tally (has_type t) ps \<and>
    MalformedRTPPayloads v = tally (\<lambda>p. malformed (info_of p)) ps \<and>
    RTPPacketsLost v = seq_lost (fold seq_observe (map mp_sequence ps) seq_tracker_init) \<and>
    MaxPacketsPerFrame v =
      largestRun (fold frame_observe (map frame_packet ps) frame_tracker_init)"
proof -
  have w: "wire_view (diag_run ulow evs) = wire_figures_of ps"
    by (simp add: ps wire_view_run)
  have c: "count_of (RTPPacketsByClass v) (class_name c) = tally (has_class c) ps" for c
    using w class_names_distinct
    by (cases c) (simp_all add: v snapshot_def snapshot_fields_def Let_def count_nonZero
        wire_view_def wire_figures_of_def count_of_upd)
  then show ?thesis
    using w assms(1) partition_classes [of "ps"]
    by (simp add: v snapshot_def snapshot_fields_def Let_def count_by_type wire_view_def
        wire_figures_of_def)
qed

theorem wire_report_exact_witness:
  "count_of (WireNALUnitsByType (snapshot None 7 newVideoDiagnostics newVideoDiagnostics
     (diag_run id [RtpWire \<lparr>mp_payload = [0x65, 1], mp_sequence = 1, mp_timestamp = 9,
       mp_marker = True, mp_ssrc = 3\<rparr>]) newVideoDiagnostics)) (naluTypeName 5) = 1"
  using wire_report_exact [of 5 _ None 7 newVideoDiagnostics newVideoDiagnostics id
      "[RtpWire \<lparr>mp_payload = [0x65, 1], mp_sequence = 1, mp_timestamp = 9, mp_marker = True, mp_ssrc = 3\<rparr>]"
      newVideoDiagnostics, OF _ refl refl]
  by (simp add: wire_packets_def tally_def has_type_def classifyRTPPayload_def addNALUType_def
      payload_info_def bit_simps)

section \<open>Counting steps\<close>

definition steps_where :: "(diag_step \<Rightarrow> bool) \<Rightarrow> diag_step list \<Rightarrow> u64" where
  "steps_where P evs = of_nat (length (filter P evs))"

lemma steps_where_simps [simp]:
  "steps_where P [] = 0"
  "steps_where P (evs @ [s]) = steps_where P evs + (if P s then 1 else 0)"
  by (simp_all add: steps_where_def)

lemma of_nat_u64_eq_0: "n < 2 ^ 64 \<Longrightarrow> (of_nat n :: u64) = 0 \<longleftrightarrow> n = 0"
  by (auto simp: word_of_nat_eq_0_iff dest: nat_dvd_not_less)

lemma no_step: "length evs < 2 ^ 64 \<Longrightarrow> steps_where P evs = 0 \<longleftrightarrow> filter P evs = []"
  using of_nat_u64_eq_0 [of "length (filter P evs)"] le_less_trans [OF length_filter_le [of P evs]]
  by (simp add: steps_where_def)

lemma no_packet: "length ps < 2 ^ 64 \<Longrightarrow> tally P ps = 0 \<longleftrightarrow> filter P ps = []"
  using of_nat_u64_eq_0 [of "length (filter P ps)"] le_less_trans [OF length_filter_le [of P ps]]
  by (simp add: tally_def)

lemma length_wire_packets: "length (wire_packets evs) \<le> length evs"
  by (induction evs rule: rev_induct) (auto split: diag_step.split)

lemma rtp_wire_keeps:
  "vd_samples (rtp_wire p d) = vd_samples d" "vd_naluCounts (rtp_wire p d) = vd_naluCounts d"
  "vd_framesBuilt (rtp_wire p d) = vd_framesBuilt d" "vd_rtpPackets (rtp_wire p d) = vd_rtpPackets d"
  "vd_trackRejection (rtp_wire p d) = vd_trackRejection d" "vd_trackMimeType (rtp_wire p d) = vd_trackMimeType d"
  "vd_trackProfile (rtp_wire p d) = vd_trackProfile d" "vd_trackPktMode (rtp_wire p d) = vd_trackPktMode d"
  "vd_trackReadFail (rtp_wire p d) = vd_trackReadFail d" "vd_pumpStopped (rtp_wire p d) = vd_pumpStopped d"
  "vd_decodeFailure (rtp_wire p d) = vd_decodeFailure d" "vd_trackObserved (rtp_wire p d) = vd_trackObserved d"
  by (simp_all add: rtp_wire_def Let_def observe_ssrc_def count_class_def split: rtp_class.split)

lemma step_samples:
  "vd_samples (diagnose ulow s d) = vd_samples d + (case s of SampleStep _ \<Rightarrow> 1 | _ \<Rightarrow> 0)"
  by (cases s) (auto simp: rtp_wire_keeps recorder_defs Let_def case_prod_beta split: param_source.splits)

lemma step_frames:
  "vd_framesBuilt (diagnose ulow s d) = vd_framesBuilt d + (case s of FrameStep \<Rightarrow> 1 | _ \<Rightarrow> 0)"
  by (cases s) (auto simp: rtp_wire_keeps recorder_defs Let_def case_prod_beta split: param_source.splits)

lemma step_nalus:
  "vd_naluCounts (diagnose ulow s d) =
    (case s of NaluStep t \<Rightarrow> if unat t < 32 then bump (unat t) (vd_naluCounts d) else vd_naluCounts d
     | _ \<Rightarrow> vd_naluCounts d)"
  by (cases s) (auto simp: rtp_wire_keeps recorder_defs naluTypeCount_def Let_def case_prod_beta
      split: param_source.splits)

lemma samples_counted: "vd_samples (diag_run ulow evs) = steps_where (\<lambda>s. \<exists>k. s = SampleStep k) evs"
  by (induction evs rule: rev_induct) (auto simp: step_samples newVideoDiagnostics_def split: diag_step.split)

lemma frames_counted: "vd_framesBuilt (diag_run ulow evs) = steps_where (\<lambda>s. s = FrameStep) evs"
  by (induction evs rule: rev_induct) (auto simp: step_frames newVideoDiagnostics_def split: diag_step.split)

lemma nalus_counted:
  "vd_naluCounts (diag_run ulow evs) =
     map (\<lambda>t. steps_where (\<lambda>s. \<exists>b. s = NaluStep b \<and> unat b = t) evs) [0..<32]"
proof (induction evs rule: rev_induct)
  case Nil
  show ?case by (simp add: newVideoDiagnostics_def naluTypeCount_def map_replicate_const)
next
  case (snoc s evs)
  then show ?case
    by (intro nth_equalityI) (auto simp: step_nalus nth_bump split: diag_step.split)
qed

section \<open>Boundaries\<close>

definition boundaries :: "text_runes list" where
  "boundaries = [BoundaryNone, BoundaryTransport, BoundaryAnswer, BoundaryNegotiation,
     BoundaryTrackRejected, BoundaryNoRTP, BoundaryRTPStalled, BoundaryDepacketize,
     BoundaryFragmentation, BoundaryReassembly, BoundaryNoKeyframe, BoundaryNoParamSets,
     BoundaryDecode, BoundaryUndetermined]"

lemma boundaries_distinct: "distinct boundaries"
  by code_simp

lemma rev_boundaries_distinct: "distinct (rev boundaries)"
  using boundaries_distinct by simp

lemmas boundary_neq = boundaries_distinct [unfolded boundaries_def, simplified]
  rev_boundaries_distinct [unfolded boundaries_def rev.simps append.simps, simplified]

lemma Boundary_NoKeyframe:
  "Boundary v = BoundaryNoKeyframe \<Longrightarrow>
     \<not> SawIDR v \<and> count_of (WireNALUnitsByType v) (runes ''IDR'') = 0"
  by (simp add: Boundary_def boundary_neq word_gt_0 split: if_splits)

lemma Boundary_Reassembly:
  "Boundary v = BoundaryReassembly \<Longrightarrow>
     \<not> SawIDR v \<and> count_of (WireNALUnitsByType v) (runes ''IDR'') \<noteq> 0"
  by (simp add: Boundary_def boundary_neq word_gt_0 split: if_splits)

lemma Boundary_Fragmentation:
  "Boundary v = BoundaryFragmentation \<Longrightarrow> AccessUnits v = 0 \<and>
     (count_of (NALUnitsByType v) (runes ''FU-A'') \<noteq> 0 \<or>
      count_of (NALUnitsByType v) (runes ''STAP-A'') \<noteq> 0)"
  by (simp add: Boundary_def boundary_neq word_gt_0 split: if_splits)

lemma Boundary_captured:
  "Boundary v = BoundaryNone \<or> Boundary v = BoundaryDecode \<longleftrightarrow> FramesAssembled v \<noteq> 0"
  by (simp add: Boundary_def boundary_neq word_gt_0 split: if_splits)

lemma Boundary_closed: "Boundary v \<in> set boundaries"
  by (simp add: Boundary_def boundaries_def)

lemma snapshot_boundary [simp]: "FailureBoundary (snapshot pc now a n w m) = Boundary (snapshot pc now a n w m)"
  by (simp add: snapshot_def Boundary_def Let_def)

lemma snapshot_fields:
  "FramesAssembled (snapshot pc now a n w m) = vd_framesBuilt a"
  "TrackRejection (snapshot pc now a n w m) = vd_trackRejection m"
  "TrackObserved (snapshot pc now a n w m) = vd_trackObserved m"
  "RTPPackets (snapshot pc now a n w m) = vd_rtpPackets a"
  "AccessUnits (snapshot pc now a n w m) = vd_samples a"
  "NALUnitsByType (snapshot pc now a n w m) = by_type (vd_naluCounts n)"
  "WireNALUnitsByType (snapshot pc now a n w m) = by_type (vd_wireNALUCounts w)"
  "TrackMimeType (snapshot pc now a n w m) = vd_trackMimeType m"
  "TrackProfileLevel (snapshot pc now a n w m) = vd_trackProfile m"
  "TrackPacketMode (snapshot pc now a n w m) = vd_trackPktMode m"
  "TrackReadFailure (snapshot pc now a n w m) = vd_trackReadFail m"
  "SignalingPumpStopped (snapshot pc now a n w m) = vd_pumpStopped m"
  "DecodeFailure (snapshot pc now a n w m) = vd_decodeFailure m"
  by (simp_all add: snapshot_def snapshot_fields_def Let_def)

lemma has_type_IDR: "has_type 5 p \<longleftrightarrow> carries (info_of p) naluTypeIDR"
  unfolding has_type_def carries_def and_push_bit_1_iff by (simp add: naluTypeIDR_def)

lemma snapshot_wire_IDR:
  assumes "w = diag_run ulow evs" "length evs < 2 ^ 64"
  shows "count_of (WireNALUnitsByType (snapshot pc now a n w m)) (runes ''IDR'') = 0 \<longleftrightarrow>
    \<not> list_ex (\<lambda>p. carries (info_of p) naluTypeIDR) (wire_packets evs)"
proof -
  have "naluTypeName 5 = runes ''IDR''" by (simp add: naluTypeName_def)
  then have "count_of (WireNALUnitsByType (snapshot pc now a n w m)) (runes ''IDR'') =
      tally (has_type 5) (wire_packets evs)"
    using count_by_type [of 5 "vd_wireNALUCounts w"] wire_view_run [of ulow evs] assms(1)
    by (simp add: snapshot_def snapshot_fields_def Let_def wire_view_def wire_figures_of_def)
  then show ?thesis
    using no_packet [of "wire_packets evs"] length_wire_packets [of evs] assms(2)
    by (simp add: has_type_IDR list_ex_iff filter_empty_conv)
qed

lemma snapshot_SawIDR:
  assumes "n = diag_run ulow evs" "length evs < 2 ^ 64"
  shows "SawIDR (snapshot pc now a n w m) \<longleftrightarrow> NaluStep naluTypeIDR \<in> set evs"
proof -
  have five: "unat b = 5 \<longleftrightarrow> b = 5" for b :: byte by (simp add: word_unat_eq_iff)
  have "SawIDR (snapshot pc now a n w m) \<longleftrightarrow> vd_naluCounts n ! 5 \<noteq> 0"
    by (simp add: snapshot_def snapshot_fields_def Let_def naluTypeIDR_def word_gt_0)
  also have "\<dots> \<longleftrightarrow> (\<exists>s \<in> set evs. \<exists>b. s = NaluStep b \<and> unat b = 5)"
    using no_step [OF assms(2), of "\<lambda>s. \<exists>b. s = NaluStep b \<and> unat b = 5"]
    by (simp add: assms(1) nalus_counted filter_empty_conv)
  also have "\<dots> \<longleftrightarrow> NaluStep naluTypeIDR \<in> set evs"
    using five by (auto simp: naluTypeIDR_def)
  finally show ?thesis .
qed

text \<open>
  C27. The encoder is blamed only when no keyframe came. A snapshot taken while the session goes on
  reads the NAL counters after \<open>e1 @ e2\<close> and the wire figures after \<open>e1 @ e2 @ e3\<close>: if it says that
  the device never sent a keyframe, no packet received by then carried an IDR unit and no access
  unit had one; if it blames reassembly, a packet did, and no access unit had one.
\<close>

theorem keyframe_verdict:
  assumes "n = diag_run ulow (e1 @ e2)" and "w = diag_run ulow (e1 @ e2 @ e3)"
    and "length (e1 @ e2 @ e3) < 2 ^ 64" and "v = snapshot pc now a n w m"
  shows "(FailureBoundary v = BoundaryNoKeyframe \<longrightarrow> NaluStep naluTypeIDR \<notin> set (e1 @ e2) \<and>
      \<not> list_ex (\<lambda>p. carries (info_of p) naluTypeIDR) (wire_packets (e1 @ e2 @ e3))) \<and>
    (FailureBoundary v = BoundaryReassembly \<longrightarrow> NaluStep naluTypeIDR \<notin> set (e1 @ e2) \<and>
      list_ex (\<lambda>p. carries (info_of p) naluTypeIDR) (wire_packets (e1 @ e2 @ e3)))"
proof -
  have "SawIDR v \<longleftrightarrow> NaluStep naluTypeIDR \<in> set (e1 @ e2)"
    unfolding assms(4) using assms(3) by (intro snapshot_SawIDR [OF assms(1)]) simp
  moreover have "count_of (WireNALUnitsByType v) (runes ''IDR'') = 0 \<longleftrightarrow>
      \<not> list_ex (\<lambda>p. carries (info_of p) naluTypeIDR) (wire_packets (e1 @ e2 @ e3))"
    unfolding assms(4) by (rule snapshot_wire_IDR [OF assms(2,3)])
  moreover have "FailureBoundary v = Boundary v" by (simp add: assms(4))
  ultimately show ?thesis using Boundary_NoKeyframe [of v] Boundary_Reassembly [of v] by metis
qed

definition lost_keyframe :: media_packet where
  "lost_keyframe = \<lparr>mp_payload = [0x65, 1], mp_sequence = 1, mp_timestamp = 9, mp_marker = True, mp_ssrc = 3\<rparr>"

definition lost_keyframe_run :: "diag_step list" where
  "lost_keyframe_run = [TrackStartedStep 0 \<lparr>tc_mime = [], tc_fmtp = [], tc_payload_type = 0\<rparr>,
     RtpCounters 5 lost_keyframe, RtpWire lost_keyframe, SampleStep 1]"

lemma lost_keyframe_carries: "carries (info_of lost_keyframe) naluTypeIDR"
  by code_simp

lemma lost_keyframe_verdict:
  assumes "d = diag_run id lost_keyframe_run" and v: "v = snapshot None 7 d d d d"
  shows "Boundary v = BoundaryReassembly"
proof -
  have "FramesAssembled v = 0" "AccessUnits v = 1"
    by (simp_all add: v snapshot_fields assms(1) samples_counted frames_counted
        lost_keyframe_run_def steps_where_def)
  moreover have "\<not> SawIDR v"
    using snapshot_SawIDR [OF assms(1)] v by (simp add: lost_keyframe_run_def)
  moreover have "count_of (WireNALUnitsByType v) (runes ''IDR'') \<noteq> 0"
    using snapshot_wire_IDR [OF assms(1)] lost_keyframe_carries v
    by (simp add: lost_keyframe_run_def wire_packets_def)
  moreover have "TrackObserved v" "TrackRejection v = []" "RTPPackets v = 1"
    by (simp_all add: v snapshot_fields assms(1) diag_run_def lost_keyframe_run_def recorder_defs
        rtp_wire_keeps newVideoDiagnostics_def case_prod_beta Let_def)
  ultimately show ?thesis by (simp add: Boundary_def word_gt_0)
qed

theorem keyframe_verdict_witness:
  "list_ex (\<lambda>p. carries (info_of p) naluTypeIDR) (wire_packets lost_keyframe_run)"
proof -
  define d where "d = diag_run id lost_keyframe_run"
  have "FailureBoundary (snapshot None 7 d d d d) = BoundaryReassembly"
    using lost_keyframe_verdict [OF d_def refl] by simp
  moreover have "length lost_keyframe_run < 2 ^ 64" by (simp add: lost_keyframe_run_def)
  ultimately show ?thesis
    using keyframe_verdict [of d id lost_keyframe_run "[]" d "[]" _ None 7 d d] d_def by simp
qed

section \<open>The frame store and the collector\<close>

text \<open>What the session does with its frame store, and the calls this makes.\<close>

datatype receive_op =
    PushOp time media_packet "(u16 \<times> byte list \<times> time) list"
  | SeedOp "byte list option" "byte list option"
  | FailOp errval
  | EndRunOp redactor "go_error option"

fun receive :: "(rune \<Rightarrow> rune) \<Rightarrow> receive_op \<Rightarrow> frameCapture \<Rightarrow> frameCapture" where
  "receive ulow (PushOp t p samples) f = push t p samples f"
| "receive ulow (SeedOp sps pps) f = seedParameterSets sps pps f"
| "receive ulow (FailOp e) f = fc_fail e f"
| "receive ulow (EndRunOp rd e) f = fc_endRun rd ulow e f"

definition sampled :: "frameCapture \<Rightarrow> bool" where
  "sampled f \<longleftrightarrow> (\<exists>k. DiagSampleAssembled k \<in> set (fc_diag f))"

definition calls_inv :: "frameCapture \<Rightarrow> bool" where
  "calls_inv f \<longleftrightarrow> (fc_latest f \<noteq> None \<longleftrightarrow> DiagFrameAssembled \<in> set (fc_diag f)) \<and>
     ((\<exists>t. DiagNaluSeen t \<in> set (fc_diag f)) \<longrightarrow> sampled f)"

lemma store_step_calls:
  "sampled f \<Longrightarrow> calls_inv f \<Longrightarrow> sampled (store_step e f) \<and> calls_inv (store_step e f)"
  by (cases e) (auto simp: calls_inv_def sampled_def commit_frame_def store_defs Let_def
      split: option.splits)

lemma ingest_calls: "sampled f \<Longrightarrow> calls_inv f \<Longrightarrow> sampled (ingest x t f) \<and> calls_inv (ingest x t f)"
proof -
  have "sampled f \<Longrightarrow> calls_inv f \<Longrightarrow> sampled (fold store_step evs f) \<and> calls_inv (fold store_step evs f)"
    for evs by (induction evs arbitrary: f) (auto simp: store_step_calls)
  then show "sampled f \<Longrightarrow> calls_inv f \<Longrightarrow> ?thesis" by (simp add: ingest_is_events)
qed

lemma sample_calls:
  assumes "calls_inv f"
  shows "calls_inv (ingest x now (fc_record (DiagSampleAssembled k) f))"
proof -
  have "sampled (fc_record (DiagSampleAssembled k) f)" by (auto simp: sampled_def fc_record_def)
  moreover have "calls_inv (fc_record (DiagSampleAssembled k) f)"
    using assms by (auto simp: calls_inv_def sampled_def fc_record_def)
  ultimately show ?thesis using ingest_calls by blast
qed

lemma push_calls: "calls_inv f \<Longrightarrow> calls_inv (push t p samples f)"
proof -
  have fold: "calls_inv f \<Longrightarrow> calls_inv (fold (\<lambda>(dropped, data, now) f.
      ingest data now (fc_record (DiagSampleAssembled dropped) f)) samples f)" for f
    by (induction samples arbitrary: f) (auto simp: sample_calls)
  assume "calls_inv f"
  then have "calls_inv (fc_record (DiagRtpPacket t p) f)"
    by (auto simp: calls_inv_def sampled_def fc_record_def)
  then show ?thesis unfolding push_def by (rule fold)
qed

lemma receive_calls: "calls_inv f \<Longrightarrow> calls_inv (receive ulow op f)"
  by (cases op) (auto simp: push_calls, auto simp: calls_inv_def sampled_def store_defs fc_endRun_def
      Let_def split: option.splits)

interpretation receiving: run_invariant "receive ulow" "\<lambda>_. True" calls_inv for ulow
  by unfold_locales (rule receive_calls)

lemma receive_run_calls: "calls_inv (fold (receive ulow) ops newFrameCapture)"
  by (rule receiving.run_inv) (simp_all add: calls_inv_def newFrameCapture_def)

lemma frame_step_calls:
  assumes "filter is_frame_step evs = concat (map call_steps calls)"
  shows "FrameStep \<in> set evs \<longleftrightarrow> DiagFrameAssembled \<in> set calls"
    and "NaluStep t \<in> set evs \<longleftrightarrow> DiagNaluSeen t \<in> set calls"
    and "SampleStep k \<in> set evs \<longleftrightarrow> DiagSampleAssembled k \<in> set calls"
proof -
  have in_evs: "s \<in> set evs \<longleftrightarrow> (\<exists>c \<in> set calls. s \<in> set (call_steps c))" if "is_frame_step s" for s
  proof -
    have "s \<in> set evs \<longleftrightarrow> s \<in> set (filter is_frame_step evs)" using that by simp
    then show ?thesis by (simp only: assms set_concat set_map) blast
  qed
  have call: "(FrameStep \<in> set (call_steps c) \<longleftrightarrow> c = DiagFrameAssembled) \<and>
    (NaluStep t \<in> set (call_steps c) \<longleftrightarrow> c = DiagNaluSeen t) \<and>
    (SampleStep k \<in> set (call_steps c) \<longleftrightarrow> c = DiagSampleAssembled k)" for c
    by (cases c) auto
  show "FrameStep \<in> set evs \<longleftrightarrow> DiagFrameAssembled \<in> set calls"
    by (subst in_evs) (simp_all add: is_frame_step_def call)
  show "NaluStep t \<in> set evs \<longleftrightarrow> DiagNaluSeen t \<in> set calls"
    by (subst in_evs) (simp_all add: is_frame_step_def call)
  show "SampleStep k \<in> set evs \<longleftrightarrow> DiagSampleAssembled k \<in> set calls"
    by (subst in_evs) (simp_all add: is_frame_step_def call)
qed


text \<open>The witness: one access unit with a keyframe, and the last packet of another one.\<close>

definition keyframe_packet :: media_packet where
  "keyframe_packet = \<lparr>mp_payload = [0x65, 3], mp_sequence = 1, mp_timestamp = 9, mp_marker = True, mp_ssrc = 3\<rparr>"

definition keyframe_store :: frameCapture where
  "keyframe_store = fold (receive id)
     [PushOp 5 keyframe_packet [(0, [0, 0, 1, 0x67, 1, 0, 0, 1, 0x68, 2, 0, 0, 1, 0x65, 3], 40)]] newFrameCapture"

lemma keyframe_store_run:
  "fc_diag keyframe_store = [DiagRtpPacket 5 keyframe_packet, DiagSampleAssembled 0, DiagNaluSeen 7,
     DiagParameterSetSource ParamRTP, DiagNaluSeen 8, DiagParameterSetSource ParamRTP, DiagNaluSeen 5,
     DiagFrameAssembled] \<and> fc_latest keyframe_store \<noteq> None"
proof -
  have "splitAnnexB [0, 0, 1, 0x67, 1, 0, 0, 1, 0x68, 2, 0, 0, 1, 0x65, 3] =
      [[0x67, 1], [0x68, 2], [0x65, 3]]"
    by (simp add: splitAnnexB_def split_loop.simps indexStartCode.simps)
  then show ?thesis
    by (simp add: keyframe_store_def push_def ingest_def store_defs nalu_type_defs commit_frame_def
        newFrameCapture_def Let_def)
qed

definition keyframe_steps :: "diag_step list" where
  "keyframe_steps = [AnswerStep True, RtpCounters 5 keyframe_packet, RtpWire keyframe_packet, SampleStep 0,
     NaluStep 7, SourceStep ParamRTP, LocalCandidateStep, NaluStep 8, SourceStep ParamRTP, NaluStep 5, FrameStep]"


text \<open>
  A snapshot in the middle of the first access unit can take that branch all the same: the counter
  of access units is read before the unit is counted, the NAL counters after it was scanned.
\<close>

lemma fragmentation_while_receiving:
  fixes evs :: "diag_step list"
  defines "evs \<equiv> [TrackStartedStep 0 \<lparr>tc_mime = [], tc_fmtp = [], tc_payload_type = 0\<rparr>,
     RtpCounters 5 keyframe_packet, RtpWire keyframe_packet]"
  defines "v \<equiv> snapshot None 7 (diag_run id evs) (diag_run id (evs @ [SampleStep 0, NaluStep 28]))
     (diag_run id evs) (diag_run id evs)"
  shows "FailureBoundary v = BoundaryFragmentation"
proof -
  have "FramesAssembled v = 0" "AccessUnits v = 0"
    by (simp_all add: v_def snapshot_fields samples_counted frames_counted evs_def steps_where_def)
  moreover have "vd_naluCounts (diag_run id (evs @ [SampleStep 0, NaluStep 28])) ! 28 = 1"
    by (simp add: nalus_counted evs_def steps_where_def)
  then have "count_of (NALUnitsByType v) (naluTypeName 28) = 1"
    by (simp add: v_def snapshot_fields count_by_type)
  then have "count_of (NALUnitsByType v) (runes ''FU-A'') = 1" by (simp add: naluTypeName_def)
  moreover have "TrackObserved v" "TrackRejection v = []" "RTPPackets v = 1"
    by (simp_all add: v_def snapshot_fields diag_run_def evs_def recorder_defs
        rtp_wire_keeps newVideoDiagnostics_def case_prod_beta Let_def)
  moreover have "FailureBoundary v = Boundary v" by (simp add: v_def)
  ultimately show ?thesis by (simp add: Boundary_def word_gt_0)
qed

section \<open>Closed vocabulary\<close>

definition mime_names :: "text_runes list" where
  "mime_names = [[], runes ''video/H264'', runes ''video/H265'', runes ''video/VP8'',
     runes ''video/VP9'', runes ''video/AV1'', runes ''other'']"

definition profile_ok :: "text_runes \<Rightarrow> bool" where
  "profile_ok p \<longleftrightarrow> p = [] \<or> p = runes ''invalid'' \<or>
     length p \<le> 6 \<and> set p \<subseteq> set (runes ''0123456789abcdef'')"

definition mode_names :: "text_runes list" where
  "mode_names = [[], runes ''invalid'', [48], [49], [50]]"

definition read_categories :: "text_runes list" where
  "read_categories = [[], runes ''track-ended'', runes ''canceled'', runes ''timeout'',
     runes ''closed'', runes ''reset'', runes ''read-error'']"

definition decode_category :: "text_runes \<Rightarrow> bool" where
  "decode_category c \<longleftrightarrow> c \<in> {[], runes ''canceled'', runes ''timeout'', runes ''decoder-not-found'',
     runes ''decoder-no-output'', runes ''decoder-bad-image'', runes ''decode-failed''} \<or>
     (\<exists>code. c = runes ''decoder-exit-'' @ decimal_int code)"

lemma sanitizeMimeType_closed: "sanitizeMimeType ulow mime \<in> set mime_names"
  by (simp add: sanitizeMimeType_def mime_names_def Let_def)

lemma classifyTrackReadError_closed: "classifyTrackReadError ulow e \<in> set read_categories"
  by (simp add: classifyTrackReadError_def read_categories_def Let_def split: option.split)

lemma classifyDecodeError_closed: "decode_category (classifyDecodeError ulow e)"
  by (auto simp: classifyDecodeError_def decode_category_def Let_def split: option.split)

lemma byte_len_ge: "length s \<le> byte_len s"
  by (induction s) (auto simp: byte_len_def rune_len_def)

lemma validSmallInt_closed: "validSmallInt v \<in> set mode_names"
proof (cases "byte_len v = 1 \<and> v ! 0 \<ge> 48 \<and> v ! 0 \<le> 50")
  case True
  then obtain r where r: "v = [r]"
    using byte_len_ge [of v] by (cases v) (auto simp: byte_len_def)
  with True have "r = 48 \<or> r = 49 \<or> r = 50" by auto
  with True r show ?thesis by (auto simp: validSmallInt_def mode_names_def)
qed (auto simp: validSmallInt_def mode_names_def)

lemma lower_hex_digit:
  "r \<in> set (runes ''0123456789abcdefABCDEF'') \<Longrightarrow> to_lower ulow r \<in> set (runes ''0123456789abcdef'')"
  by (auto simp: runes_def to_lower_def)

lemma validHexToken_closed: "profile_ok (validHexToken ulow v 6)"
proof (cases "v = [] \<or> byte_len v > 6 \<or> list_ex (\<lambda>r. r \<notin> set (runes ''0123456789abcdefABCDEF'')) v")
  case False
  then have "length v \<le> 6" using byte_len_ge [of v] by linarith
  with False show ?thesis
    by (auto simp: validHexToken_def profile_ok_def lowered_def list_ex_iff intro: lower_hex_digit)
qed (auto simp: validHexToken_def profile_ok_def)

lemma parse_fmtp_closed:
  "profile_ok (fst acc) \<Longrightarrow> snd acc \<in> set mode_names \<Longrightarrow>
   profile_ok (fst (parse_fmtp ulow parts acc)) \<and> snd (parse_fmtp ulow parts acc) \<in> set mode_names"
  by (induction ulow parts acc rule: parse_fmtp.induct)
    (auto simp: Let_def validHexToken_closed validSmallInt_closed split: option.split)

lemma parseH264Fmtp_closed:
  "profile_ok (fst (parseH264Fmtp ulow s)) \<and> snd (parseH264Fmtp ulow s) \<in> set mode_names"
  unfolding parseH264Fmtp_def by (rule parse_fmtp_closed) (simp_all add: profile_ok_def mode_names_def)

text \<open>The texts that the callers pass: a category, or one of two literals.\<close>

fun step_ok :: "(rune \<Rightarrow> rune) \<Rightarrow> diag_step \<Rightarrow> bool" where
  "step_ok ulow (ReadFailedStep c) \<longleftrightarrow> (\<exists>e. c = classifyTrackReadError ulow e)"
| "step_ok ulow (PumpStoppedStep r) \<longleftrightarrow>
     r = runes ''session-closed'' \<or> (\<exists>e. r = classifyTrackReadError ulow e)"
| "step_ok ulow (TrackRejectedStep r) \<longleftrightarrow> r = runes ''non-h264-codec''"
| "step_ok ulow (DecodeFailedStep c) \<longleftrightarrow> (\<exists>e. c = classifyDecodeError ulow e)"
| "step_ok ulow _ \<longleftrightarrow> True"

definition closed_state :: "videoDiagnostics \<Rightarrow> bool" where
  "closed_state d \<longleftrightarrow> vd_trackMimeType d \<in> set mime_names \<and> profile_ok (vd_trackProfile d) \<and>
     vd_trackPktMode d \<in> set mode_names \<and> vd_trackRejection d \<in> {[], runes ''non-h264-codec''} \<and>
     vd_trackReadFail d \<in> set read_categories \<and>
     vd_pumpStopped d \<in> insert (runes ''session-closed'') (set read_categories) \<and>
     decode_category (vd_decodeFailure d)"

lemma step_closed:
  assumes "closed_state d" "step_ok ulow s"
  shows "closed_state (diagnose ulow s d)"
proof (cases s)
  case (TrackStartedStep now tc)
  then show ?thesis
    using assms parseH264Fmtp_closed [of ulow "tc_fmtp tc"]
    by (simp add: closed_state_def trackStarted_def case_prod_beta sanitizeMimeType_closed)
qed (use assms in \<open>auto simp: closed_state_def recorder_defs rtp_wire_keeps Let_def
      classifyTrackReadError_closed classifyDecodeError_closed split: param_source.splits\<close>)

lemma closed_run: "\<forall>s \<in> set evs. step_ok ulow s \<Longrightarrow> closed_state (diag_run ulow evs)"
proof (induction evs rule: rev_induct)
  case Nil
  show ?case
    by (simp add: closed_state_def newVideoDiagnostics_def mime_names_def profile_ok_def
        mode_names_def read_categories_def decode_category_def)
qed (simp add: step_closed)

end
