(* ===== verification/Decoder.thy ===== *)
theory Decoder
  imports Device_Error "HOL-Library.Signed_Division" "HOL-Library.Word"
begin

text \<open>
  Decoding a frame with ffmpeg, \<open>decoder.go\<close>: the check of dimensions on machine integers, the
  buffer that bounds what a subprocess may produce, the subprocess's environment, and what
  \<open>decodeFrame\<close> and \<open>decodeFFmpegPNG\<close> do with what the subprocess and the PNG library return.
\<close>

section \<open>Dimensions\<close>

type_synonym go_int = "64 word"

definition maxScreenshotDimension :: go_int where "maxScreenshotDimension = 8192"
definition maxScreenshotPixels :: go_int where "maxScreenshotPixels = 16 * 1024 * 1024"
definition MaxScreenshotEncodedBytes :: nat where
  "MaxScreenshotEncodedBytes = 16 * 1024 * 1024 * 4 + 2 * 1024 * 1024"
definition maxFFmpegStderrBytes :: nat where "maxFFmpegStderrBytes = 8 * 1024"

text \<open>Go's \<open>/\<close>: it truncates towards zero and wraps.\<close>

definition go_div :: "go_int \<Rightarrow> go_int \<Rightarrow> go_int" where
  "go_div a b = word_of_int (sint a sdiv sint b)"

definition dimensions_text :: "go_int \<Rightarrow> go_int \<Rightarrow> text_runes" where
  "dimensions_text width height =
    runes ''screenshot dimensions '' @ decimal_int (sint width) @ runes ''x'' @ decimal_int (sint height)"

definition ValidateScreenshotDimensions :: "go_int \<Rightarrow> go_int \<Rightarrow> errval option" where
  "ValidateScreenshotDimensions width height =
    (if width \<le>s 0 \<or> height \<le>s 0
       then Some (Plain (dimensions_text width height @ runes '' must be positive''))
     else if maxScreenshotDimension <s width \<or> maxScreenshotDimension <s height
       then Some (Plain (dimensions_text width height @ runes '' exceed the 8192-pixel per-axis limit''))
     else if go_div maxScreenshotPixels height <s width
       then Some (Plain (dimensions_text width height @ runes '' exceed the 16777216-pixel limit''))
     else None)"

section \<open>Bounded buffers\<close>

text \<open>\<open>cb_cap\<close> is the capacity of the slice.\<close>

record cappedBuffer =
  cb_data :: "byte list"
  cb_cap :: nat
  cb_limit :: nat
  cb_overflowed :: bool

definition newCappedBuffer :: "nat \<Rightarrow> cappedBuffer" where
  "newCappedBuffer limit = \<lparr>cb_data = [], cb_cap = 0, cb_limit = limit, cb_overflowed = False\<rparr>"

text \<open>\<open>Write\<close>: the number it reports and the buffer after it. It never returns an error.\<close>

definition capped_write :: "byte list \<Rightarrow> cappedBuffer \<Rightarrow> nat \<times> cappedBuffer" where
  "capped_write p b =
    (let written = length p in
     if cb_limit b \<le> length (cb_data b)
     then (written, if written > 0 then b\<lparr>cb_overflowed := True\<rparr> else b)
     else
       let remaining = cb_limit b - length (cb_data b);
           keep = min written remaining;
           required = length (cb_data b) + keep;
           b1 = (if required > cb_cap b
                 then b\<lparr>cb_cap := min (max required (cb_cap b * 2)) (cb_limit b)\<rparr> else b);
           b2 = b1\<lparr>cb_data := cb_data b1 @ take keep p\<rparr>
       in (written, if keep < written then b2\<lparr>cb_overflowed := True\<rparr> else b2))"

definition capped_all :: "byte list list \<Rightarrow> cappedBuffer \<Rightarrow> cappedBuffer" where
  "capped_all ps b = fold (\<lambda>p b. snd (capped_write p b)) ps b"

section \<open>The subprocess\<close>

definition ffmpegEnvAllowlist :: "string list" where
  "ffmpegEnvAllowlist = [''PATH'', ''TMPDIR'', ''TMP'', ''TEMP'', ''SystemRoot'', ''WINDIR'']"

fun allowed_env :: "(string \<Rightarrow> string option) \<Rightarrow> string list \<Rightarrow> string list" where
  "allowed_env lookup [] = []"
| "allowed_env lookup (key # keys) = (case lookup key of
      Some v \<Rightarrow> (key @ ''='' @ v) # allowed_env lookup keys
    | None \<Rightarrow> allowed_env lookup keys)"

definition decoderEnv :: "(string \<Rightarrow> string option) \<Rightarrow> string list" where
  "decoderEnv lookup = allowed_env lookup ffmpegEnvAllowlist"

record ffmpeg_decoder =
  fd_binaryPath :: string
  fd_timeout :: int

definition decoder_binary :: "ffmpeg_decoder \<Rightarrow> string" where
  "decoder_binary d = (if fd_binaryPath d \<noteq> '''' then fd_binaryPath d else ''ffmpeg'')"

text \<open>In nanoseconds.\<close>

definition decoder_timeout :: "ffmpeg_decoder \<Rightarrow> int" where
  "decoder_timeout d = (if fd_timeout d > 0 then fd_timeout d else 10 * 10 ^ 9)"

record command =
  cmd_binary :: string
  cmd_args :: "string list"
  cmd_env :: "string list"
  cmd_waitDelay :: int

definition newFFmpegCmd :: "(string \<Rightarrow> string option) \<Rightarrow> ffmpeg_decoder \<Rightarrow> string list \<Rightarrow> command" where
  "newFFmpegCmd lookup d args = \<lparr>cmd_binary = decoder_binary d, cmd_args = args,
     cmd_env = decoderEnv lookup, cmd_waitDelay = 2 * 10 ^ 9\<rparr>"

definition decode_args :: "string list" where
  "decode_args = [''-hide_banner'', ''-loglevel'', ''error'', ''-max_alloc'', ''268435456'',
     ''-max_pixels'', ''16777216'', ''-f'', ''h264'', ''-i'', ''pipe:0'', ''-frames:v'', ''1'',
     ''-f'', ''image2'', ''-vcodec'', ''png'', ''pipe:1'']"

text \<open>How a run of the command ends: what it wrote, in chunks, and the errors of \<open>Run\<close> and the context.\<close>

record process_end =
  pe_stdout :: "byte list list"
  pe_stderr :: "byte list list"
  pe_run :: "go_error option"
  pe_ctx :: "errval option"

text \<open>
  The PNG library: header and image of a file, with an image's size; and \<open>ctx.Err()\<close> before and
  after the decoding.
\<close>

record 'img png_library =
  png_config :: "byte list \<Rightarrow> errval + (go_int \<times> go_int)"
  png_decode :: "byte list \<Rightarrow> errval + 'img"
  png_bounds :: "'img \<Rightarrow> go_int \<times> go_int"
  png_encode :: "'img \<Rightarrow> byte list list \<times> errval option"

definition wrapped :: "string \<Rightarrow> errval \<Rightarrow> errval" where
  "wrapped pre err = Wrap (runes pre) err []"

definition decodeFFmpegPNG ::
  "'img png_library \<Rightarrow> errval option \<Rightarrow> errval option \<Rightarrow> byte list \<Rightarrow> errval + 'img" where
  "decodeFFmpegPNG lib ctxBefore ctxAfter encoded = (case png_config lib encoded of
      Inl err \<Rightarrow> Inl (wrapped ''jetkvm: decoding ffmpeg PNG header: '' err)
    | Inr (cw, ch) \<Rightarrow> (case ValidateScreenshotDimensions cw ch of
          Some err \<Rightarrow> Inl (wrapped ''jetkvm: rejecting ffmpeg PNG output: '' err)
        | None \<Rightarrow> (case ctxBefore of
              Some err \<Rightarrow> Inl (wrapped ''jetkvm: ffmpeg decode canceled before PNG decode: '' err)
            | None \<Rightarrow> (case png_decode lib encoded of
                  Inl err \<Rightarrow> Inl (wrapped ''jetkvm: decoding ffmpeg PNG output: '' err)
                | Inr img \<Rightarrow> (case ctxAfter of
                      Some err \<Rightarrow> Inl (wrapped ''jetkvm: ffmpeg decode canceled after PNG decode: '' err)
                    | None \<Rightarrow>
                       (let (width, height) = png_bounds lib img in
                        case ValidateScreenshotDimensions width height of
                          Some err \<Rightarrow> Inl (wrapped ''jetkvm: rejecting decoded ffmpeg PNG: '' err)
                        | None \<Rightarrow>
                           (if width \<noteq> cw \<or> height \<noteq> ch
                            then Inl (Plain (runes ''jetkvm: decoded ffmpeg PNG dimensions do not match its header''))
                            else Inr img)))))))"

text \<open>\<open>truncate\<close> of \<open>signaling.go\<close>.\<close>

definition truncate_text :: "text_runes \<Rightarrow> nat \<Rightarrow> text_runes" where
  "truncate_text s n = (if byte_len s \<le> n then s else trim_space (cut_bytes n s) @ runes ''...(truncated)'')"

definition stderr_text :: "redactor \<Rightarrow> cappedBuffer \<Rightarrow> text_runes" where
  "stderr_text rd b = redactSensitive rd (truncate_text (decode_utf8 (cb_data b)) 500)"

definition decodeFrame ::
  "redactor \<Rightarrow> 'img png_library \<Rightarrow> nat \<Rightarrow> process_end \<Rightarrow> errval option \<Rightarrow> errval option \<Rightarrow> errval + 'img" where
  "decodeFrame rd lib outputLimit pe ctxBefore ctxAfter =
    (let stdout = capped_all (pe_stdout pe) (newCappedBuffer outputLimit);
         stderr = capped_all (pe_stderr pe) (newCappedBuffer maxFFmpegStderrBytes) in
     case pe_ctx pe of
       Some err \<Rightarrow> Inl (wrapped ''jetkvm: ffmpeg decode canceled: '' err)
     | None \<Rightarrow>
        (if cb_overflowed stdout
         then Inl (Plain (runes ''jetkvm: ffmpeg PNG output exceeds the '' @ decimal outputLimit @ runes ''-byte limit''))
         else case pe_run pe of
           Some err \<Rightarrow> Inl (Plain (runes ''jetkvm: ffmpeg decode failed: '' @ RedactError rd (Some (Foreign err)) @
             runes '' (stderr: '' @ stderr_text rd stderr @ [41]))
         | None \<Rightarrow>
            (if length (cb_data stdout) = 0
             then Inl (Plain (runes ''jetkvm: ffmpeg produced no output decoding frame (stderr: '' @
               stderr_text rd stderr @ [41]))
             else decodeFFmpegPNG lib ctxBefore ctxAfter (cb_data stdout))))"

text \<open>\<open>CheckAvailable\<close>: whether the command fails and the context's error after it.\<close>

definition CheckAvailable :: "bool \<Rightarrow> errval option \<Rightarrow> errval option" where
  "CheckAvailable runFails ctxErr =
    (if runFails then (case ctxErr of
        Some err \<Rightarrow> Some (wrapped ''jetkvm: FFmpeg preflight canceled: '' err)
      | None \<Rightarrow> Some (Plain (runes ''jetkvm: FFmpeg is unavailable; screenshots, read-text, stable-screen waits, and OCR text waits require the ffmpeg executable on PATH (install with `brew install ffmpeg` on macOS or your Linux package manager). Status remains usable without FFmpeg'')))
     else None)"

section \<open>What they guarantee\<close>

lemma sint_small: "0 \<le> i \<Longrightarrow> i < 2 ^ 63 \<Longrightarrow> sint (word_of_int i :: go_int) = i"
  by (simp add: sint_sbintrunc' signed_take_bit_int_eq_self)

lemma go_int_constants [simp]:
  "sint maxScreenshotDimension = 8192" "sint maxScreenshotPixels = 16777216"
  by (simp_all add: maxScreenshotDimension_def maxScreenshotPixels_def)

lemma le_div_iff_mult: "0 < b \<Longrightarrow> a \<le> n div b \<longleftrightarrow> a * b \<le> n" for a b n :: int
proof
  assume b: "0 < b" and "a \<le> n div b"
  then have "a * b \<le> n div b * b" by simp
  also have "\<dots> \<le> n" using pos_mod_sign [OF b, of n] div_mult_mod_eq [of n b] by linarith
  finally show "a * b \<le> n" .
next
  assume b: "0 < b" and "a * b \<le> n"
  then have "a * b div b \<le> n div b" by (intro zdiv_mono1)
  then show "a \<le> n div b" using b by simp
qed

lemma pixel_quotient:
  assumes "0 < sint height" and "sint height \<le> 8192"
  shows "sint (go_div maxScreenshotPixels height) = 16777216 div sint height"
proof -
  have "16777216 sdiv sint height = 16777216 div sint height"
    using assms by (simp add: signed_divide_int_def)
  moreover have "16777216 div sint height \<le> 16777216" using assms zdiv_mono2 [of 16777216 1 "sint height"] by simp
  ultimately show ?thesis
    using assms by (simp add: go_div_def sint_small pos_imp_zdiv_nonneg_iff)
qed

lemma dimensions_accept:
  "ValidateScreenshotDimensions width height = None \<longleftrightarrow>
   0 < sint width \<and> sint width \<le> 8192 \<and> 0 < sint height \<and> sint height \<le> 8192 \<and>
   sint width * sint height \<le> 16777216"
proof (cases "0 < sint height \<and> sint height \<le> 8192")
  case True
  then have "\<not> 16777216 div sint height < sint width \<longleftrightarrow> sint width * sint height \<le> 16777216"
    by (simp add: not_less le_div_iff_mult)
  with True show ?thesis
    by (auto simp: ValidateScreenshotDimensions_def word_sle_eq word_sless_alt pixel_quotient)
next
  case False
  then show ?thesis by (auto simp: ValidateScreenshotDimensions_def word_sle_eq word_sless_alt)
qed

text \<open>
  The dimension check is exact on machine integers. For every pair of 64-bit integers it accepts
  exactly the positive sizes up to 8192 per axis whose exact product is at most 16777216; no
  pair, however large or negative, passes by wrapping around.
\<close>

theorem dimensions_exact:
  "ValidateScreenshotDimensions width height = None \<longleftrightarrow>
   0 < sint width \<and> sint width \<le> 8192 \<and> 0 < sint height \<and> sint height \<le> 8192 \<and>
   sint width * sint height \<le> 16777216"
  by (rule dimensions_accept)

text \<open>The abstract buffer: all that was written.\<close>

definition holds :: "cappedBuffer \<Rightarrow> byte list \<Rightarrow> bool" where
  "holds b ws \<longleftrightarrow> cb_data b = take (cb_limit b) ws \<and> (cb_overflowed b \<longleftrightarrow> length ws > cb_limit b) \<and>
     length (cb_data b) \<le> cb_cap b \<and> cb_cap b \<le> cb_limit b"

lemma holds_new: "holds (newCappedBuffer limit) []"
  by (simp add: holds_def newCappedBuffer_def)

lemma holds_write:
  assumes "holds b ws"
  shows "holds (snd (capped_write p b)) (ws @ p) \<and> fst (capped_write p b) = length p \<and>
    cb_limit (snd (capped_write p b)) = cb_limit b"
proof (cases "cb_limit b \<le> length (cb_data b)")
  case True
  with assms show ?thesis by (auto simp: holds_def capped_write_def)
next
  case False
  then have l: "length ws < cb_limit b" "cb_data b = ws" using assms by (auto simp: holds_def min_def split: if_splits)
  with assms False show ?thesis by (auto simp: holds_def capped_write_def Let_def min_def max_def)
qed

lemma holds_all:
  "holds b ws \<Longrightarrow> holds (capped_all ps b) (ws @ concat ps) \<and> cb_limit (capped_all ps b) = cb_limit b"
proof (induction ps arbitrary: b ws)
  case (Cons p ps)
  then show ?case
    using holds_write [OF Cons.prems, of p] Cons.IH [of "snd (capped_write p b)" "ws @ p"]
    by (simp add: capped_all_def)
qed (simp add: capped_all_def)

text \<open>
  The bounded buffer keeps a prefix and says so. After any writes the buffer holds exactly the
  first bytes of what was written, up to its limit, it has overflowed exactly when more was
  written, and its memory stays within the limit; every write reports all its bytes as taken,
  so the subprocess is never blocked.
\<close>

theorem capped_buffer_keeps_prefix:
  "(let b = capped_all ps (newCappedBuffer limit) in
    cb_data b = take limit (concat ps) \<and> (cb_overflowed b \<longleftrightarrow> length (concat ps) > limit) \<and>
    length (cb_data b) \<le> cb_cap b \<and> cb_cap b \<le> limit \<and> fst (capped_write p b) = length p)"
proof -
  let ?b = "capped_all ps (newCappedBuffer limit)"
  have "holds ?b (concat ps)" "cb_limit ?b = limit"
    using holds_all [OF holds_new, of ps limit] by (simp_all add: newCappedBuffer_def)
  then show ?thesis using holds_write [of ?b "concat ps" p] by (auto simp: holds_def Let_def)
qed

lemma capped_complete:
  "\<not> cb_overflowed (capped_all ps (newCappedBuffer limit)) \<Longrightarrow>
   cb_data (capped_all ps (newCappedBuffer limit)) = concat ps \<and> length (concat ps) \<le> limit"
  using holds_all [OF holds_new, of ps limit] by (auto simp: holds_def newCappedBuffer_def)

text \<open>The subprocess sees the allowed variables only.\<close>

lemma decoderEnv_allowed:
  "e \<in> set (decoderEnv lookup) \<longleftrightarrow>
   (\<exists>key v. key \<in> set ffmpegEnvAllowlist \<and> lookup key = Some v \<and> e = key @ ''='' @ v)"
proof -
  have "e \<in> set (allowed_env lookup keys) \<longleftrightarrow>
      (\<exists>key v. key \<in> set keys \<and> lookup key = Some v \<and> e = key @ ''='' @ v)" for keys
    by (induction keys) (auto split: option.split)
  then show ?thesis by (simp add: decoderEnv_def)
qed

lemma password_not_inherited: "lookup = [''JETKVM_PASSWORD'' \<mapsto> v] \<Longrightarrow> decoderEnv lookup = []"
  by (simp add: decoderEnv_def ffmpegEnvAllowlist_def)

lemma decodeFFmpegPNG_Inr:
  assumes "decodeFFmpegPNG lib c1 c2 encoded = Inr img"
  shows "png_decode lib encoded = Inr img \<and> png_config lib encoded = Inr (png_bounds lib img) \<and>
   ValidateScreenshotDimensions (fst (png_bounds lib img)) (snd (png_bounds lib img)) = None"
proof -
  obtain cw ch where c: "png_config lib encoded = Inr (cw, ch)"
    using assms by (cases "png_config lib encoded") (auto simp: decodeFFmpegPNG_def)
  with assms have config: "png_config lib encoded = Inr (cw, ch)" "ValidateScreenshotDimensions cw ch = None"
    by (cases "ValidateScreenshotDimensions cw ch"; simp add: decodeFFmpegPNG_def)+
  have "c1 = None" using assms config by (cases c1) (auto simp: decodeFFmpegPNG_def)
  have "c2 = None" using assms config \<open>c1 = None\<close>
    by (cases c2; cases "png_decode lib encoded") (auto simp: decodeFFmpegPNG_def)
  with assms config \<open>c1 = None\<close> obtain i where i: "png_decode lib encoded = Inr i"
    by (cases "png_decode lib encoded") (auto simp: decodeFFmpegPNG_def)
  obtain w h where b: "png_bounds lib i = (w, h)" by fastforce
  from assms config i b \<open>c1 = None\<close> \<open>c2 = None\<close> show ?thesis
    by (cases "ValidateScreenshotDimensions w h") (auto simp: decodeFFmpegPNG_def split: if_splits)
qed

lemma decodeFrame_Inr:
  assumes "decodeFrame rd lib limit pe c1 c2 = Inr img"
  shows "pe_ctx pe = None \<and> pe_run pe = None \<and> concat (pe_stdout pe) \<noteq> [] \<and>
    length (concat (pe_stdout pe)) \<le> limit \<and> png_decode lib (concat (pe_stdout pe)) = Inr img \<and>
    ValidateScreenshotDimensions (fst (png_bounds lib img)) (snd (png_bounds lib img)) = None"
proof -
  have ok: "pe_ctx pe = None" "\<not> cb_overflowed (capped_all (pe_stdout pe) (newCappedBuffer limit))"
    "pe_run pe = None" "cb_data (capped_all (pe_stdout pe) (newCappedBuffer limit)) \<noteq> []"
    and "decodeFFmpegPNG lib c1 c2 (cb_data (capped_all (pe_stdout pe) (newCappedBuffer limit))) = Inr img"
    using assms by (auto simp: decodeFrame_def Let_def split: option.splits if_splits)
  then show ?thesis using capped_complete [OF ok(2)] decodeFFmpegPNG_Inr [of lib c1 c2 _ img] by simp
qed

end
