(* ===== verification/Http_Client.thy ===== *)
theory Http_Client
  imports Device_Error
begin

text \<open>
  The device URL and the local web API: \<open>url.go\<close>, \<open>http.go\<close> and \<open>NormalizeDeviceURL\<close> of
  \<open>charly_extension.go\<close>.

  The parser and printer of URLs and IP addresses, JSON and the transport are the Go
  library's: \<open>url_library\<close> holds the functions the code calls, a request's outcome is a value
  of \<open>http_outcome\<close>.
\<close>

section \<open>URLs\<close>

record parsed_url =
  u_scheme :: text_runes
  u_opaque :: text_runes
  u_user :: bool
  u_hostname :: text_runes
  u_port :: text_runes
  u_path :: text_runes
  u_rawQuery :: text_runes
  u_fragment :: text_runes

text \<open>
  \<open>url_parse\<close> is \<open>url.Parse\<close>, \<open>url_print\<close> is \<open>String\<close> of a URL with a scheme and a host only,
  \<open>ip_parse\<close> is \<open>net.ParseIP\<close> with the canonical text and whether \<open>To4\<close> succeeds.
\<close>

record url_library =
  url_parse :: "text_runes \<Rightarrow> parsed_url option"
  url_print :: "text_runes \<Rightarrow> text_runes \<Rightarrow> text_runes"
  ip_parse :: "text_runes \<Rightarrow> (text_runes \<times> bool) option"
  ip_loopback :: "text_runes \<Rightarrow> bool"

definition NormalizeDeviceURL :: "text_runes \<Rightarrow> text_runes" where
  "NormalizeDeviceURL host =
    (let h = trim_space host in
     if h = [] then h
     else if has_prefix h (runes ''http://'') \<or> has_prefix h (runes ''https://'') then h
     else runes ''http://'' @ h)"

text \<open>\<open>strings.LastIndexByte\<close> with the two parts it separates.\<close>

fun cut_last :: "rune \<Rightarrow> text_runes \<Rightarrow> (text_runes \<times> text_runes) option" where
  "cut_last sep [] = None"
| "cut_last sep (r # rs) = (case cut_last sep rs of
      Some (before, after) \<Rightarrow> Some (r # before, after)
    | None \<Rightarrow> (if r = sep then Some ([], rs) else None))"

definition trim_suffix :: "text_runes \<Rightarrow> text_runes \<Rightarrow> text_runes" where
  "trim_suffix s suf = (if has_suffix s suf then take (length s - length suf) s else s)"

definition invalid_host :: errval where
  "invalid_host = Plain (runes ''jetkvm: device URL host is invalid'')"

definition canonicalHostname ::
  "url_library \<Rightarrow> (rune \<Rightarrow> rune) \<Rightarrow> text_runes \<Rightarrow> errval + text_runes" where
  "canonicalHostname lib ulow raw =
    (let split = cut_last 37 raw;
         address = (case split of None \<Rightarrow> raw | Some (a, z) \<Rightarrow> a);
         zone = (case split of None \<Rightarrow> [] | Some (a, z) \<Rightarrow> z) in
     if split \<noteq> None \<and> zone = [] then Inl invalid_host
     else case ip_parse lib address of
        Some (canonical, is4) \<Rightarrow>
          (if zone \<noteq> [] then (if is4 then Inl invalid_host else Inr (canonical @ [37] @ zone))
           else Inr canonical)
      | None \<Rightarrow>
          (if zone \<noteq> [] then Inl invalid_host
           else let host = trim_suffix (lowered ulow raw) [46] in
             if host = [] \<or> has_suffix host [46] then Inl invalid_host else Inr host))"

text \<open>\<open>strconv.Atoi\<close> of a port: an optional sign and decimal digits; what overflows is an error.\<close>

fun digits_value :: "text_runes \<Rightarrow> int \<Rightarrow> int option" where
  "digits_value [] acc = Some acc"
| "digits_value (r # rs) acc = (if is_digit r then digits_value rs (acc * 10 + (r - 48)) else None)"

definition atoi :: "text_runes \<Rightarrow> int option" where
  "atoi s =
    (let neg = (s \<noteq> [] \<and> s ! 0 = 45);
         ds = (if s \<noteq> [] \<and> (s ! 0 = 45 \<or> s ! 0 = 43) then tl s else s) in
     if ds = [] then None
     else case digits_value ds 0 of
        None \<Rightarrow> None
      | Some n \<Rightarrow> (let v = (if neg then - n else n) in
          if - (2 ^ 63) \<le> v \<and> v < 2 ^ 63 then Some v else None))"

definition JoinHostPort :: "text_runes \<Rightarrow> text_runes \<Rightarrow> text_runes" where
  "JoinHostPort host port =
    (if 58 \<in> set host then [91] @ host @ [93, 58] @ port else host @ [58] @ port)"

definition url_error :: "string \<Rightarrow> errval" where
  "url_error t = Plain (runes ''jetkvm: device URL '' @ runes t)"

text \<open>The port part of \<open>CanonicalBaseURL\<close>: the port without leading zeros, empty for the default.\<close>

definition canonical_port :: "text_runes \<Rightarrow> text_runes \<Rightarrow> errval + text_runes" where
  "canonical_port scheme port =
    (if port = [] then Inr []
     else case atoi port of
        None \<Rightarrow> Inl (url_error ''port is invalid'')
      | Some n \<Rightarrow>
         (if n < 1 \<or> n > 65535 then Inl (url_error ''port is invalid'')
          else let p = decimal_int n in
            if scheme = runes ''http'' \<and> p = runes ''80'' \<or> scheme = runes ''https'' \<and> p = runes ''443''
            then Inr [] else Inr p))"

definition CanonicalBaseURL ::
  "url_library \<Rightarrow> (rune \<Rightarrow> rune) \<Rightarrow> text_runes \<Rightarrow> errval + text_runes" where
  "CanonicalBaseURL lib ulow raw = (case url_parse lib (trim_space raw) of
      None \<Rightarrow> Inl (url_error ''is invalid'')
    | Some u \<Rightarrow>
       (if u_opaque u \<noteq> [] then Inl (url_error ''is invalid'')
        else let scheme = lowered ulow (u_scheme u) in
        if scheme \<noteq> runes ''http'' \<and> scheme \<noteq> runes ''https''
          then Inl (url_error ''scheme must be http or https'')
        else if u_hostname u = [] then Inl (url_error ''must include a host'')
        else if u_user u \<or> u_rawQuery u \<noteq> [] \<or> u_fragment u \<noteq> []
          then Inl (url_error ''must not contain userinfo, a query, or a fragment'')
        else if u_path u \<noteq> [] \<and> u_path u \<noteq> [47] then Inl (url_error ''must not contain a path'')
        else case canonicalHostname lib ulow (u_hostname u) of
          Inl err \<Rightarrow> Inl err
        | Inr canonicalHost \<Rightarrow> (case canonical_port scheme (u_port u) of
            Inl err \<Rightarrow> Inl err
          | Inr port \<Rightarrow>
             (let host = (if port \<noteq> [] then JoinHostPort canonicalHost port
                          else if 58 \<in> set canonicalHost then [91] @ canonicalHost @ [93]
                          else canonicalHost);
                  canonical = url_print lib scheme host in
              case url_parse lib canonical of
                None \<Rightarrow> Inl (url_error ''host is invalid'')
              | Some r \<Rightarrow>
                 (if u_scheme r \<noteq> scheme \<or> u_hostname r \<noteq> canonicalHost \<or> u_port r \<noteq> port
                  then Inl (url_error ''host is invalid'') else Inr canonical)))))"

definition isLoopbackHost :: "url_library \<Rightarrow> (rune \<Rightarrow> rune) \<Rightarrow> text_runes \<Rightarrow> bool" where
  "isLoopbackHost lib ulow host \<longleftrightarrow>
    lowered ulow host = runes ''localhost'' \<or> ip_parse lib host \<noteq> None \<and> ip_loopback lib host"

definition toWebsocketURL :: "url_library \<Rightarrow> (parsed_url \<Rightarrow> text_runes \<Rightarrow> text_runes) \<Rightarrow> text_runes \<Rightarrow>
    text_runes \<Rightarrow> errval + text_runes" where
  "toWebsocketURL lib resolve baseURL path = (case url_parse lib baseURL of
      None \<Rightarrow> Inl (Plain (runes ''jetkvm: invalid base URL''))
    | Some u \<Rightarrow>
       (if u_scheme u = runes ''http'' then Inr (resolve (u\<lparr>u_scheme := runes ''ws''\<rparr>) path)
        else if u_scheme u = runes ''https'' then Inr (resolve (u\<lparr>u_scheme := runes ''wss''\<rparr>) path)
        else Inl (Plain (runes ''jetkvm: unsupported base URL scheme''))))"

section \<open>Requests\<close>

text \<open>
  What the transport returns: its error, with whether it is a network timeout, or a response
  with its status, its body and the error that ended the reading of the body early. The flag
  \<open>ctxDone\<close> is \<open>ctx.Err() != nil\<close> at that point.
\<close>

datatype http_outcome =
    TransportFailed go_error bool bool
  | Responded int "byte list" "(go_error \<times> bool) option"

text \<open>
  The requests that one \<open>Do\<close> of \<open>http.Client\<close> sends. The client of \<open>newHTTPClient\<close> has no
  \<open>CheckRedirect\<close>, so the library follows redirects, ten requests at most, to whatever URL the
  answer names: a 301, 302 or 303 continues as a GET without a body, a 307 or 308 sends the
  same method and body again. \<open>hops\<close> are the redirects that were answered, each with its status and
  its target. A request is a method, a URL and whether it carries the body.
\<close>

definition maxRequestsPerCall :: nat where "maxRequestsPerCall = 10"

fun followed_requests :: "text_runes \<Rightarrow> text_runes \<Rightarrow> bool \<Rightarrow> (int \<times> text_runes) list \<Rightarrow>
    (text_runes \<times> text_runes \<times> bool) list" where
  "followed_requests meth u body [] = [(meth, u, body)]"
| "followed_requests meth u body ((status, target) # hops) = (meth, u, body) #
    (if status = 307 \<or> status = 308 then followed_requests meth target body hops
     else followed_requests (runes ''GET'') target False hops)"

definition client_requests :: "text_runes \<Rightarrow> text_runes \<Rightarrow> bool \<Rightarrow> (int \<times> text_runes) list \<Rightarrow>
    (text_runes \<times> text_runes \<times> bool) list" where
  "client_requests meth u body hops = followed_requests meth u body (take (maxRequestsPerCall - 1) hops)"

definition maxHTTPResponseBytes :: nat where "maxHTTPResponseBytes = 2 ^ 20"

record http_client =
  hc_redactor :: redactor
  hc_lower :: "rune \<Rightarrow> rune"
  hc_known :: "secret list"

text \<open>
  \<open>do\<close> of a request that was built, with the outcome of the last request that \<open>Do\<close> sent for it (see
  \<open>client_requests\<close>): \<open>decode\<close> is the decoder of the expected result (\<open>None\<close> when
  the caller wants none), \<open>zero\<close> the result's zero value. \<open>http_reply\<close> is its part after the
  body was read.
\<close>

definition http_reply ::
  "http_client \<Rightarrow> text_runes \<Rightarrow> (byte list \<Rightarrow> text_runes + 'out) option \<Rightarrow> 'out \<Rightarrow> int \<Rightarrow> byte list \<Rightarrow>
   errval + 'out" where
  "http_reply hc path decode zero status body0 =
    (if length body0 > maxHTTPResponseBytes \<and> status < 400 then
       Inl (Device BadFrame (runes ''reading response from '' @ path)
         (runes ''response exceeded '' @ decimal maxHTTPResponseBytes @ runes ''-byte limit'') None)
     else let body = (if length body0 > maxHTTPResponseBytes then take maxHTTPResponseBytes body0
                      else body0) in
       if status \<ge> 400 then
         Inl (APIError path status (sanitizeErrorBody (hc_redactor hc) (hc_lower hc) path
           (decode_utf8 body) (hc_known hc)))
       else case decode of
         None \<Rightarrow> Inr zero
       | Some f \<Rightarrow>
          (if length body = 0 then Inr zero
           else case f body of
              Inl err \<Rightarrow> Inl (newDeviceError (hc_redactor hc) BadFrame
                (runes ''decoding response from '' @ path) (Some (Plain err)))
            | Inr out \<Rightarrow> Inr out))"

definition http_do ::
  "http_client \<Rightarrow> text_runes \<Rightarrow> text_runes \<Rightarrow> (byte list \<Rightarrow> text_runes + 'out) option \<Rightarrow> 'out \<Rightarrow>
   http_outcome \<Rightarrow> errval + 'out" where
  "http_do hc meth path decode zero outcome = (case outcome of
      TransportFailed err netTimeout ctxDone \<Rightarrow>
        Inl (newDeviceError (hc_redactor hc)
          (if ctxDone \<or> CtxDeadlineExceeded \<in> set (ge_is err) \<or> netTimeout then TimedOut else Unreachable)
          (meth @ runes '' '' @ path) (Some (Foreign err)))
    | Responded status stream failure \<Rightarrow> (case failure of
          Some (err, ctxDone) \<Rightarrow>
            Inl (newDeviceError (hc_redactor hc)
              (if ctxDone \<or> CtxDeadlineExceeded \<in> set (ge_is err) then TimedOut else Unreachable)
              (runes ''reading response from '' @ path) (Some (Foreign err)))
        | None \<Rightarrow> http_reply hc path decode zero status (take (maxHTTPResponseBytes + 1) stream)))"

definition login :: "http_client \<Rightarrow> http_outcome \<Rightarrow> errval + unit" where
  "login hc outcome = (case http_do hc (runes ''POST'') (runes ''/auth/login-local'') None () outcome of
      Inl err \<Rightarrow> Inl (Wrap (runes ''jetkvm: login failed: '') err [])
    | Inr u \<Rightarrow> Inr u)"

definition deviceStatus :: "http_client \<Rightarrow> (byte list \<Rightarrow> text_runes + bool) \<Rightarrow> http_outcome \<Rightarrow> errval + bool" where
  "deviceStatus hc decode outcome =
    http_do hc (runes ''GET'') (runes ''/device/status'') (Some decode) False outcome"

text \<open>\<open>LocalDevice\<close>: the fields the client reads are the device ID and two flags.\<close>

record local_device =
  ld_authMode :: "text_runes option"
  ld_deviceID :: text_runes
  ld_loopbackOnly :: bool

definition device_call :: "http_client \<Rightarrow> (byte list \<Rightarrow> text_runes + local_device) \<Rightarrow> http_outcome \<Rightarrow>
    errval + local_device" where
  "device_call hc decode outcome = http_do hc (runes ''GET'') (runes ''/device'') (Some decode)
     \<lparr>ld_authMode = None, ld_deviceID = [], ld_loopbackOnly = False\<rparr> outcome"

section \<open>Connecting\<close>

definition classifyConnectError :: "redactor \<Rightarrow> text_runes \<Rightarrow> errval \<Rightarrow> error_kind \<Rightarrow> errval" where
  "classifyConnectError rd operation err fallback =
    (if ErrorKindOf err \<noteq> None then err
     else case as_api err of
        Some status \<Rightarrow>
          (if status = 401 \<or> status = 403 then newDeviceError rd AuthFailed operation (Some err)
           else if status \<ge> 500 then newDeviceError rd Unreachable operation (Some err)
           else newDeviceError rd fallback operation (Some err))
      | None \<Rightarrow> newDeviceError rd fallback operation (Some err))"

end
