(* ===== verification/Signaling.thy ===== *)
theory Signaling
  imports Device_Error Diagnostics
begin

text \<open>
  Signaling, \<open>signaling.go\<close> and the two places of \<open>session.go\<close> that trickle ICE candidates: the
  classification of a frame, the pump that applies the device's messages to the peer
  connection, and the queue that holds local candidates back until the offer is sent.

  JSON, base64 and the peer connection are the environment: \<open>signaling_codec\<close> decodes, and an
  oracle says from the calls so far whether the next call of the peer connection succeeds.
\<close>

section \<open>Frames\<close>

record ('raw, 'sd, 'cand) signaling_codec =
  sc_envelope :: "byte list \<Rightarrow> (text_runes \<times> 'raw) option"
  sc_string :: "'raw \<Rightarrow> text_runes option"
  sc_base64 :: "text_runes \<Rightarrow> byte list option"
  sc_session :: "byte list \<Rightarrow> 'sd option"
  sc_candidate :: "'raw \<Rightarrow> 'cand option"

datatype ('sd, 'cand) signalingEvent =
    AnswerEvent 'sd
  | CandidateEvent 'cand
  | UnhandledEvent text_runes
  | MalformedEvent text_runes

definition malformedNoType :: text_runes where "malformedNoType = runes ''(no type field)''"
definition malformedEnvelope :: text_runes where "malformedEnvelope = runes ''(unparseable envelope)''"

definition classify_frame ::
  "('raw, 'sd, 'cand) signaling_codec \<Rightarrow> byte list \<Rightarrow> ('sd, 'cand) signalingEvent" where
  "classify_frame cd data = (case sc_envelope cd data of
      None \<Rightarrow> MalformedEvent malformedEnvelope
    | Some (typ, raw) \<Rightarrow>
       (if typ = runes ''answer'' then
          (case sc_string cd raw of
             None \<Rightarrow> MalformedEvent (runes ''answer'')
           | Some sdB64 \<Rightarrow> (case sc_base64 cd sdB64 of
               None \<Rightarrow> MalformedEvent (runes ''answer'')
             | Some bytes \<Rightarrow> (case sc_session cd bytes of
                 None \<Rightarrow> MalformedEvent (runes ''answer'')
               | Some sd \<Rightarrow> AnswerEvent sd)))
        else if typ = runes ''new-ice-candidate'' then
          (case sc_candidate cd raw of
             None \<Rightarrow> MalformedEvent (runes ''new-ice-candidate'')
           | Some c \<Rightarrow> CandidateEvent c)
        else if typ = [] then MalformedEvent malformedNoType
        else UnhandledEvent typ))"

text \<open>\<open>next\<close>: an error only when the read of the frame fails.\<close>

definition next_event ::
  "('raw, 'sd, 'cand) signaling_codec \<Rightarrow> go_error + byte list \<Rightarrow>
   go_error + ('sd, 'cand) signalingEvent" where
  "next_event cd frame = (case frame of
      Inl err \<Rightarrow> Inl err
    | Inr data \<Rightarrow> Inr (classify_frame cd data))"

text \<open>
  \<open>readInto\<close> and the start of \<open>dialSignaling\<close>. \<open>tooBig\<close> is the websocket library's size error;
  \<open>ctxDone\<close> whether the context has ended when the error is classified.
\<close>

definition readInto ::
  "redactor \<Rightarrow> (byte list \<Rightarrow> 'env option) \<Rightarrow> bool \<Rightarrow> bool \<Rightarrow> go_error + byte list \<Rightarrow> text_runes \<Rightarrow> errval + 'env" where
  "readInto rd decode tooBig ctxDone frame decodeError = (case frame of
      Inl err \<Rightarrow>
        (let kind = (if tooBig then BadFrame
                     else if ctxDone \<or> CtxDeadlineExceeded \<in> set (ge_is err) then TimedOut
                     else Unreachable)
         in Inl (newDeviceError rd kind (runes ''reading initial signaling frame'') (Some (Foreign err))))
    | Inr data \<Rightarrow> (case decode data of
          None \<Rightarrow> Inl (newDeviceError rd BadFrame (runes ''decoding initial signaling frame'')
                     (Some (Plain decodeError)))
        | Some env \<Rightarrow> Inr env))"

text \<open>The error of a write, \<open>sendOffer\<close> and \<open>sendICECandidate\<close>.\<close>

definition send_error :: "redactor \<Rightarrow> text_runes \<Rightarrow> bool \<Rightarrow> go_error \<Rightarrow> errval" where
  "send_error rd operation ctxDone err =
    newDeviceError rd (if ctxDone \<or> CtxDeadlineExceeded \<in> set (ge_is err) then TimedOut else Unreachable)
      operation (Some (Foreign err))"

definition dial_error :: "redactor \<Rightarrow> int option \<Rightarrow> bool \<Rightarrow> go_error \<Rightarrow> errval" where
  "dial_error rd status ctxDone err =
    (if status = Some 401 \<or> status = Some 403
     then newDeviceError rd AuthFailed (runes ''dialing signaling websocket'') (Some (Foreign err))
     else send_error rd (runes ''dialing signaling websocket'') ctxDone err)"

section \<open>The pump\<close>

datatype ('sd, 'cand) pc_call = SetRemoteDescription 'sd | AddICECandidate 'cand

type_synonym ('sd, 'cand) pc_trace = "(('sd, 'cand) pc_call \<times> bool) list"

text \<open>What the peer connection answers: whether the call succeeds.\<close>

type_synonym ('sd, 'cand) pc_oracle = "('sd, 'cand) pc_trace \<Rightarrow> ('sd, 'cand) pc_call \<Rightarrow> bool"

record ('sd, 'cand) pump =
  pp_pending :: "'cand list"
  pp_answered :: bool
  pp_calls :: "('sd, 'cand) pc_trace"
  pp_diag :: "diag_step list"
  pp_stopped :: bool

definition maxPendingRemoteCandidates :: nat where "maxPendingRemoteCandidates = 64"

definition pump_start :: "('sd, 'cand) pump" where
  "pump_start = \<lparr>pp_pending = [], pp_answered = False, pp_calls = [], pp_diag = [], pp_stopped = False\<rparr>"

definition pump_record :: "diag_step \<Rightarrow> ('sd, 'cand) pump \<Rightarrow> ('sd, 'cand) pump" where
  "pump_record s st = st\<lparr>pp_diag := pp_diag st @ [s]\<rparr>"

definition pc_do :: "('sd, 'cand) pc_oracle \<Rightarrow> ('sd, 'cand) pc_call \<Rightarrow> ('sd, 'cand) pump \<Rightarrow>
    bool \<times> ('sd, 'cand) pump" where
  "pc_do oracle call st =
    (let ok = oracle (pp_calls st) call in (ok, st\<lparr>pp_calls := pp_calls st @ [(call, ok)]\<rparr>))"

definition add_candidate :: "('sd, 'cand) pc_oracle \<Rightarrow> 'cand \<Rightarrow> ('sd, 'cand) pump \<Rightarrow> ('sd, 'cand) pump" where
  "add_candidate oracle c st =
    (let (ok, st') = pc_do oracle (AddICECandidate c) st in pump_record (CandidateStep ok) st')"

fun pump_event :: "('sd, 'cand) pc_oracle \<Rightarrow> ('sd, 'cand) signalingEvent \<Rightarrow> ('sd, 'cand) pump \<Rightarrow>
    ('sd, 'cand) pump" where
  "pump_event oracle (AnswerEvent sd) st =
    (let (ok, st1) = pc_do oracle (SetRemoteDescription sd) st;
         st2 = pump_record (AnswerStep ok) st1
     in if ok then (fold (add_candidate oracle) (pp_pending st2) (st2\<lparr>pp_answered := True\<rparr>))\<lparr>pp_pending := []\<rparr>
        else st2)"
| "pump_event oracle (CandidateEvent c) st =
    (if \<not> pp_answered st then
       (if length (pp_pending st) < maxPendingRemoteCandidates
        then pump_record CandidateQueuedStep (st\<lparr>pp_pending := pp_pending st @ [c]\<rparr>)
        else pump_record (CandidateStep False) st)
     else add_candidate oracle c st)"
| "pump_event oracle (MalformedEvent t) st = pump_record MalformedStep st"
| "pump_event oracle (UnhandledEvent t) st = pump_record UnhandledStep st"

definition pump_stop :: "text_runes \<Rightarrow> ('sd, 'cand) pump \<Rightarrow> ('sd, 'cand) pump" where
  "pump_stop reason st = (pump_record (PumpStoppedStep reason) st)\<lparr>pp_stopped := True\<rparr>"

text \<open>
  The loop. Each iteration finds whether its context has ended and, if not, the frame or the
  read error that \<open>next\<close> waited for. When the list is used up the pump waits for more.
\<close>

fun pumpSignalingEvents ::
  "('raw, 'sd, 'cand) signaling_codec \<Rightarrow> (rune \<Rightarrow> rune) \<Rightarrow> ('sd, 'cand) pc_oracle \<Rightarrow>
   (bool \<times> (go_error + byte list)) list \<Rightarrow> ('sd, 'cand) pump \<Rightarrow> ('sd, 'cand) pump" where
  "pumpSignalingEvents cd ulow oracle [] st = st"
| "pumpSignalingEvents cd ulow oracle ((ctxDone, frame) # inputs) st =
    (if ctxDone then pump_stop (runes ''session-closed'') st
     else case next_event cd frame of
        Inl err \<Rightarrow> pump_stop (classifyTrackReadError ulow (Some err)) st
      | Inr ev \<Rightarrow> pumpSignalingEvents cd ulow oracle inputs (pump_event oracle ev st))"

section \<open>Local candidates\<close>

text \<open>
  \<open>OnICECandidate\<close> runs on goroutines of the WebRTC library, beside the goroutine of
  \<open>establishSession\<close>. A callback looks at the gate under its lock and sends afterwards, so a
  candidate that passed the gate is in \<open>lg_direct\<close> until it is sent.
\<close>

datatype 'cand wire_message = OfferMessage | CandidateMessage 'cand

datatype gate_phase = BeforeOffer | OfferSent | Flushing | GateDone | GateFailed

record 'cand local_gate =
  lg_offerOnWire :: bool
  lg_queued :: "'cand list"
  lg_flush :: "'cand list"
  lg_direct :: "'cand list"
  lg_phase :: gate_phase
  lg_wire :: "'cand wire_message list"
  lg_failed :: "'cand list"
  lg_gathered :: "'cand list"

definition gate_start :: "'cand local_gate" where
  "gate_start = \<lparr>lg_offerOnWire = False, lg_queued = [], lg_flush = [], lg_direct = [],
     lg_phase = BeforeOffer, lg_wire = [], lg_failed = [], lg_gathered = []\<rparr>"

definition on_candidate :: "'cand \<Rightarrow> 'cand local_gate \<Rightarrow> 'cand local_gate" where
  "on_candidate c g =
    (let g = g\<lparr>lg_gathered := lg_gathered g @ [c]\<rparr> in
     if \<not> lg_offerOnWire g then g\<lparr>lg_queued := lg_queued g @ [c]\<rparr>
     else g\<lparr>lg_direct := lg_direct g @ [c]\<rparr>)"

definition sent_or_failed :: "bool \<Rightarrow> 'cand \<Rightarrow> 'cand local_gate \<Rightarrow> 'cand local_gate" where
  "sent_or_failed ok c g =
    (if ok then g\<lparr>lg_wire := lg_wire g @ [CandidateMessage c]\<rparr> else g\<lparr>lg_failed := lg_failed g @ [c]\<rparr>)"

text \<open>A callback sends; its error is dropped.\<close>

definition send_direct :: "nat \<Rightarrow> bool \<Rightarrow> 'cand local_gate \<Rightarrow> 'cand local_gate option" where
  "send_direct i ok g =
    (if i < length (lg_direct g) then
       Some (sent_or_failed ok (lg_direct g ! i)
         (g\<lparr>lg_direct := take i (lg_direct g) @ drop (Suc i) (lg_direct g)\<rparr>))
     else None)"

definition send_offer :: "bool \<Rightarrow> 'cand local_gate \<Rightarrow> 'cand local_gate option" where
  "send_offer ok g =
    (if lg_phase g = BeforeOffer then
       Some (if ok then g\<lparr>lg_wire := lg_wire g @ [OfferMessage], lg_phase := OfferSent\<rparr>
             else g\<lparr>lg_phase := GateFailed\<rparr>)
     else None)"

text \<open>The locked section after the offer.\<close>

definition open_gate :: "'cand local_gate \<Rightarrow> 'cand local_gate option" where
  "open_gate g =
    (if lg_phase g = OfferSent then
       Some (g\<lparr>lg_flush := lg_queued g, lg_queued := [], lg_offerOnWire := True, lg_phase := Flushing\<rparr>)
     else None)"

text \<open>
  One iteration of \<open>sendQueuedICECandidates\<close>, or its return: whether the context has ended
  before the send, whether the send succeeded, and whether the context has ended after it.
\<close>

definition flush_next :: "bool \<Rightarrow> bool \<Rightarrow> bool \<Rightarrow> 'cand local_gate \<Rightarrow> 'cand local_gate option" where
  "flush_next ctxBefore ok ctxAfter g =
    (if lg_phase g = Flushing then
       Some (case lg_flush g of
          [] \<Rightarrow> g\<lparr>lg_phase := GateDone\<rparr>
        | c # cs \<Rightarrow>
           (if ctxBefore then g\<lparr>lg_phase := GateFailed\<rparr>
            else let g = sent_or_failed ok c (g\<lparr>lg_flush := cs\<rparr>) in
              if ok \<and> \<not> ctxAfter then g else g\<lparr>lg_phase := GateFailed\<rparr>))
     else None)"

text \<open>The whole loop, with the errors it returns.\<close>

fun sendQueuedICECandidates ::
  "(nat \<Rightarrow> errval option) \<Rightarrow> (nat \<Rightarrow> 'cand \<Rightarrow> errval option) \<Rightarrow> nat \<Rightarrow> 'cand list \<Rightarrow> errval option \<times> 'cand list" where
  "sendQueuedICECandidates ctxErr send t [] = (None, [])"
| "sendQueuedICECandidates ctxErr send t (c # cs) =
    (case ctxErr t of
       Some err \<Rightarrow> (Some err, [])
     | None \<Rightarrow> (case send t c of
          Some err \<Rightarrow> (case ctxErr (t + 1) of Some e \<Rightarrow> (Some e, []) | None \<Rightarrow> (Some err, []))
        | None \<Rightarrow> (case ctxErr (t + 1) of
             Some err \<Rightarrow> (Some err, [c])
           | None \<Rightarrow> (case sendQueuedICECandidates ctxErr send (t + 2) cs of
                (r, sent) \<Rightarrow> (r, c # sent)))))"

datatype 'cand gate_event =
    OnCandidate 'cand
  | SendDirect nat bool
  | SendOffer bool
  | OpenGate
  | FlushNext bool bool bool

fun gate_step :: "'cand gate_event \<Rightarrow> 'cand local_gate \<Rightarrow> 'cand local_gate option" where
  "gate_step (OnCandidate c) g = Some (on_candidate c g)"
| "gate_step (SendDirect i ok) g = send_direct i ok g"
| "gate_step (SendOffer ok) g = send_offer ok g"
| "gate_step OpenGate g = open_gate g"
| "gate_step (FlushNext a ok b) g = flush_next a ok b g"

inductive gate_reach :: "'cand local_gate \<Rightarrow> bool" where
  start: "gate_reach gate_start"
| step: "gate_reach g \<Longrightarrow> gate_step e g = Some g' \<Longrightarrow> gate_reach g'"

end
