(* ===== verification/Session_Setup.thy ===== *)
theory Session_Setup
  imports Http_Client Signaling
begin

text \<open>
  How a client comes up and goes down: \<open>establishSession\<close>, \<open>waitForReadiness\<close>, the keyframe
  requests and \<open>close\<close> of \<open>session.go\<close>, and \<open>Connect\<close>, \<open>lock\<close>, \<open>Status\<close>, \<open>Control\<close> and \<open>Close\<close> of
  \<open>client.go\<close>.

  The calls made to the WebRTC library, the signaling connection and the device are a list, in
  order; the environment says of each how it ends. Every call of \<open>establishSession\<close> is made at
  most once, so its outcome is a function of the call.
\<close>

section \<open>Waiting\<close>

datatype select_arm = ReadyArm | ClosedArm | ContextArm

datatype readiness_error = ReadinessClosedError | ReadinessContextError errval

text \<open>
  \<open>waitForReadiness\<close>: the arm that \<open>select\<close> took, \<open>ctx.Err()\<close> right after it, and whether
  \<open>closed\<close> is closed at the last check. The context arm is taken only when the context has ended.
\<close>

definition waitForReadiness :: "select_arm \<Rightarrow> errval option \<Rightarrow> bool \<Rightarrow> readiness_error option" where
  "waitForReadiness arm ctxErr closedNow = (case arm of
      ReadyArm \<Rightarrow> (case ctxErr of
          Some err \<Rightarrow> Some (ReadinessContextError err)
        | None \<Rightarrow> (if closedNow then Some ReadinessClosedError else None))
    | ClosedArm \<Rightarrow> (case ctxErr of
          Some err \<Rightarrow> Some (ReadinessContextError err)
        | None \<Rightarrow> Some ReadinessClosedError)
    | ContextArm \<Rightarrow> map_option ReadinessContextError ctxErr)"

section \<open>Establishing a session\<close>

datatype session_call =
    RegisterCodecs
  | NewPeerConnection
  | AddTransceiver
  | SetCodecPreferences
  | CreateChannel string
  | CreateOffer
  | SetLocalDescription
  | SendOfferCall
  | FlushCandidates
  | StartPump
  | AwaitConnected
  | AwaitRPC
  | AwaitHID
  | HIDHandshake
  | CloseHID
  | CancelSession
  | ClosePeer

text \<open>What a wait finds: the arm, the context's error, the last check.\<close>

record session_env =
  se_fail :: "session_call \<Rightarrow> errval option"
  se_wait :: "session_call \<Rightarrow> select_arm \<times> errval option \<times> bool"

definition wrap_error :: "string \<Rightarrow> errval \<Rightarrow> errval" where
  "wrap_error pre err = Wrap (runes pre) err []"

definition stage_prefix :: "session_call \<Rightarrow> string" where
  "stage_prefix c = (case c of
      RegisterCodecs \<Rightarrow> ''jetkvm: registering codecs: ''
    | NewPeerConnection \<Rightarrow> ''jetkvm: creating peer connection: ''
    | AddTransceiver \<Rightarrow> ''jetkvm: adding video transceiver: ''
    | SetCodecPreferences \<Rightarrow> ''jetkvm: constraining video negotiation to H.264: ''
    | CreateChannel name \<Rightarrow> ''jetkvm: creating '' @ name @ '' data channel: ''
    | CreateOffer \<Rightarrow> ''jetkvm: creating offer: ''
    | SetLocalDescription \<Rightarrow> ''jetkvm: setting local description: ''
    | SendOfferCall \<Rightarrow> ''jetkvm: sending offer: ''
    | FlushCandidates \<Rightarrow> ''jetkvm: sending queued ICE candidates: ''
    | AwaitConnected \<Rightarrow> ''jetkvm: waiting for connection: ''
    | AwaitRPC \<Rightarrow> ''jetkvm: waiting for rpc data channel to open: ''
    | AwaitHID \<Rightarrow> ''jetkvm: waiting for hidrpc data channel to open: ''
    | _ \<Rightarrow> '''')"

definition closed_text :: "session_call \<Rightarrow> string" where
  "closed_text c = (case c of
      AwaitConnected \<Rightarrow> ''jetkvm: peer connection closed before becoming connected''
    | AwaitRPC \<Rightarrow> ''jetkvm: peer connection closed while waiting for rpc data channel to open''
    | AwaitHID \<Rightarrow> ''jetkvm: peer connection closed while waiting for hidrpc data channel to open''
    | _ \<Rightarrow> '''')"

definition is_wait :: "session_call \<Rightarrow> bool" where
  "is_wait c \<longleftrightarrow> c = AwaitConnected \<or> c = AwaitRPC \<or> c = AwaitHID"

text \<open>The error a stage returns. The pump is only started; the handshake's error is passed on.\<close>

definition stage_error :: "session_env \<Rightarrow> session_call \<Rightarrow> errval option" where
  "stage_error env c =
    (if is_wait c then
       (let (arm, ctxErr, closedNow) = se_wait env c in
        case waitForReadiness arm ctxErr closedNow of
          None \<Rightarrow> None
        | Some ReadinessClosedError \<Rightarrow> Some (Plain (runes (closed_text c)))
        | Some (ReadinessContextError err) \<Rightarrow> Some (wrap_error (stage_prefix c) err))
     else if c = StartPump then None
     else if c = HIDHandshake then se_fail env c
     else map_option (wrap_error (stage_prefix c)) (se_fail env c))"

text \<open>\<open>session.close\<close>; \<open>hid\<close> is whether the session has a HID client.\<close>

definition session_close :: "bool \<Rightarrow> session_call list" where
  "session_close hid = (if hid then [CloseHID] else []) @ [CancelSession, ClosePeer]"

text \<open>
  The stages of \<open>establishSession\<close>, each with the calls that its own error branch makes before it
  returns: none while there is no session, then the \<open>s.close()\<close> of that branch. \<open>s.hid\<close> is set once
  the \<open>hidrpc\<close> channel is created, so the branch of that very call closes a session without it.
\<close>

definition stages :: "bool \<Rightarrow> (session_call \<times> session_call list) list" where
  "stages allowControl =
    [(RegisterCodecs, []),
     (NewPeerConnection, []),
     (AddTransceiver, session_close False),
     (SetCodecPreferences, session_close False),
     (CreateChannel ''rpc'', session_close False)] @
    (if allowControl then [(CreateChannel ''hidrpc'', session_close False)] else []) @
    [(CreateOffer, session_close allowControl),
     (SetLocalDescription, session_close allowControl),
     (SendOfferCall, session_close allowControl),
     (FlushCandidates, session_close allowControl),
     (StartPump, []),
     (AwaitConnected, session_close allowControl),
     (AwaitRPC, session_close allowControl),
     (AwaitHID, session_close allowControl)] @
    (if allowControl then [(HIDHandshake, session_close allowControl)] else [])"

text \<open>
  The body of \<open>establishSession\<close> from a stage on, with the calls so far. An error makes the calls of
  its branch and returns.
\<close>

fun run_stages :: "session_env \<Rightarrow> (session_call \<times> session_call list) list \<Rightarrow> session_call list \<Rightarrow>
    errval option \<times> session_call list" where
  "run_stages env [] done = (None, done)"
| "run_stages env ((c, onError) # cs) done = (case stage_error env c of
      None \<Rightarrow> run_stages env cs (done @ [c])
    | Some err \<Rightarrow> (Some err, done @ [c] @ onError))"

definition establishSession :: "session_env \<Rightarrow> bool \<Rightarrow> errval option \<times> session_call list" where
  "establishSession env allowControl = run_stages env (stages allowControl) []"

text \<open>
  \<open>requestKeyframes\<close>: what it records, with a request at once, one after half a second and one
  per tick, until the context ends. A wake-up is a timer, with whether the write of the
  request failed, or the end of the context.
\<close>

datatype keyframe_wake = TimerFired bool | SessionEnded

fun keyframe_wakes :: "keyframe_wake list \<Rightarrow> diag_step list" where
  "keyframe_wakes [] = []"
| "keyframe_wakes (TimerFired failed # ws) = RequestedStep failed # keyframe_wakes ws"
| "keyframe_wakes (SessionEnded # ws) = []"

definition requestKeyframes :: "u32 \<Rightarrow> bool \<Rightarrow> keyframe_wake list \<Rightarrow> diag_step list" where
  "requestKeyframes mediaSSRC failed wakes = [TargetStep mediaSSRC, RequestedStep failed] @ keyframe_wakes wakes"

section \<open>Connecting a client\<close>

record options =
  op_baseURL :: text_runes
  op_password :: secret
  op_token :: secret
  op_allowControl :: bool
  op_insecureTLS :: bool

datatype connect_call =
    ApplyInsecureTLS
  | StatusProbe text_runes
  | SetSessionCookie text_runes text_runes
  | PostLogin text_runes text_runes
  | Redirected text_runes
  | DeviceProbe text_runes
  | DialSignaling text_runes bool
  | Establish bool bool
  | CloseSignaling

text \<open>
  How the calls of \<open>Connect\<close> end: the cookie jar, the three requests, each with the redirects the
  library follows for it and the outcome of the last one, the dialled websocket (its
  error with the HTTP status and whether the context has ended, or the first frame), and the
  decoders of JSON.
\<close>

record connect_env =
  ce_library :: url_library
  ce_lower :: "rune \<Rightarrow> rune"
  ce_redactor :: redactor
  ce_resolve :: "parsed_url \<Rightarrow> text_runes \<Rightarrow> text_runes"
  ce_jar :: "errval option"
  ce_statusHops :: "(int \<times> text_runes) list"
  ce_status :: http_outcome
  ce_loginHops :: "(int \<times> text_runes) list"
  ce_login :: http_outcome
  ce_deviceHops :: "(int \<times> text_runes) list"
  ce_device :: http_outcome
  ce_decodeStatus :: "byte list \<Rightarrow> text_runes + bool"
  ce_decodeDevice :: "byte list \<Rightarrow> text_runes + local_device"
  ce_dial :: "(go_error \<times> int option \<times> bool) + (bool \<times> bool \<times> (go_error + byte list))"
  ce_decodeEnvelope :: "byte list \<Rightarrow> (text_runes \<times> byte list) option"
  ce_decodeMetadata :: "byte list \<Rightarrow> text_runes + text_runes"
  ce_session :: session_env

record client =
  cl_deviceID :: text_runes
  cl_firmware :: text_runes
  cl_allowControl :: bool
  cl_lease :: bool

definition http_of :: "connect_env \<Rightarrow> options \<Rightarrow> http_client" where
  "http_of env opts = \<lparr>hc_redactor = ce_redactor env, hc_lower = ce_lower env,
     hc_known = [op_password opts, op_token opts]\<rparr>"

definition connect_error :: "connect_env \<Rightarrow> string \<Rightarrow> error_kind \<Rightarrow> errval \<Rightarrow> errval" where
  "connect_error env operation fallback err =
    classifyConnectError (ce_redactor env) (runes operation) err fallback"

definition newHTTPClient :: "connect_env \<Rightarrow> text_runes \<Rightarrow> errval option" where
  "newHTTPClient env baseURL = (case CanonicalBaseURL (ce_library env) (ce_lower env) baseURL of
      Inl err \<Rightarrow> Some err
    | Inr canonical \<Rightarrow> (case url_parse (ce_library env) canonical of
          None \<Rightarrow> Some (Plain (runes ''jetkvm: invalid base URL''))
        | Some u \<Rightarrow> map_option (wrap_error ''jetkvm: creating cookie jar: '') (ce_jar env)))"

definition dialSignaling :: "connect_env \<Rightarrow> text_runes \<Rightarrow> errval + text_runes" where
  "dialSignaling env baseURL =
    (case toWebsocketURL (ce_library env) (ce_resolve env) baseURL (runes ''/webrtc/signaling/client'') of
       Inl err \<Rightarrow> Inl err
     | Inr wsURL \<Rightarrow> (case ce_dial env of
          Inl (err, status, ctxDone) \<Rightarrow> Inl (dial_error (ce_redactor env) status ctxDone err)
        | Inr (tooBig, ctxDone, frame) \<Rightarrow>
           (case readInto (ce_redactor env) (ce_decodeEnvelope env) tooBig ctxDone frame [] of
              Inl err \<Rightarrow> Inl err
            | Inr (typ, raw) \<Rightarrow> checkDeviceMetadata (ce_decodeMetadata env) typ raw)))"

text \<open>\<open>Connect\<close> after the authenticated session is confirmed.\<close>

definition connect_session :: "connect_env \<Rightarrow> options \<Rightarrow> text_runes \<Rightarrow> local_device \<Rightarrow>
    (errval + client) \<times> connect_call list" where
  "connect_session env opts baseURL dev = (case url_parse (ce_library env) baseURL of
      None \<Rightarrow> (Inl (Plain (runes ''jetkvm: invalid base URL'')), [])
    | Some u \<Rightarrow>
       (let dial = DialSignaling baseURL (op_insecureTLS opts);
            est = Establish (op_allowControl opts)
                    (isLoopbackHost (ce_library env) (ce_lower env) (u_hostname u)) in
        case dialSignaling env baseURL of
          Inl err \<Rightarrow> (Inl err, [dial])
        | Inr version \<Rightarrow> (case fst (establishSession (ce_session env) (op_allowControl opts)) of
              Some err \<Rightarrow>
                (Inl (if ErrorKindOf err \<noteq> None then err else if is_compat err then err
                      else newDeviceError (ce_redactor env) Unreachable
                             (runes ''establishing WebRTC session'') (Some err)),
                 [dial, est, CloseSignaling])
            | None \<Rightarrow>
                (Inr \<lparr>cl_deviceID = ld_deviceID dev, cl_firmware = version,
                      cl_allowControl = op_allowControl opts, cl_lease = op_allowControl opts\<rparr>,
                 [dial, est]))))"

text \<open>
  The requests as calls. A request to the device is named by the base URL, its path being fixed; one
  that follows a redirect by its whole target. \<open>PostLogin\<close> is a request whose body has the password.
\<close>

definition get_calls :: "(text_runes \<Rightarrow> connect_call) \<Rightarrow> text_runes \<Rightarrow> (int \<times> text_runes) list \<Rightarrow> connect_call list" where
  "get_calls probe baseURL hops = probe baseURL #
    map (\<lambda>(meth, u, body). Redirected u) (tl (client_requests (runes ''GET'') baseURL False hops))"

definition login_calls :: "text_runes \<Rightarrow> text_runes \<Rightarrow> (int \<times> text_runes) list \<Rightarrow> connect_call list" where
  "login_calls baseURL password hops =
    map (\<lambda>(meth, u, body). if body then PostLogin u password else Redirected u)
      (client_requests (runes ''POST'') baseURL True hops)"

definition connect_device :: "connect_env \<Rightarrow> options \<Rightarrow> text_runes \<Rightarrow> (errval + client) \<times> connect_call list" where
  "connect_device env opts baseURL =
    (let probe = get_calls DeviceProbe baseURL (ce_deviceHops env) in
     case device_call (http_of env opts) (ce_decodeDevice env) (ce_device env) of
       Inl err \<Rightarrow>
         (Inl (connect_error env ''checking authenticated device session'' AuthFailed err), probe)
     | Inr dev \<Rightarrow>
         (case connect_session env opts baseURL dev of (r, calls) \<Rightarrow> (r, probe @ calls)))"

definition connect_login :: "connect_env \<Rightarrow> options \<Rightarrow> text_runes \<Rightarrow> (errval + client) \<times> connect_call list" where
  "connect_login env opts baseURL =
    (if \<not> secret_Empty (op_token opts) then
       (case connect_device env opts baseURL of (r, calls) \<Rightarrow>
          (r, SetSessionCookie baseURL (Expose (op_token opts)) # calls))
     else if \<not> secret_Empty (op_password opts) then
       (let post = login_calls baseURL (Expose (op_password opts)) (ce_loginHops env) in
        case login (http_of env opts) (ce_login env) of
          Inl err \<Rightarrow> (Inl (connect_error env ''logging in'' AuthFailed err), post)
        | Inr u \<Rightarrow> (case connect_device env opts baseURL of (r, calls) \<Rightarrow> (r, post @ calls)))
     else connect_device env opts baseURL)"

definition Connect :: "connect_env \<Rightarrow> options \<Rightarrow> (errval + client) \<times> connect_call list" where
  "Connect env opts = (case CanonicalBaseURL (ce_library env) (ce_lower env) (op_baseURL opts) of
      Inl err \<Rightarrow> (Inl err, [])
    | Inr baseURL \<Rightarrow> (case newHTTPClient env baseURL of
          Some err \<Rightarrow> (Inl err, [])
        | None \<Rightarrow>
           (let tls = (if op_insecureTLS opts then [ApplyInsecureTLS] else []);
                probe = get_calls StatusProbe baseURL (ce_statusHops env) in
            case deviceStatus (http_of env opts) (ce_decodeStatus env) (ce_status env) of
              Inl err \<Rightarrow> (Inl (connect_error env ''checking device status'' Unreachable err), tls @ probe)
            | Inr setup \<Rightarrow> (case connect_login env opts baseURL of (r, calls) \<Rightarrow>
                (r, tls @ probe @ calls)))))"

section \<open>The client\<close>

text \<open>
  \<open>lock\<close>: the context's error before, which arm of the \<open>select\<close> fires, the context's error
  after. The result carries whether the slot is now taken by this call.
\<close>

definition client_lock :: "errval option \<Rightarrow> bool \<Rightarrow> errval option \<Rightarrow> errval option \<times> bool" where
  "client_lock before gotSlot after = (case before of
      Some err \<Rightarrow> (Some err, False)
    | None \<Rightarrow>
       (if gotSlot then (case after of Some err \<Rightarrow> (Some err, False) | None \<Rightarrow> (None, True))
        else (after, False)))"

definition client_Control :: "client \<Rightarrow> errval option" where
  "client_Control c =
    (if \<not> cl_allowControl c \<or> \<not> cl_lease c
     then Some (Plain (runes ''jetkvm: control was not enabled for this connection (AllowControl/--allow-control): jetkvm: control is not enabled for this connection''))
     else None)"

datatype close_call = Neutralize | CloseSession | CloseSignalingConn

text \<open>\<open>Close\<close>: the error of the neutralization, and the calls in order.\<close>

definition client_Close :: "bool \<Rightarrow> bool \<Rightarrow> bool \<Rightarrow> errval option \<Rightarrow> errval option \<times> close_call list" where
  "client_Close hasControl hasSession hasSignaling neutralizeErr =
    ((if hasControl then neutralizeErr else None),
     (if hasControl then [Neutralize] else []) @ (if hasSession then [CloseSession] else []) @
     (if hasSignaling then [CloseSignalingConn] else []))"

end
