(* ===== verification/Screenshot.thy ===== *)
theory Screenshot
  imports Decoder Video_Report Session_Setup
begin

text \<open>
  Screenshots and status of \<open>client.go\<close>: \<open>CaptureScreenshot\<close> over the frame store, the decoder and
  the diagnostics, \<open>writeScreenshot\<close> over a file system, \<open>SaveScreenshot\<close>, \<open>Status\<close>, and \<open>Call\<close> of
  \<open>charly_extension.go\<close>.
\<close>

section \<open>Capturing\<close>

record ScreenshotResult =
  ss_path :: text_runes
  ss_width :: go_int
  ss_height :: go_int
  ss_capturedAt :: time
  ss_fresh :: bool

record Screenshot =
  sc_result :: ScreenshotResult
  sc_png :: "byte list"

text \<open>An error value as the classifiers of \<open>diagnostics.go\<close> read it.\<close>

fun exit_of :: "errval \<Rightarrow> int option" and first_exit :: "errval list \<Rightarrow> int option" where
  "exit_of (Foreign e) = ge_exit e"
| "exit_of (Wrap pre e post) = exit_of e"
| "exit_of (Join es) = first_exit es"
| "exit_of (Device kind operation detail s) = (case s of Some e \<Rightarrow> exit_of e | None \<Rightarrow> None)"
| "exit_of (Plain t) = None"
| "exit_of (APIError path status body) = None"
| "exit_of (CompatibilityError stage detail) = None"
| "exit_of HIDClosed = None"
| "first_exit [] = None"
| "first_exit (e # es) = (case exit_of e of Some c \<Rightarrow> Some c | None \<Rightarrow> first_exit es)"

definition go_view :: "errval \<Rightarrow> go_error" where
  "go_view err = \<lparr>ge_is = filter (\<lambda>g. is_library g err)
       [IoEOF, IoUnexpectedEOF, IoClosedPipe, CtxCanceled, CtxDeadlineExceeded, ExecNotFound],
     ge_exit = exit_of err, ge_text = message err\<rparr>"

text \<open>
  What a call meets: the check of the decoder (\<open>None\<close> also when it has none), the lock, what the
  waiter observes, \<open>ctx.Err()\<close> after a failed wait, after the decode and after the encode, and
  the two readings of the diagnostics.
\<close>

record 'img capture_env =
  ca_available :: "errval option"
  ca_lock :: "errval option \<times> bool \<times> errval option"
  ca_wakes :: "wake list"
  ca_waitCtx :: "errval option"
  ca_decodeCtx :: "errval option"
  ca_encodeCtx :: "errval option"
  ca_report :: "VideoDiagnostics \<times> VideoDiagnostics"
  ca_decode :: "byte list \<Rightarrow> errval + 'img option"
  ca_png :: "'img png_library"
  ca_redactor :: redactor
  ca_lower :: "rune \<Rightarrow> rune"

definition no_frame_error :: "'img capture_env \<Rightarrow> errval \<Rightarrow> errval" where
  "no_frame_error env err =
    (let post = [32, 40] @ Summary (fst (ca_report env)) @ noSignalHint (snd (ca_report env)) @ [41] in
     if ca_waitCtx env \<noteq> None
     then timeoutError (ca_redactor env) (runes ''waiting for a video frame'')
            (Some (Wrap (runes ''no video frame available: '') err post))
     else Wrap (runes ''jetkvm: no video frame available: '') err post)"

definition encode_shot :: "'img capture_env \<Rightarrow> frame \<Rightarrow> 'img \<Rightarrow> errval + Screenshot" where
  "encode_shot env fr img = (case ca_decodeCtx env of
      Some err \<Rightarrow> Inl (wrapped ''jetkvm: screenshot canceled after decode: '' err)
    | None \<Rightarrow>
       (let (width, height) = png_bounds (ca_png env) img in
        case ValidateScreenshotDimensions width height of
          Some err \<Rightarrow> Inl (wrapped ''jetkvm: refusing to encode decoded screenshot: '' err)
        | None \<Rightarrow>
           (let (chunks, encodeErr) = png_encode (ca_png env) img;
                buf = capped_all chunks (newCappedBuffer MaxScreenshotEncodedBytes) in
            case ca_encodeCtx env of
              Some err \<Rightarrow> Inl (wrapped ''jetkvm: screenshot canceled after PNG encode: '' err)
            | None \<Rightarrow> (case encodeErr of
                  Some err \<Rightarrow> Inl (wrapped ''jetkvm: encoding PNG: '' err)
                | None \<Rightarrow>
                   (if cb_overflowed buf
                    then Inl (Plain (runes ''jetkvm: encoded screenshot exceeds the '' @
                           decimal MaxScreenshotEncodedBytes @ runes ''-byte limit''))
                    else Inr \<lparr>sc_result = \<lparr>ss_path = [], ss_width = width, ss_height = height,
                           ss_capturedAt = capturedAt fr, ss_fresh = True\<rparr>, sc_png = cb_data buf\<rparr>)))))"

definition decode_shot :: "'img capture_env \<Rightarrow> frame \<Rightarrow> diag_step list \<times> (errval + Screenshot)" where
  "decode_shot env fr =
    (let tried = DecodeTriedStep (int (length (annexB fr)));
         failed = (\<lambda>err. ([tried, DecodeFailedStep (classifyDecodeError (ca_lower env) (Some (go_view err)))], Inl err)) in
     case ca_decode env (annexB fr) of
       Inl err \<Rightarrow> failed err
     | Inr None \<Rightarrow> failed (Plain (runes ''jetkvm: video decoder returned a nil image''))
     | Inr (Some img) \<Rightarrow> ([tried], encode_shot env fr img))"

text \<open>
  \<open>CaptureScreenshot\<close>: \<open>f\<close> is the store when the boundary is read, \<open>f1\<close> at the waiter's first
  check. \<open>None\<close> is a call that still waits, for the lock or for a frame.
\<close>

definition CaptureScreenshot ::
  "'img capture_env \<Rightarrow> frameCapture \<Rightarrow> frameCapture \<Rightarrow> diag_step list \<times> (errval + Screenshot) option" where
  "CaptureScreenshot env f f1 = (case ca_available env of
      Some err \<Rightarrow> ([], Some (Inl err))
    | None \<Rightarrow>
       (let (before, gotSlot, after) = ca_lock env in
        case client_lock before gotSlot after of
          (Some err, _) \<Rightarrow> ([], Some (Inl err))
        | (None, False) \<Rightarrow> ([], None)
        | (None, True) \<Rightarrow>
           (case waitForFrameAfter (generationBoundary f) f1 (ca_wakes env) of
              Blocked u \<Rightarrow> ([], None)
            | GotError err \<Rightarrow> ([], Some (Inl (no_frame_error env err)))
            | GotFrame fr \<Rightarrow> (case decode_shot env fr of (steps, r) \<Rightarrow> (steps, Some r)))))"

section \<open>Saving\<close>

type_synonym file_system = "text_runes \<Rightarrow> byte list option"

text \<open>
  How the calls end: \<open>wr_write\<close> is the number of bytes written before an error, \<open>wr_removed\<close>
  whether the deferred removal succeeds.
\<close>

record write_env =
  wr_ctxFirst :: "errval option"
  wr_mkdir :: "errval option"
  wr_create :: "errval + text_runes"
  wr_write :: "(nat \<times> errval) option"
  wr_close :: "errval option"
  wr_ctxCommit :: "errval option"
  wr_rename :: "errval option"
  wr_removed :: bool

definition discard_temp :: "write_env \<Rightarrow> text_runes \<Rightarrow> file_system \<Rightarrow> file_system" where
  "discard_temp env tmp fs = (if wr_removed env then fs(tmp := None) else fs)"

definition commit_temp :: "write_env \<Rightarrow> text_runes \<Rightarrow> text_runes \<Rightarrow> Screenshot \<Rightarrow> file_system \<Rightarrow>
    (errval + ScreenshotResult) \<times> file_system" where
  "commit_temp env tmp path shot fs = (case wr_write env of
      Some (n, err) \<Rightarrow> (Inl (wrapped ''jetkvm: writing screenshot: '' err),
                        discard_temp env tmp (fs(tmp \<mapsto> take n (sc_png shot))))
    | None \<Rightarrow>
       (let fs = fs(tmp \<mapsto> sc_png shot) in case wr_close env of
          Some err \<Rightarrow> (Inl (wrapped ''jetkvm: closing screenshot: '' err), discard_temp env tmp fs)
        | None \<Rightarrow> (case wr_ctxCommit env of
              Some err \<Rightarrow> (Inl (wrapped ''jetkvm: screenshot save canceled before commit: '' err),
                           discard_temp env tmp fs)
            | None \<Rightarrow> (case wr_rename env of
                  Some err \<Rightarrow> (Inl (wrapped ''jetkvm: saving screenshot: '' err), discard_temp env tmp fs)
                | None \<Rightarrow> (Inr ((sc_result shot)\<lparr>ss_path := path\<rparr>),
                           (fs(path := fs tmp))(tmp := None))))))"

text \<open>\<open>dir\<close> is \<open>filepath.Dir\<close> of the path.\<close>

definition writeScreenshot :: "write_env \<Rightarrow> text_runes \<Rightarrow> text_runes \<Rightarrow> Screenshot \<Rightarrow> file_system \<Rightarrow>
    (errval + ScreenshotResult) \<times> file_system" where
  "writeScreenshot env dir path shot fs = (case wr_ctxFirst env of
      Some err \<Rightarrow> (Inl (wrapped ''jetkvm: screenshot save canceled before filesystem write: '' err), fs)
    | None \<Rightarrow> (case (if dir \<noteq> [46] then wr_mkdir env else None) of
          Some err \<Rightarrow> (Inl (wrapped ''jetkvm: creating output directory: '' err), fs)
        | None \<Rightarrow> (case wr_create env of
              Inl err \<Rightarrow> (Inl (wrapped ''jetkvm: creating output file: '' err), fs)
            | Inr tmp \<Rightarrow> commit_temp env tmp path shot fs)))"

definition SaveScreenshot ::
  "'img capture_env \<Rightarrow> write_env \<Rightarrow> frameCapture \<Rightarrow> frameCapture \<Rightarrow> text_runes \<Rightarrow> text_runes \<Rightarrow> file_system \<Rightarrow>
   ((errval + ScreenshotResult) option \<times> file_system)" where
  "SaveScreenshot env wenv f f1 dir path fs = (case snd (CaptureScreenshot env f f1) of
      None \<Rightarrow> (None, fs)
    | Some (Inl err) \<Rightarrow> (Some (Inl err), fs)
    | Some (Inr shot) \<Rightarrow> (case writeScreenshot wenv dir path shot fs of (r, fs') \<Rightarrow> (Some r, fs')))"

section \<open>Status and calls\<close>

record StatusResult =
  sr_deviceID :: text_runes
  sr_firmware :: text_runes
  sr_rpcReachable :: bool

text \<open>The result and the error of \<open>Status\<close>; \<open>ping\<close> is the error of the call.\<close>

definition client_Status ::
  "client \<Rightarrow> errval option \<times> bool \<times> errval option \<Rightarrow> errval option \<Rightarrow> (StatusResult \<times> errval option) option" where
  "client_Status c lk ping =
    (let (before, gotSlot, after) = lk in
     case client_lock before gotSlot after of
       (Some err, _) \<Rightarrow> Some (\<lparr>sr_deviceID = [], sr_firmware = [], sr_rpcReachable = False\<rparr>, Some err)
     | (None, False) \<Rightarrow> None
     | (None, True) \<Rightarrow>
        (let result = \<lparr>sr_deviceID = cl_deviceID c, sr_firmware = cl_firmware c, sr_rpcReachable = False\<rparr> in
         case ping of
           Some err \<Rightarrow> Some (result, Some (wrapped ''jetkvm: status check failed: '' err))
         | None \<Rightarrow> Some (result\<lparr>sr_rpcReachable := True\<rparr>, None)))"

text \<open>\<open>Call\<close> under the same lock; \<open>rpc\<close> is what the call on the channel returns.\<close>

definition client_Call :: "errval option \<times> bool \<times> errval option \<Rightarrow> errval option \<Rightarrow> errval option option" where
  "client_Call lk rpc =
    (let (before, gotSlot, after) = lk in
     case client_lock before gotSlot after of
       (Some err, _) \<Rightarrow> Some (Some err)
     | (None, False) \<Rightarrow> None
     | (None, True) \<Rightarrow> Some rpc)"

end
