(* ===== verification/Sprop.thy ===== *)
theory Sprop
  imports Frame_Capture
begin

text \<open>
  Parameter sets from the SDP: \<open>parseSpropParameterSets\<close> and \<open>decodeParameterSet\<close> of \<open>h264.go\<close>.
  The two base64 decoders of the library, padded and unpadded, are parameters.
\<close>

record base64 =
  b64_std :: "text_runes \<Rightarrow> byte list option"
  b64_raw :: "text_runes \<Rightarrow> byte list option"

definition maxParameterSetBytes :: nat where "maxParameterSetBytes = 512"
definition maxSpropParameterSets :: nat where "maxSpropParameterSets = 8"

definition decodeParameterSet :: "base64 \<Rightarrow> text_runes \<Rightarrow> byte list option" where
  "decodeParameterSet b encoded0 =
    (let encoded = trim_space encoded0 in
     if encoded = [] \<or> byte_len encoded > 4 * maxParameterSetBytes then None
     else case (case b64_std b encoded of Some n \<Rightarrow> Some n | None \<Rightarrow> b64_raw b encoded) of
        None \<Rightarrow> None
      | Some nalu \<Rightarrow>
         (if length nalu < 2 \<or> length nalu > maxParameterSetBytes \<or> nalu ! 0 AND 0x80 \<noteq> 0 then None
          else Some nalu))"

type_synonym parameter_sets = "byte list option \<times> byte list option"

definition take_set :: "byte list \<Rightarrow> parameter_sets \<Rightarrow> parameter_sets" where
  "take_set nalu acc = (case acc of (sps, pps) \<Rightarrow>
    (let t = nalu ! 0 AND 0x1F in
     if t = naluTypeSPS then (if sps = None then (Some nalu, pps) else (sps, pps))
     else if t = naluTypePPS then (if pps = None then (sps, Some nalu) else (sps, pps))
     else (sps, pps)))"

text \<open>The loop over the entries of one attribute; \<open>i\<close> is the index.\<close>

fun sprop_entries :: "base64 \<Rightarrow> nat \<Rightarrow> text_runes list \<Rightarrow> parameter_sets \<Rightarrow> parameter_sets" where
  "sprop_entries b i [] acc = acc"
| "sprop_entries b i (e # es) acc =
    (if i \<ge> maxSpropParameterSets then acc
     else sprop_entries b (i + 1) es
       (case decodeParameterSet b e of None \<Rightarrow> acc | Some nalu \<Rightarrow> take_set nalu acc))"

fun sprop_parts :: "base64 \<Rightarrow> text_runes list \<Rightarrow> parameter_sets \<Rightarrow> parameter_sets" where
  "sprop_parts b [] acc = acc"
| "sprop_parts b (part # parts) acc =
    sprop_parts b parts
      (case cut_at 61 (trim_space part) of
         None \<Rightarrow> acc
       | Some (k, v) \<Rightarrow>
          (if \<not> equal_fold (trim_space k) (runes ''sprop-parameter-sets'') then acc
           else sprop_entries b 0 (split_at 44 (trim_space v)) acc))"

definition parseSpropParameterSets :: "base64 \<Rightarrow> text_runes \<Rightarrow> parameter_sets" where
  "parseSpropParameterSets b fmtp = sprop_parts b (split_at 59 fmtp) (None, None)"

section \<open>What is returned\<close>

definition plausible_set :: "byte \<Rightarrow> byte list \<Rightarrow> bool" where
  "plausible_set t nalu \<longleftrightarrow> 2 \<le> length nalu \<and> length nalu \<le> maxParameterSetBytes \<and>
     nalu ! 0 AND 0x80 = 0 \<and> nalu ! 0 AND 0x1F = t"

definition sets_ok :: "parameter_sets \<Rightarrow> bool" where
  "sets_ok acc \<longleftrightarrow> (\<forall>n. fst acc = Some n \<longrightarrow> plausible_set naluTypeSPS n) \<and>
     (\<forall>n. snd acc = Some n \<longrightarrow> plausible_set naluTypePPS n)"

lemma decodeParameterSet_Some:
  "decodeParameterSet b e = Some n \<Longrightarrow> plausible_set (n ! 0 AND 0x1F) n"
  by (auto simp: decodeParameterSet_def plausible_set_def Let_def split: option.splits if_splits)

lemma take_set_ok: "plausible_set (n ! 0 AND 0x1F) n \<Longrightarrow> sets_ok acc \<Longrightarrow> sets_ok (take_set n acc)"
  by (auto simp: take_set_def sets_ok_def plausible_set_def Let_def split: prod.splits)

lemma sprop_entries_ok: "sets_ok acc \<Longrightarrow> sets_ok (sprop_entries b i es acc)"
proof (induction es arbitrary: i acc)
  case (Cons e es)
  show ?case
    by (simp add: Cons.prems Cons.IH take_set_ok decodeParameterSet_Some split: option.split)
qed simp

lemma sprop_parts_ok: "sets_ok acc \<Longrightarrow> sets_ok (sprop_parts b parts acc)"
proof (induction parts arbitrary: acc)
  case (Cons part parts)
  show ?case
    by (simp add: Cons.prems Cons.IH sprop_entries_ok split: option.split)
qed simp

lemma parseSpropParameterSets_ok: "sets_ok (parseSpropParameterSets b fmtp)"
  unfolding parseSpropParameterSets_def by (rule sprop_parts_ok) (simp add: sets_ok_def)

text \<open>
  The check of an entry does not look for a start code inside it, so what a device puts into
  its SDP can be two units for a decoder: here an SPS header followed by a second unit.
\<close>

lemma start_code_inside_set:
  "fst (parseSpropParameterSets \<lparr>b64_std = \<lambda>_. Some [0x67, 0, 0, 1, 0x65], b64_raw = \<lambda>_. None\<rparr>
     (runes ''sprop-parameter-sets=Z'')) = Some [0x67, 0, 0, 1, 0x65] \<and>
   splitAnnexB (buildAnnexB [[0x67, 0, 0, 1, 0x65]]) = [[0x67], [0x65]]"
  by code_simp

section \<open>Returned frames\<close>

text \<open>
  The events the code feeds the store: the critical sections of \<open>ingest\<close> on any sample, the
  parameter sets parsed from any format line, and failures.
\<close>

definition capture_event :: "base64 \<Rightarrow> store_event \<Rightarrow> bool" where
  "capture_event b e \<longleftrightarrow> (\<exists>data now. e \<in> set (ingest_events data now)) \<or>
     (\<exists>fmtp. e = Seed (fst (parseSpropParameterSets b fmtp)) (snd (parseSpropParameterSets b fmtp))) \<or>
     (\<exists>err. e = Fail err)"

lemma plausible_set_ok: "plausible_set t n \<Longrightarrow> set_ok (\<lambda>_. True) t n"
  by (auto simp: plausible_set_def set_ok_def nalu_type_def)

lemma seed_event_ok:
  "event_ok (\<lambda>_. True) (Seed (fst (parseSpropParameterSets b fmtp)) (snd (parseSpropParameterSets b fmtp)))"
  using parseSpropParameterSets_ok [of b fmtp] plausible_set_ok by (simp add: sets_ok_def)

lemma capture_event_ok: "capture_event b e \<Longrightarrow> event_ok (\<lambda>_. True) e"
  using ingest_events_ok seed_event_ok unfolding capture_event_def by auto

lemma clean_event_ok:
  assumes "event_ok (\<lambda>_. True) e" "\<And>sps pps n. e = Seed sps pps \<Longrightarrow> sps = Some n \<or> pps = Some n \<Longrightarrow> start_free n"
  shows "event_ok (\<lambda>_. False) e"
  using assms by (cases e) (auto simp: set_ok_def)


text \<open>The witness: the SDP seeds an SPS with a start code inside, the stream brings the rest.\<close>

definition split_set_decoder :: base64 where
  "split_set_decoder = \<lparr>b64_std = \<lambda>_. Some [0x67, 0, 0, 1, 0x65], b64_raw = \<lambda>_. None\<rparr>"

definition split_set_events :: "store_event list" where
  "split_set_events = Seed (Some [0x67, 0, 0, 1, 0x65]) None #
     ingest_events [0, 0, 1, 0x68, 2, 0, 0, 1, 0x65, 3] 40"

lemma split_set_parsed:
  "parseSpropParameterSets split_set_decoder (runes ''sprop-parameter-sets=Z'') =
     (Some [0x67, 0, 0, 1, 0x65], None)"
  by code_simp


end
