(* ===== verification/Session_Live.thy ===== *)
theory Session_Live
  imports Hid_Lifecycle Sprop Session_Setup
begin

text \<open>
  The parts of a session while it is up: the callbacks \<open>OnTrack\<close>, \<open>OnConnectionStateChange\<close>,
  \<open>OnClose\<close> and \<open>OnError\<close> that \<open>establishSession\<close> installs, and \<open>close\<close>, over the HID client, the
  frame store and the two channels \<open>connected\<close> and \<open>closed\<close>.

  The library runs the callbacks beside the goroutines of the HID client and the video reader, so
  a session's life is a sequence of callbacks and of their steps, in any order.
\<close>

section \<open>State and callbacks\<close>

datatype peer_state = PeerNew | PeerConnecting | PeerConnected | PeerDisconnected | PeerFailed | PeerClosed

fun peer_state_name :: "peer_state \<Rightarrow> string" where
  "peer_state_name PeerNew = ''new''"
| "peer_state_name PeerConnecting = ''connecting''"
| "peer_state_name PeerConnected = ''connected''"
| "peer_state_name PeerDisconnected = ''disconnected''"
| "peer_state_name PeerFailed = ''failed''"
| "peer_state_name PeerClosed = ''closed''"

record live_env =
  le_redactor :: redactor
  le_lower :: "rune \<Rightarrow> rune"
  le_base64 :: base64

text \<open>\<open>lv_readers\<close> counts the tracks being read, each with its keyframe requests.\<close>

record live =
  lv_hid :: "world option"
  lv_video :: frameCapture
  lv_diag :: "diag_step list"
  lv_connected :: bool
  lv_closed :: bool
  lv_readers :: nat
  lv_cancelled :: bool

definition session_new :: "bool \<Rightarrow> live" where
  "session_new allowControl = \<lparr>lv_hid = (if allowControl then Some newHIDClient else None),
     lv_video = newFrameCapture, lv_diag = [], lv_connected = False, lv_closed = False,
     lv_readers = 0, lv_cancelled = False\<rparr>"

definition unsupported_codec :: "live_env \<Rightarrow> text_runes \<Rightarrow> errval" where
  "unsupported_codec env mime =
    Plain (runes ''unsupported negotiated video codec '' @ [34] @ sanitizeMimeType (le_lower env) mime @ [34, 32, 40] @
      runes ''H.264 required'' @ [41])"

definition on_track :: "live_env \<Rightarrow> time \<Rightarrow> track_codec \<Rightarrow> live \<Rightarrow> live" where
  "on_track env now tc lv =
    (let lv = lv\<lparr>lv_diag := lv_diag lv @ [TrackStartedStep now tc]\<rparr> in
     if \<not> equal_fold (tc_mime tc) (runes ''video/H264'')
     then lv\<lparr>lv_diag := lv_diag lv @ [TrackRejectedStep (runes ''non-h264-codec'')],
             lv_video := fc_fail (unsupported_codec env (tc_mime tc)) (lv_video lv)\<rparr>
     else (case parseSpropParameterSets (le_base64 env) (tc_fmtp tc) of (sps, pps) \<Rightarrow>
       lv\<lparr>lv_video := seedParameterSets sps pps (lv_video lv), lv_readers := lv_readers lv + 1\<rparr>))"

definition peer_lost :: "live_env \<Rightarrow> peer_state \<Rightarrow> errval" where
  "peer_lost env st = newDeviceError (le_redactor env) Unreachable (runes ''receiving video'')
     (Some (Plain (runes ''peer connection entered '' @ runes (peer_state_name st) @
       runes '' state before a video frame was available'')))"

definition close_hid :: "close_cause \<Rightarrow> live \<Rightarrow> live" where
  "close_hid cause lv = lv\<lparr>lv_hid := map_option (close_world cause) (lv_hid lv)\<rparr>"

definition on_connection_state :: "live_env \<Rightarrow> close_cause \<Rightarrow> peer_state \<Rightarrow> live \<Rightarrow> live" where
  "on_connection_state env cause st lv =
    (if st = PeerConnected then lv\<lparr>lv_connected := True\<rparr>
     else if st = PeerFailed \<or> st = PeerClosed \<or> st = PeerDisconnected then
       (close_hid cause (lv\<lparr>lv_video := fc_fail (peer_lost env st) (lv_video lv)\<rparr>))\<lparr>lv_closed := True\<rparr>
     else lv)"

text \<open>\<open>session.close\<close>: the library's \<open>Close\<close> of the peer connection is a later state change.\<close>

definition live_close :: "close_cause \<Rightarrow> live \<Rightarrow> live" where
  "live_close cause lv = (close_hid cause lv)\<lparr>lv_cancelled := True\<rparr>"

section \<open>Runs\<close>

datatype live_event =
    TrackArrived time track_codec
  | PeerChanged close_cause peer_state
  | HidChannelGone close_cause
  | HidRuns hid_event
  | VideoRuns store_event
  | ReadEnded "go_error option"
  | CloseCalled close_cause

fun live_step :: "live_env \<Rightarrow> live_event \<Rightarrow> live \<Rightarrow> live option" where
  "live_step env (TrackArrived now tc) lv = Some (on_track env now tc lv)"
| "live_step env (PeerChanged cause st) lv = Some (on_connection_state env cause st lv)"
| "live_step env (HidChannelGone cause) lv = Some (close_hid cause lv)"
| "live_step env (HidRuns e) lv = (case lv_hid lv of
      None \<Rightarrow> None
    | Some w \<Rightarrow> map_option (\<lambda>w'. lv\<lparr>lv_hid := Some w'\<rparr>) (hid_step e w))"
| "live_step env (VideoRuns e) lv = Some (lv\<lparr>lv_video := store_step e (lv_video lv)\<rparr>)"
| "live_step env (ReadEnded err) lv =
    Some (lv\<lparr>lv_video := fc_endRun (le_redactor env) (le_lower env) err (lv_video lv)\<rparr>)"
| "live_step env (CloseCalled cause) lv = Some (live_close cause lv)"

fun live_run :: "live_env \<Rightarrow> live_event list \<Rightarrow> live \<Rightarrow> live option" where
  "live_run env [] lv = Some lv"
| "live_run env (e # es) lv = (case live_step env e lv of None \<Rightarrow> None | Some lv' \<Rightarrow> live_run env es lv')"

inductive live_reach :: "live_env \<Rightarrow> live \<Rightarrow> bool" for env where
  start: "live_reach env (session_new allowControl)"
| step: "live_reach env lv \<Longrightarrow> live_step env e lv = Some lv' \<Longrightarrow> live_reach env lv'"

lemmas live_defs = on_track_def on_connection_state_def close_hid_def live_close_def

section \<open>Each part runs as it does alone\<close>

lemma hid_run_append: "hid_run es w = Some v \<Longrightarrow> hid_run (es @ fs) w = hid_run fs v"
  by (induction es arbitrary: w) (auto split: option.splits)

text \<open>What an event is for the HID client.\<close>

fun hid_events :: "live_event \<Rightarrow> hid_event list" where
  "hid_events (HidRuns e) = [e]"
| "hid_events (HidChannelGone cause) = [CloseWith cause]"
| "hid_events (CloseCalled cause) = [CloseWith cause]"
| "hid_events (PeerChanged cause st) =
    (if st = PeerFailed \<or> st = PeerClosed \<or> st = PeerDisconnected then [CloseWith cause] else [])"
| "hid_events (TrackArrived now tc) = []"
| "hid_events (VideoRuns e) = []"
| "hid_events (ReadEnded err) = []"

lemma live_step_hid:
  assumes "live_step env e lv = Some lv'"
  shows "case lv_hid lv of None \<Rightarrow> lv_hid lv' = None
    | Some w \<Rightarrow> lv_hid lv' \<noteq> None \<and> lv_hid lv' = hid_run (hid_events e) w"
  using assms
  by (cases e) (auto simp: live_defs Let_def split: option.splits if_splits prod.splits)

lemma live_run_hid:
  "live_run env es lv = Some lv' \<Longrightarrow> lv_hid lv = Some w \<Longrightarrow>
   \<exists>w'. hid_run (concat (map hid_events es)) w = Some w' \<and> lv_hid lv' = Some w'"
proof (induction es arbitrary: lv w)
  case (Cons e es)
  then obtain lv1 where st: "live_step env e lv = Some lv1" "live_run env es lv1 = Some lv'"
    by (auto split: option.splits)
  obtain w1 where w1: "hid_run (hid_events e) w = Some w1" "lv_hid lv1 = Some w1"
    using live_step_hid [OF st(1)] Cons.prems(2) by (cases "hid_run (hid_events e) w") auto
  with Cons.IH [OF st(2) w1(2)] hid_run_append [OF w1(1)] show ?case by auto
qed auto

lemma live_run_no_hid: "live_run env es lv = Some lv' \<Longrightarrow> lv_hid lv = None \<Longrightarrow> lv_hid lv' = None"
proof (induction es arbitrary: lv)
  case (Cons e es)
  then show ?case using live_step_hid by (fastforce split: option.splits)
qed simp

lemma live_reach_hid: "live_reach env lv \<Longrightarrow> lv_hid lv = Some w \<Longrightarrow> hid_reach w"
proof (induction arbitrary: w rule: live_reach.induct)
  case (start allowControl)
  then show ?case by (auto simp: session_new_def hid_reach.start split: if_splits)
next
  case (step lv e lv')
  then obtain v where v: "lv_hid lv = Some v" using live_step_hid [OF step(2)]
    by (auto split: option.splits)
  with step live_step_hid [OF step(2)] have "hid_run (hid_events e) v = Some w" by simp
  with step.IH [OF v] show ?case by (rule hid_reach_run)
qed

lemma live_step_failed:
  assumes "live_step env e lv = Some lv'" and "fc_err (lv_video lv) = Some err"
  shows "fc_err (lv_video lv') = Some err \<and> fc_latest (lv_video lv') = fc_latest (lv_video lv)"
  using assms store_step_failed [OF assms(2)]
  by (cases e) (auto simp: live_defs fc_endRun_def store_defs Let_def
      split: option.splits if_splits prod.splits)

lemma live_step_closed:
  "live_step env e lv = Some lv' \<Longrightarrow> lv_closed lv \<Longrightarrow> lv_closed lv'"
  by (cases e) (auto simp: live_defs Let_def split: option.splits if_splits prod.splits)

lemma live_run_failed:
  "live_run env es lv = Some lv' \<Longrightarrow> fc_err (lv_video lv) = Some err \<Longrightarrow>
   fc_err (lv_video lv') = Some err \<and> fc_latest (lv_video lv') = fc_latest (lv_video lv)"
proof (induction es arbitrary: lv)
  case (Cons e es)
  then show ?case using live_step_failed by (fastforce split: option.splits)
qed simp

lemma live_run_closed: "live_run env es lv = Some lv' \<Longrightarrow> lv_closed lv \<Longrightarrow> lv_closed lv'"
proof (induction es arbitrary: lv)
  case (Cons e es)
  then show ?case using live_step_closed by (fastforce split: option.splits)
qed simp

text \<open>The channel that waiters park on is replaced whenever the error is recorded.\<close>

lemma live_step_updated:
  assumes "live_step env e lv = Some lv'"
  shows "fc_updated (lv_video lv) \<le> fc_updated (lv_video lv') \<and>
    (fc_err (lv_video lv') \<noteq> fc_err (lv_video lv) \<longrightarrow> fc_updated (lv_video lv) < fc_updated (lv_video lv'))"
proof (cases "\<exists>se. e = VideoRuns se")
  case True
  with assms show ?thesis using store_step_updated by auto
next
  case False
  with assms show ?thesis
    by (cases e) (auto simp: live_defs fc_endRun_def store_defs Let_def
        split: option.splits if_splits prod.splits)
qed

lemma live_run_updated:
  "live_run env es lv = Some lv' \<Longrightarrow> fc_updated (lv_video lv) \<le> fc_updated (lv_video lv') \<and>
   (fc_err (lv_video lv') \<noteq> fc_err (lv_video lv) \<longrightarrow> fc_updated (lv_video lv) < fc_updated (lv_video lv'))"
proof (induction es arbitrary: lv)
  case (Cons e es)
  then obtain lv1 where st: "live_step env e lv = Some lv1" "live_run env es lv1 = Some lv'"
    by (auto split: option.splits)
  show ?case
    using live_step_updated [OF st(1)] Cons.IH [OF st(2)] by fastforce
qed simp

lemma live_run_append:
  "live_run env (es @ fs) lv = (case live_run env es lv of None \<Rightarrow> None | Some lv1 \<Rightarrow> live_run env fs lv1)"
  by (induction es arbitrary: lv) (auto split: option.splits)

section \<open>Losing the peer\<close>

lemma on_connection_state_lost:
  assumes "st = PeerFailed \<or> st = PeerClosed \<or> st = PeerDisconnected"
  shows "lv_closed (on_connection_state env cause st lv)"
    and "fc_err (lv_video (on_connection_state env cause st lv)) \<noteq> None"
    and "fc_latest (lv_video (on_connection_state env cause st lv)) = fc_latest (lv_video lv)"
    and "lv_hid (on_connection_state env cause st lv) = map_option (close_world cause) (lv_hid lv)"
  using assms by (auto simp: on_connection_state_def close_hid_def store_defs split: option.split)

text \<open>
  C35. Losing the peer ends every part of the session, for good. After a failed, closed or
  disconnected state, in every continuation of callbacks, writer, reader and releases: a wait
  for readiness fails even if what it waits for is ready, the HID client is closed with no active
  lease and refuses every frame, no further video frame is published, and nobody who waits for a
  frame stays blocked: a waiter whose check comes after does not block, and one that was parked at
  any earlier point of the session finds the channel it waits on closed and then returns what
  the store has.
\<close>

theorem peer_loss_is_terminal:
  assumes "live_reach env lv" and "st = PeerFailed \<or> st = PeerClosed \<or> st = PeerDisconnected"
    and "live_run env (PeerChanged cause st # es) lv = Some lv'"
  shows "waitForReadiness ReadyArm None (lv_closed lv') = Some ReadinessClosedError \<and>
    (\<forall>w. lv_hid lv' = Some w \<longrightarrow> hc_state (w_core w) = HidClosed \<and> hc_activeGen (w_core w) = 0 \<and>
       (\<forall>r. \<exists>c. checkWritableLocked r (w_core w) = Inl (ErrHIDClosed c))) \<and>
    fc_latest (lv_video lv') = fc_latest (lv_video lv) \<and>
    (\<forall>after u. wait_check after (lv_video lv') \<noteq> Blocked u) \<and>
    (\<forall>lv0 es0 after u. live_run env es0 lv0 = Some lv \<and> wait_check after (lv_video lv0) = Blocked u \<longrightarrow>
       u < fc_updated (lv_video lv') \<and>
       waitForFrameAfter after (lv_video lv0) [Updated (lv_video lv')] = wait_check after (lv_video lv'))"
proof -
  let ?lv = "on_connection_state env cause st lv"
  note lost = on_connection_state_lost [OF assms(2), of env cause lv]
  have run: "live_run env es ?lv = Some lv'" using assms(3) by simp
  obtain err where err: "fc_err (lv_video ?lv) = Some err" using lost(2) by auto
  note video = live_run_failed [OF run err]
  have "lv_closed lv'" by (rule live_run_closed [OF run lost(1)])
  moreover have free: "wait_check after (lv_video lv') \<noteq> Blocked u" for after u
    using video by (simp add: wait_check_Blocked_iff)
  moreover have "u < fc_updated (lv_video lv') \<and>
      waitForFrameAfter after (lv_video lv0) [Updated (lv_video lv')] = wait_check after (lv_video lv')"
    if parked: "live_run env es0 lv0 = Some lv" "wait_check after (lv_video lv0) = Blocked u" for lv0 es0 after u
  proof -
    have "live_run env (es0 @ PeerChanged cause st # es) lv0 = Some lv'"
      using parked(1) assms(3) by (simp add: live_run_append del: live_run.simps(2))
    from live_run_updated [OF this] parked(2) video have "u < fc_updated (lv_video lv')"
      by (simp add: wait_check_Blocked_iff)
    then show ?thesis using parked(2) free by (auto split: wait_result.splits)
  qed
  moreover have "hc_state (w_core w') = HidClosed \<and> hc_activeGen (w_core w') = 0 \<and>
      (\<forall>r. \<exists>c. checkWritableLocked r (w_core w') = Inl (ErrHIDClosed c))" if w': "lv_hid lv' = Some w'" for w'
  proof -
    obtain w where w: "lv_hid lv = Some w"
      using w' assms(3) live_run_no_hid [of env es ?lv lv'] run lost(4) by (cases "lv_hid lv") auto
    have r: "hid_reach (close_world cause w)"
      by (rule hid_reach.step [OF live_reach_hid [OF assms(1) w], of "CloseWith cause"]) simp
    obtain v where "hid_run (concat (map hid_events es)) (close_world cause w) = Some v" "lv_hid lv' = Some v"
      using live_run_hid [OF run] lost(4) w by auto
    with w' have h: "hid_run (concat (map hid_events es)) (close_world cause w) = Some w'" by simp
    have "hc_state (w_core (close_world cause w)) = HidClosed"
      by (simp add: close_world_core closeWith_def invalidateLeaseLocked_def)
    with closed_is_terminal [OF r h] show ?thesis
      by (cases "hc_state (w_core w')") (auto simp: less_eq_hidState_def)
  qed
  ultimately show ?thesis using video lost(3) by (auto simp: waitForReadiness_def)
qed

theorem peer_loss_is_terminal_witness:
  "\<exists>lv'. live_run \<lparr>le_redactor = \<lparr>rd_urls = id, rd_keys = id, rd_opaque = id\<rparr>, le_lower = id,
       le_base64 = \<lparr>b64_std = \<lambda>_. None, b64_raw = \<lambda>_. None\<rparr>\<rparr>
     [PeerChanged 3 PeerFailed, HidRuns (CloseWith 4), PeerChanged 5 PeerConnected] (session_new True) = Some lv' \<and>
   wait_check 0 (lv_video (session_new True)) = Blocked 0 \<and> 0 < fc_updated (lv_video lv') \<and>
   wait_check 0 (lv_video lv') \<noteq> Blocked 0"
proof -
  let ?env = "\<lparr>le_redactor = \<lparr>rd_urls = id, rd_keys = id, rd_opaque = id\<rparr>, le_lower = id,
       le_base64 = \<lparr>b64_std = \<lambda>_. None, b64_raw = \<lambda>_. None\<rparr>\<rparr>"
  obtain lv' where run: "live_run ?env
      [PeerChanged 3 PeerFailed, HidRuns (CloseWith 4), PeerChanged 5 PeerConnected] (session_new True) = Some lv'"
    by (simp add: session_new_def on_connection_state_def close_hid_def)
  have parked: "wait_check 0 (lv_video (session_new True)) = Blocked 0"
      "live_run ?env [] (session_new True) = Some (session_new True)"
    by (simp_all add: session_new_def newFrameCapture_def wait_check_def)
  from peer_loss_is_terminal [OF live_reach.start _ run] parked run show ?thesis by blast
qed

end
