(* ===== verification/Report_Properties.thy ===== *)
theory Report_Properties
  imports Diagnostics_Properties Screenshot Session_Live
begin

text \<open>
  What leaves a session in its reports. The steps of the collector are those that the modelled
  goroutines make: the frame store, the pump, the callbacks of a live session, the keyframe
  requests and the screenshots. None of them carries a text that the device chose, apart from the
  two codec parameters, which the recorder checks.
\<close>

section \<open>Where the steps come from\<close>

text \<open>
  The steps of a session: \<open>cd\<close> is its signaling codec, \<open>lib\<close> the image library, \<open>ulow\<close> the
  lower case of the other runes.
\<close>

definition session_step ::
  "('raw, 'sd, 'cand) signaling_codec \<Rightarrow> 'img png_library \<Rightarrow> (rune \<Rightarrow> rune) \<Rightarrow> diag_step \<Rightarrow> bool" where
  "session_step cd lib ulow s \<longleftrightarrow>
     (\<exists>ops. s \<in> set (concat (map call_steps (fc_diag (fold (receive ulow) ops newFrameCapture))))) \<or>
     (\<exists>oracle inputs. s \<in> set (pp_diag (pumpSignalingEvents cd ulow oracle inputs pump_start))) \<or>
     (\<exists>env lv. le_lower env = ulow \<and> live_reach env lv \<and> s \<in> set (lv_diag lv)) \<or>
     (\<exists>ssrc failed wakes. s \<in> set (requestKeyframes ssrc failed wakes)) \<or>
     (\<exists>env f f1. ca_lower env = ulow \<and> ca_png env = lib \<and> s \<in> set (fst (CaptureScreenshot env f f1))) \<or>
     s = LocalCandidateStep"

definition read_failures_ok :: "(rune \<Rightarrow> rune) \<Rightarrow> frameCapture \<Rightarrow> bool" where
  "read_failures_ok ulow f \<longleftrightarrow>
    (\<forall>c. DiagTrackReadFailed c \<in> set (fc_diag f) \<longrightarrow> (\<exists>e. c = classifyTrackReadError ulow e))"

lemma store_step_read_failures: "read_failures_ok ulow f \<Longrightarrow> read_failures_ok ulow (store_step e f)"
  by (cases e) (auto simp: read_failures_ok_def store_defs commit_frame_def Let_def split: option.splits)

lemma push_read_failures: "read_failures_ok ulow f \<Longrightarrow> read_failures_ok ulow (push t p samples f)"
proof -
  have events: "read_failures_ok ulow f \<Longrightarrow> read_failures_ok ulow (fold store_step evs f)" for evs f
    by (induction evs arbitrary: f) (auto simp: store_step_read_failures)
  have fold: "read_failures_ok ulow f \<Longrightarrow> read_failures_ok ulow (fold (\<lambda>(dropped, data, now) f.
      ingest data now (fc_record (DiagSampleAssembled dropped) f)) samples f)" for f
  proof (induction samples arbitrary: f)
    case (Cons x xs)
    then have "read_failures_ok ulow (fc_record (DiagSampleAssembled d) f)" for d
      by (simp add: read_failures_ok_def fc_record_def)
    then show ?case using Cons.IH by (cases x) (simp add: ingest_is_events events)
  qed simp
  assume "read_failures_ok ulow f"
  then have "read_failures_ok ulow (fc_record (DiagRtpPacket t p) f)"
    by (simp add: read_failures_ok_def fc_record_def)
  then show ?thesis unfolding push_def by (rule fold)
qed

lemma receive_read_failures: "read_failures_ok ulow f \<Longrightarrow> read_failures_ok ulow (receive ulow op f)"
  by (cases op) (auto simp: push_read_failures,
      auto simp: read_failures_ok_def store_defs fc_endRun_def Let_def split: option.splits)

interpretation read_failures: run_invariant "receive ulow" "\<lambda>_. True" "read_failures_ok ulow" for ulow
  by unfold_locales (rule receive_read_failures)

lemma store_steps_ok:
  assumes "s \<in> set (concat (map call_steps (fc_diag (fold (receive ulow) ops newFrameCapture))))"
  shows "step_ok ulow s"
proof -
  have "read_failures_ok ulow newFrameCapture" by (simp add: read_failures_ok_def newFrameCapture_def)
  then have "read_failures_ok ulow (fold (receive ulow) ops newFrameCapture)"
    by (intro read_failures.run_inv) simp_all
  moreover obtain c where "c \<in> set (fc_diag (fold (receive ulow) ops newFrameCapture))" "s \<in> set (call_steps c)"
    using assms by auto
  ultimately show ?thesis by (cases c) (auto simp: read_failures_ok_def)
qed

definition pump_ok :: "(rune \<Rightarrow> rune) \<Rightarrow> ('sd, 'cand) pump \<Rightarrow> bool" where
  "pump_ok ulow st \<longleftrightarrow> (\<forall>s \<in> set (pp_diag st). step_ok ulow s)"

lemma add_candidate_ok: "pump_ok ulow st \<Longrightarrow> pump_ok ulow (add_candidate oracle c st)"
  by (auto simp: pump_ok_def add_candidate_def pc_do_def pump_record_def Let_def)

lemma pump_event_ok:
  fixes st :: "('sd, 'cand) pump"
  assumes ok: "pump_ok ulow st"
  shows "pump_ok ulow (pump_event oracle ev st)"
proof (cases ev)
  case (AnswerEvent sd)
  have fold: "pump_ok ulow st \<Longrightarrow> pump_ok ulow (fold (add_candidate oracle) cs st)" for cs and st :: "('sd, 'cand) pump"
    by (induction cs arbitrary: st) (auto simp: add_candidate_ok)
  let ?st = "pump_record (AnswerStep True) (snd (pc_do oracle (SetRemoteDescription sd) st))"
  have "pump_ok ulow (fold (add_candidate oracle) (pp_pending ?st) (?st\<lparr>pp_answered := True\<rparr>))"
    using ok by (intro fold) (auto simp: pump_ok_def pc_do_def pump_record_def Let_def)
  then show ?thesis
    using ok AnswerEvent by (auto simp: pump_ok_def pc_do_def pump_record_def Let_def split: if_splits)
next
  case (CandidateEvent c)
  with CandidateEvent ok add_candidate_ok [OF ok] show ?thesis
    by (auto simp: pump_ok_def pump_record_def)
qed (use ok in \<open>auto simp: pump_ok_def pump_record_def\<close>)

lemma pump_steps_ok: "pump_ok ulow st \<Longrightarrow> pump_ok ulow (pumpSignalingEvents cd ulow oracle inputs st)"
proof (induction inputs arbitrary: st)
  case (Cons x inputs)
  obtain ctxDone frm where x: "x = (ctxDone, frm)" by fastforce
  show ?case
  proof (cases "ctxDone")
    case True
    with Cons.prems show ?thesis by (auto simp: x pump_stop_def pump_ok_def pump_record_def)
  next
    case False
    then show ?thesis
      using Cons.prems Cons.IH [OF pump_event_ok [OF Cons.prems]]
      by (cases "next_event cd frm") (auto simp: x pump_stop_def pump_ok_def pump_record_def)
  qed
qed simp

lemma live_steps_ok:
  assumes "live_reach env lv"
  shows "\<forall>s \<in> set (lv_diag lv). step_ok (le_lower env) s"
  using assms
proof induction
  case (start allowControl)
  then show ?case by (simp add: session_new_def)
next
  case (step lv e lv')
  from step(2,3) show ?case
    by (cases e) (auto simp: live_defs Let_def split: option.splits if_splits prod.splits)
qed

lemma capture_steps_ok: "s \<in> set (fst (CaptureScreenshot env f f1)) \<Longrightarrow> step_ok (ca_lower env) s"
proof -
  have shot: "s \<in> set (fst (decode_shot env fr)) \<Longrightarrow> step_ok (ca_lower env) s" for fr
    by (auto simp: decode_shot_def Let_def split: sum.splits option.splits)
  obtain a g z where l: "ca_lock env = (a, g, z)" by (metis prod.exhaust)
  assume "s \<in> set (fst (CaptureScreenshot env f f1))"
  then show ?thesis
    using shot
    by (auto simp: CaptureScreenshot_def l case_prod_beta split: option.splits prod.splits bool.splits wait_result.splits)
qed

lemma session_step_ok:
  fixes cd :: "('raw, 'sd, 'cand) signaling_codec"
  shows "session_step cd lib ulow s \<Longrightarrow> step_ok ulow s"
proof -
  have requests: "s \<in> set (requestKeyframes ssrc failed wakes) \<Longrightarrow> step_ok ulow s" for ssrc failed wakes
  proof -
    have "s \<in> set (keyframe_wakes wakes) \<Longrightarrow> step_ok ulow s"
      by (induction wakes rule: keyframe_wakes.induct) auto
    then show "s \<in> set (requestKeyframes ssrc failed wakes) \<Longrightarrow> step_ok ulow s"
      by (auto simp: requestKeyframes_def)
  qed
  have start: "pump_ok ulow (pump_start :: ('sd, 'cand) pump)" by (simp add: pump_ok_def pump_start_def)
  assume "session_step cd lib ulow s"
  then show ?thesis
    unfolding session_step_def
    using store_steps_ok [of s ulow] pump_steps_ok [OF start, where cd = cd, unfolded pump_ok_def] live_steps_ok
      capture_steps_ok [of s] requests
    by (elim disjE exE conjE) auto
qed

section \<open>Closed reports\<close>

text \<open>The state texts of the WebRTC library, as its documentation lists them.\<close>

definition peer_texts :: "text_runes list" where
  "peer_texts = [runes ''unknown'', runes ''new'', runes ''connecting'', runes ''connected'',
     runes ''disconnected'', runes ''failed'', runes ''closed'']"

definition ice_texts :: "text_runes list" where
  "ice_texts = [runes ''unknown'', runes ''new'', runes ''checking'', runes ''connected'',
     runes ''completed'', runes ''disconnected'', runes ''failed'', runes ''closed'']"

definition signaling_texts :: "text_runes list" where
  "signaling_texts = [runes ''unknown'', runes ''stable'', runes ''have-local-offer'',
     runes ''have-remote-offer'', runes ''have-local-pranswer'', runes ''have-remote-pranswer'', runes ''closed'']"

definition transport_ok :: "transport_state option \<Rightarrow> bool" where
  "transport_ok pc \<longleftrightarrow> (case pc of None \<Rightarrow> True | Some t \<Rightarrow>
     ts_peer t \<in> set peer_texts \<and> ts_ice t \<in> set ice_texts \<and> ts_signaling t \<in> set signaling_texts)"

definition report_closed :: "VideoDiagnostics \<Rightarrow> bool" where
  "report_closed v \<longleftrightarrow> TrackMimeType v \<in> set mime_names \<and> profile_ok (TrackProfileLevel v) \<and>
     TrackPacketMode v \<in> set mode_names \<and> TrackRejection v \<in> {[], runes ''non-h264-codec''} \<and>
     TrackReadFailure v \<in> set read_categories \<and>
     SignalingPumpStopped v \<in> insert (runes ''session-closed'') (set read_categories) \<and>
     decode_category (DecodeFailure v) \<and> FailureBoundary v \<in> set boundaries \<and>
     dom (RTPPacketsByClass v) \<subseteq>
       set [runes ''empty'', runes ''single-nalu'', runes ''STAP-A'', runes ''FU-A'', runes ''other''] \<and>
     dom (WireNALUnitsByType v) \<subseteq> set type_names \<and> dom (NALUnitsByType v) \<subseteq> set type_names \<and>
     ParameterSetSource v \<in> {[], runes ''rtp'', runes ''sdp'', runes ''sdp+rtp''} \<and>
     OfferedProfileLevel v = runes ''42001f'' \<and> OfferedPacketMode v = runes ''1'' \<and>
     PeerConnectionState v \<in> set peer_texts \<and> ICEConnectionState v \<in> set ice_texts \<and>
     SignalingState v \<in> set signaling_texts"

lemma dom_nonZeroCounts: "dom (nonZeroCounts m) \<subseteq> dom m"
  by (auto simp: nonZeroCounts_def split: option.splits if_splits)

lemma source_name_closed:
  "parameterSetSourceName s r \<in> {[], runes ''rtp'', runes ''sdp'', runes ''sdp+rtp''}"
  by (simp add: parameterSetSourceName_def runes_def)

lemma transport_texts:
  assumes "transport_ok pc" "v = snapshot pc now a n w m"
  shows "PeerConnectionState v \<in> set peer_texts \<and> ICEConnectionState v \<in> set ice_texts \<and>
    SignalingState v \<in> set signaling_texts"
  using assms(1)
  by (simp add: assms(2) snapshot_def snapshot_fields_def transport_ok_def unknown_transport_def
      peer_texts_def ice_texts_def signaling_texts_def Let_def split: option.splits)

text \<open>
  C29. A report is closed. Whatever the device sends, in its answer's codec line, in its packets or
  messages or as the text of an error, and whatever steps the session's goroutines make, every
  text of a snapshot is from a fixed list of names, with three exceptions that the device or the
  decoder chooses within bounds: a profile of at most six lower-case hex digits (anything else is
  shown as invalid), a packetization mode that is one digit from 0 to 2, and a decoder exit
  category that ends in a decimal number. Of the three transport states it is used that the
  WebRTC library returns the texts its documentation lists.
\<close>

theorem report_is_closed:
  fixes cd :: "('raw, 'sd, 'cand) signaling_codec" and lib :: "'img png_library"
  assumes "\<forall>s \<in> set evs. session_step cd lib ulow s" and "\<forall>s \<in> set evs'. session_step cd lib ulow s"
    and "transport_ok pc"
  shows "report_closed (snapshot pc now a n (diag_run ulow evs') (diag_run ulow evs))"
proof -
  let ?v = "snapshot pc now a n (diag_run ulow evs') (diag_run ulow evs)"
  have ok: "\<forall>s \<in> set evs. step_ok ulow s" using assms(1) session_step_ok by blast
  have "dom (RTPPacketsByClass ?v) \<subseteq> set [runes ''empty'', runes ''single-nalu'', runes ''STAP-A'',
      runes ''FU-A'', runes ''other'']"
    unfolding snapshot_def snapshot_fields_def Let_def
    by (simp, rule order_trans [OF dom_nonZeroCounts]) auto
  then show ?thesis
    using closed_run [OF ok] transport_texts [OF assms(3) refl, of now a n "diag_run ulow evs'" "diag_run ulow evs"]
    by (simp add: report_closed_def closed_state_def snapshot_fields by_type_keys Boundary_closed)
      (simp add: snapshot_def snapshot_fields_def Let_def source_name_closed [simplified]
        offeredProfileLevelID_def offeredPacketizationMode_def)
qed

text \<open>The witness: a track with a profile in upper case, and a decoder that cannot be run.\<close>

definition reported_track :: track_codec where
  "reported_track = \<lparr>tc_mime = runes ''video/h264'',
     tc_fmtp = runes ''profile-level-id=42E01F;packetization-mode=1'', tc_payload_type = 96\<rparr>"

definition no_codec :: "(unit, unit, unit) signaling_codec" where
  "no_codec = \<lparr>sc_envelope = \<lambda>_. None, sc_string = \<lambda>_. None, sc_base64 = \<lambda>_. None,
     sc_session = \<lambda>_. None, sc_candidate = \<lambda>_. None\<rparr>"

definition no_images :: "unit png_library" where
  "no_images = \<lparr>png_config = \<lambda>_. Inr (2, 1), png_decode = \<lambda>_. Inr (), png_bounds = \<lambda>_. (2, 1),
     png_encode = \<lambda>_. ([], None)\<rparr>"

theorem report_is_closed_witness:
  "report_closed (snapshot (Some \<lparr>ts_peer = runes ''connected'', ts_ice = runes ''completed'',
       ts_signaling = runes ''stable''\<rparr>) 5 newVideoDiagnostics newVideoDiagnostics
     (diag_run id [LocalCandidateStep, TrackStartedStep 0 reported_track])
     (diag_run id [LocalCandidateStep, TrackStartedStep 0 reported_track])) \<and>
   vd_trackProfile (diag_run id [LocalCandidateStep, TrackStartedStep 0 reported_track]) = runes ''42e01f''"
proof -
  let ?env = "\<lparr>le_redactor = \<lparr>rd_urls = id, rd_keys = id, rd_opaque = id\<rparr>, le_lower = id,
       le_base64 = \<lparr>b64_std = \<lambda>_. None, b64_raw = \<lambda>_. None\<rparr>\<rparr>"
  have "live_step ?env (TrackArrived 0 reported_track) (session_new True) =
      Some (on_track ?env 0 reported_track (session_new True))" by simp
  then have "live_reach ?env (on_track ?env 0 reported_track (session_new True))"
    by (rule live_reach.step [OF live_reach.start])
  moreover have "TrackStartedStep 0 reported_track \<in> set (lv_diag (on_track ?env 0 reported_track (session_new True)))"
    by (simp add: on_track_def session_new_def case_prod_beta Let_def)
  moreover have "le_lower ?env = id" by simp
  ultimately have "session_step no_codec no_images id (TrackStartedStep 0 reported_track)"
    unfolding session_step_def by blast
  moreover have "session_step no_codec no_images id LocalCandidateStep" by (simp add: session_step_def)
  ultimately have "\<forall>s \<in> set [LocalCandidateStep, TrackStartedStep 0 reported_track]. session_step no_codec no_images id s"
    by simp
  moreover have "transport_ok (Some \<lparr>ts_peer = runes ''connected'', ts_ice = runes ''completed'',
       ts_signaling = runes ''stable''\<rparr>)"
    by (simp add: transport_ok_def peer_texts_def ice_texts_def signaling_texts_def)
  moreover have "vd_trackProfile (diag_run id [LocalCandidateStep, TrackStartedStep 0 reported_track]) = runes ''42e01f''"
    by code_simp
  ultimately show ?thesis using report_is_closed by blast
qed

end
