(* ===== verification/Redaction.thy ===== *)
theory Redaction
  imports Http_Client
begin

text \<open>
  The three patterns of \<open>redact.go\<close> and \<open>redactURL\<close>, and the \<open>redactor\<close> they make up.

  A pattern of Go's \<open>regexp\<close> is a value of \<open>pattern\<close>. Go takes the leftmost match and, of the
  matches there, the one a backtracking search finds first; \<open>ends\<close> lists the ends of all matches
  at a position in that order. A repetition is of a character class, as in all three patterns.
\<close>

section \<open>Patterns\<close>

datatype pattern =
    Nothing
  | Then pattern pattern
  | Or pattern pattern
  | Repeat nat "nat option" "rune \<Rightarrow> bool"
  | WordBoundary

definition is_word :: "rune \<Rightarrow> bool" where
  "is_word r \<longleftrightarrow> 48 \<le> r \<and> r \<le> 57 \<or> 65 \<le> r \<and> r \<le> 90 \<or> r = 95 \<or> 97 \<le> r \<and> r \<le> 122"

definition word_at :: "text_runes \<Rightarrow> nat \<Rightarrow> bool" where
  "word_at t i \<longleftrightarrow> i < length t \<and> is_word (t ! i)"

definition boundary_at :: "text_runes \<Rightarrow> nat \<Rightarrow> bool" where
  "boundary_at t i \<longleftrightarrow> (0 < i \<and> word_at t (i - 1)) \<noteq> word_at t i"

text \<open>The number of characters of the class from a position on, up to a bound.\<close>

definition class_run :: "(rune \<Rightarrow> bool) \<Rightarrow> text_runes \<Rightarrow> nat \<Rightarrow> nat option \<Rightarrow> nat" where
  "class_run P t i bound =
    (let n = length (takeWhile P (drop i t)) in case bound of None \<Rightarrow> n | Some m \<Rightarrow> min n m)"

fun ends :: "pattern \<Rightarrow> text_runes \<Rightarrow> nat \<Rightarrow> nat list" where
  "ends Nothing t i = [i]"
| "ends (Then p q) t i = concat (map (ends q t) (ends p t i))"
| "ends (Or p q) t i = ends p t i @ ends q t i"
| "ends (Repeat lo hi P) t i = rev (map (\<lambda>n. i + n) [lo ..< Suc (class_run P t i hi)])"
| "ends WordBoundary t i = (if boundary_at t i then [i] else [])"

definition one :: "(rune \<Rightarrow> bool) \<Rightarrow> pattern" where "one P = Repeat 1 (Some 1) P"
definition optional :: "pattern \<Rightarrow> pattern" where "optional p = Or p Nothing"
definition sequence :: "pattern list \<Rightarrow> pattern" where "sequence ps = foldr Then ps Nothing"
definition literal :: "string \<Rightarrow> pattern" where "literal s = sequence (map (\<lambda>c. one (\<lambda>r. r = c)) (runes s))"
definition any_case :: "string \<Rightarrow> pattern" where
  "any_case s = sequence (map (\<lambda>c. one (\<lambda>r. fold_rune r = fold_rune c)) (runes s))"

fun alternatives :: "pattern list \<Rightarrow> pattern" where
  "alternatives [p] = p"
| "alternatives (p # ps) = Or p (alternatives ps)"
| "alternatives [] = Repeat 1 (Some 0) (\<lambda>_. False)"

text \<open>\<open>\s\<close> of Go's \<open>regexp\<close>.\<close>

definition blank :: "rune \<Rightarrow> bool" where "blank r \<longleftrightarrow> r \<in> {9, 10, 12, 13, 32}"

text \<open>
  \<open>ReplaceAll\<close>: from a position on, \<open>f\<close> says where the first match there ends and what replaces
  it. The patterns match no empty text.
\<close>

function replace_from :: "(text_runes \<Rightarrow> nat \<Rightarrow> (nat \<times> text_runes) option) \<Rightarrow> text_runes \<Rightarrow> nat \<Rightarrow> text_runes" where
  "replace_from f t i =
    (if length t \<le> i then []
     else case f t i of
        Some (j, new) \<Rightarrow> (if i < j then new @ replace_from f t j else t ! i # replace_from f t (Suc i))
      | None \<Rightarrow> t ! i # replace_from f t (Suc i))"
  by pat_completeness auto

termination by (relation "measure (\<lambda>(f, t, i). length t - i)") auto

declare replace_from.simps [simp del]

definition first_end :: "pattern \<Rightarrow> text_runes \<Rightarrow> nat \<Rightarrow> nat option" where
  "first_end p t i = (case ends p t i of [] \<Rightarrow> None | j # js \<Rightarrow> Some j)"

section \<open>The patterns of the program\<close>

definition redactionPlaceholder :: text_runes where "redactionPlaceholder = runes ''<redacted>''"

definition opaque_class :: "rune \<Rightarrow> bool" where
  "opaque_class r \<longleftrightarrow> is_word r \<or> r = 43 \<or> r = 47 \<or> r = 45"

definition longOpaquePattern :: pattern where
  "longOpaquePattern = Then WordBoundary (Then (Repeat 24 None opaque_class)
     (Then (Repeat 0 (Some 2) (\<lambda>r. r = 61)) WordBoundary))"

definition redact_opaque :: "text_runes \<Rightarrow> text_runes" where
  "redact_opaque s = replace_from (\<lambda>t i. map_option (\<lambda>j. (j, redactionPlaceholder)) (first_end longOpaquePattern t i)) s 0"

definition quote :: pattern where "quote = optional (one (\<lambda>r. r = 34))"
definition dash :: pattern where "dash = optional (one (\<lambda>r. r = 95 \<or> r = 45))"

text \<open>The two groups of \<open>sensitiveKeyPattern\<close>: the key with its separator, and the value.\<close>

definition key_names :: pattern where
  "key_names = alternatives
    [Then (any_case ''pass'') (optional (alternatives [any_case ''word'', any_case ''wd''])),
     any_case ''secret'', any_case ''token'', sequence [any_case ''auth'', dash, any_case ''token''],
     any_case ''authtoken'', any_case ''authorization'', sequence [any_case ''api'', dash, any_case ''key''],
     any_case ''apikey'', any_case ''cookie'',
     Then (any_case ''session'') (optional (Then dash (any_case ''id''))),
     any_case ''bearer'', any_case ''credential'']"

definition key_part :: pattern where
  "key_part = sequence [quote, WordBoundary, key_names, WordBoundary, quote, Repeat 0 None blank,
     one (\<lambda>r. r = 58 \<or> r = 61), Repeat 0 None blank]"

definition value_part :: pattern where
  "value_part = alternatives
    [sequence [one (\<lambda>r. r = 34), Repeat 0 None (\<lambda>r. r \<noteq> 34), one (\<lambda>r. r = 34)],
     sequence [one (\<lambda>r. r = 39), Repeat 0 None (\<lambda>r. r \<noteq> 39), one (\<lambda>r. r = 39)],
     Repeat 1 None (\<lambda>r. \<not> blank r \<and> r \<notin> {44, 59, 38, 125})]"

text \<open>The first match of both groups, with the end of the first one.\<close>

definition first_split :: "pattern \<Rightarrow> pattern \<Rightarrow> text_runes \<Rightarrow> nat \<Rightarrow> (nat \<times> nat) option" where
  "first_split p q t i = (case concat (map (\<lambda>m. map (Pair m) (ends q t m)) (ends p t i)) of
      [] \<Rightarrow> None | x # xs \<Rightarrow> Some x)"

definition redact_keys :: "text_runes \<Rightarrow> text_runes" where
  "redact_keys s = replace_from (\<lambda>t i. map_option
     (\<lambda>(m, j). (j, take (m - i) (drop i t) @ redactionPlaceholder)) (first_split key_part value_part t i)) s 0"

definition urlInErrorPattern :: pattern where
  "urlInErrorPattern = sequence [WordBoundary,
     alternatives [Then (literal ''http'') (optional (literal ''s'')), Then (literal ''ws'') (optional (literal ''s''))],
     literal ''://'', Repeat 1 None (\<lambda>r. \<not> blank r \<and> r \<notin> {34, 39, 92})]"

text \<open>\<open>show\<close> is \<open>URL.String\<close>; a URL's \<open>u_user\<close> says whether it has user information.\<close>

definition redactURL :: "url_library \<Rightarrow> (parsed_url \<Rightarrow> text_runes) \<Rightarrow> text_runes \<Rightarrow> text_runes" where
  "redactURL lib show_url raw = (case url_parse lib raw of
      None \<Rightarrow> redactionPlaceholder
    | Some u \<Rightarrow>
       (let u = u\<lparr>u_user := False, u_fragment := []\<rparr> in
        show_url (if u_rawQuery u \<noteq> [] then u\<lparr>u_rawQuery := redactionPlaceholder\<rparr> else u)))"

definition redact_urls :: "url_library \<Rightarrow> (parsed_url \<Rightarrow> text_runes) \<Rightarrow> text_runes \<Rightarrow> text_runes" where
  "redact_urls lib show_url s = replace_from (\<lambda>t i. map_option
     (\<lambda>j. (j, redactURL lib show_url (take (j - i) (drop i t)))) (first_end urlInErrorPattern t i)) s 0"

definition go_redactor :: "url_library \<Rightarrow> (parsed_url \<Rightarrow> text_runes) \<Rightarrow> redactor" where
  "go_redactor lib show_url = \<lparr>rd_urls = redact_urls lib show_url, rd_keys = redact_keys, rd_opaque = redact_opaque\<rparr>"

section \<open>Examples\<close>

lemma redacts_password:
  "redact_keys (runes ''login Password=hunter2, ok'') = runes ''login Password=<redacted>, ok''"
  by code_simp

text \<open>
  The value of the third alternative ends at a blank: of an authorization header only the scheme is
  replaced, and what follows is left to the pattern of long tokens.
\<close>

lemma bearer_token_stays:
  "redact_opaque (redact_keys (runes ''Authorization: Bearer s3cr3t'')) = runes ''Authorization: <redacted> s3cr3t''"
  by code_simp

end
