(* ===== verification/Redaction_Properties.thy ===== *)
theory Redaction_Properties
  imports Redaction
begin

text \<open>
  What redaction guarantees: no run of 24 letters, digits and underscores survives it, so neither
  the errors of a request nor those of any classified failure can carry a session token.
\<close>

section \<open>Texts without tokens\<close>

text \<open>No 24 word characters in a row; \<open>n\<close> of them precede the text.\<close>

fun token_free :: "nat \<Rightarrow> text_runes \<Rightarrow> bool" where
  "token_free n [] = True"
| "token_free n (r # rs) = (if is_word r then n + 1 < 24 \<and> token_free (n + 1) rs else token_free 0 rs)"

definition no_token :: "text_runes \<Rightarrow> bool" where "no_token t \<longleftrightarrow> token_free 0 t"

abbreviation word_run :: "text_runes \<Rightarrow> nat" where "word_run t \<equiv> length (takeWhile is_word t)"

lemma token_free_iff:
  "n < 24 \<Longrightarrow> token_free n t \<longleftrightarrow> n + word_run t < 24 \<and> token_free 0 (dropWhile is_word t)"
proof (induction t arbitrary: n)
  case (Cons r t)
  show ?case
  proof (cases "is_word r \<and> n + 1 < 24")
    case True
    with Cons.IH [of "n + 1"] show ?thesis by simp
  qed (use Cons.prems in auto)
qed simp

lemma no_token_iff: "no_token t \<longleftrightarrow> word_run t < 24 \<and> no_token (dropWhile is_word t)"
  using token_free_iff [of 0 t] by (simp add: no_token_def)

lemma no_token_Cons [simp]: "\<not> is_word r \<Longrightarrow> no_token (r # t) \<longleftrightarrow> no_token t"
  by (simp add: no_token_def)

lemma no_token_append_word:
  "no_token (p @ m @ q) \<Longrightarrow> list_all is_word m \<Longrightarrow> length m < 24"
proof -
  have "token_free n (p @ m @ q) \<Longrightarrow> \<exists>k. token_free k (m @ q)" for n
    by (induction p arbitrary: n) (auto split: if_splits)
  moreover have "token_free k (m @ q) \<Longrightarrow> list_all is_word m \<Longrightarrow> length m = 0 \<or> k + length m < 24" for k
    by (induction m arbitrary: k) fastforce+
  ultimately show "no_token (p @ m @ q) \<Longrightarrow> list_all is_word m \<Longrightarrow> length m < 24"
    unfolding no_token_def by fastforce
qed

lemma token_free_nonword: "\<not> is_word r \<Longrightarrow> token_free n (s @ r # t) \<longleftrightarrow> token_free n s \<and> token_free 0 t"
  by (induction s arbitrary: n) auto

lemma no_token_append_nonword: "\<not> is_word r \<Longrightarrow> no_token (s @ r # t) \<longleftrightarrow> no_token s \<and> no_token t"
  by (simp add: no_token_def token_free_nonword)

lemma no_token_append_left: "no_token (s @ t) \<Longrightarrow> no_token s"
proof -
  have "token_free n (s @ t) \<Longrightarrow> token_free n s" for n
    by (induction s arbitrary: n) auto
  then show "no_token (s @ t) \<Longrightarrow> no_token s" by (simp add: no_token_def)
qed

section \<open>The pattern of tokens\<close>

lemma word_opaque: "is_word r \<Longrightarrow> opaque_class r"
  by (simp add: opaque_class_def)

lemma ends_Then: "set (ends (Then p q) t i) = (\<Union>m \<in> set (ends p t i). set (ends q t m))"
  by simp

lemma ends_Repeat: "j \<in> set (ends (Repeat lo hi P) t i) \<longleftrightarrow> i + lo \<le> j \<and> j \<le> i + class_run P t i hi"
proof
  assume a: "i + lo \<le> j \<and> j \<le> i + class_run P t i hi"
  then have "j = i + (j - i)" "j - i \<in> {lo ..< Suc (class_run P t i hi)}" by auto
  then have "j \<in> (\<lambda>n. i + n) ` {lo ..< Suc (class_run P t i hi)}" by (rule image_eqI)
  then show "j \<in> set (ends (Repeat lo hi P) t i)" by (simp del: upt_Suc)
qed auto

lemma class_run_le: "i \<le> length t \<Longrightarrow> i + class_run P t i hi \<le> length t"
  using length_takeWhile_le [of P "drop i t"] by (auto simp: class_run_def Let_def split: option.split)

lemma ends_WordBoundary: "j \<in> set (ends WordBoundary t i) \<longleftrightarrow> j = i \<and> boundary_at t i"
  by simp

lemma opaque_ends_iff:
  "j \<in> set (ends longOpaquePattern t i) \<longleftrightarrow> boundary_at t i \<and> boundary_at t j \<and>
   (\<exists>m. i + 24 \<le> m \<and> m \<le> i + class_run opaque_class t i None \<and>
      m + 0 \<le> j \<and> j \<le> m + class_run (\<lambda>r. r = 61) t m (Some 2))"
  unfolding longOpaquePattern_def ends_Then UN_iff Bex_def ends_Repeat ends_WordBoundary by blast

lemma opaque_ends:
  assumes "j \<in> set (ends longOpaquePattern t i)" and "i \<le> length t"
  shows "i < j \<and> j \<le> length t \<and> boundary_at t j"
proof -
  obtain m where m: "i + 24 \<le> m" "m \<le> i + class_run opaque_class t i None"
      "j \<le> m + class_run (\<lambda>r. r = 61) t m (Some 2)" "m + 0 \<le> j" "boundary_at t j"
    using assms(1) unfolding opaque_ends_iff by blast
  have "m \<le> length t" using m(2) class_run_le [OF assms(2), of opaque_class None] by simp
  with m class_run_le [of m t "\<lambda>r. r = 61" "Some 2"] show ?thesis by simp
qed

lemma word_run_boundary:
  assumes "0 < word_run (drop i t)"
  shows "boundary_at t (i + word_run (drop i t))"
proof -
  let ?n = "word_run (drop i t)"
  have n: "?n \<le> length (drop i t)" by (rule length_takeWhile_le)
  obtain k where k: "?n = Suc k" using assms by (cases ?n) simp_all
  then have "is_word (drop i t ! k)"
    by (metis lessI nth_mem set_takeWhileD takeWhile_nth)
  then have "word_at t (i + ?n - 1)"
    using k n by (simp add: word_at_def)
  moreover have "\<not> word_at t (i + ?n)"
    using nth_length_takeWhile [of is_word "drop i t"] by (auto simp: word_at_def)
  ultimately show ?thesis using assms by (simp add: boundary_at_def)
qed

lemma opaque_matches:
  assumes "boundary_at t i" and "24 \<le> word_run (drop i t)"
  shows "ends longOpaquePattern t i \<noteq> []"
proof -
  let ?m = "i + word_run (drop i t)"
  have "word_run s \<le> length (takeWhile opaque_class s)" for s
    by (induction s) (auto simp: word_opaque)
  then have "?m \<le> i + class_run opaque_class t i None"
    by (simp add: class_run_def)
  moreover have "boundary_at t ?m" using assms(2) by (intro word_run_boundary) linarith
  ultimately have "?m \<in> set (ends longOpaquePattern t i)"
    using assms unfolding opaque_ends_iff by (intro conjI exI [of _ ?m]) simp_all
  then show ?thesis by force
qed

section \<open>Replacing tokens\<close>

definition opaque_step :: "text_runes \<Rightarrow> nat \<Rightarrow> (nat \<times> text_runes) option" where
  "opaque_step t i = map_option (\<lambda>j. (j, redactionPlaceholder)) (first_end longOpaquePattern t i)"

lemma opaque_step_None: "opaque_step t i = None \<longleftrightarrow> ends longOpaquePattern t i = []"
  by (simp add: opaque_step_def first_end_def split: list.split)

lemma opaque_step_Some:
  assumes "opaque_step t i = Some (j, new)" and "i \<le> length t"
  shows "i < j \<and> j \<le> length t \<and> boundary_at t j \<and> new = redactionPlaceholder"
proof -
  have "j \<in> set (ends longOpaquePattern t i)" "new = redactionPlaceholder"
    using assms(1) by (auto simp: opaque_step_def first_end_def split: list.splits)
  with opaque_ends [OF _ assms(2)] show ?thesis by blast
qed

lemma drop_word_run:
  "i < length t \<Longrightarrow> word_run (drop i t) = (if is_word (t ! i) then Suc (word_run (drop (Suc i) t)) else 0)"
  by (simp add: Cons_nth_drop_Suc [symmetric])

text \<open>The rest of a replaced text: a token could only be a word run that goes on from before.\<close>

definition rest_ok :: "text_runes \<Rightarrow> nat \<Rightarrow> text_runes \<Rightarrow> bool" where
  "rest_ok t i out \<longleftrightarrow> no_token (dropWhile is_word out) \<and> word_run out \<le> word_run (drop i t) \<and>
     (boundary_at t i \<longrightarrow> word_run out < 24)"

lemma rest_no_token:
  assumes "rest_ok t i out" and "boundary_at t i \<or> \<not> word_at t i"
  shows "no_token out"
proof -
  have "word_run (drop i t) = 0" if "\<not> word_at t i"
    using that by (cases "i < length t") (auto simp: word_at_def drop_word_run)
  with assms show ?thesis unfolding no_token_iff [of out] by (auto simp: rest_ok_def)
qed

lemma placeholder_no_token: "no_token (redactionPlaceholder @ out) \<longleftrightarrow> no_token out"
  and placeholder_run: "word_run (redactionPlaceholder @ out) = 0"
proof -
  have ph: "redactionPlaceholder = 60 # [114, 101, 100, 97, 99, 116, 101, 100] @ [62]"
    by (simp add: redactionPlaceholder_def runes_def)
  have "no_token (redactionPlaceholder @ out) \<longleftrightarrow> no_token ([114, 101, 100, 97, 99, 116, 101, 100] @ 62 # out)"
    unfolding ph by (simp add: is_word_def)
  also have "\<dots> \<longleftrightarrow> no_token out"
    by (subst no_token_append_nonword) (simp_all add: is_word_def no_token_def)
  finally show "no_token (redactionPlaceholder @ out) \<longleftrightarrow> no_token out" .
  show "word_run (redactionPlaceholder @ out) = 0" unfolding ph by (simp add: is_word_def)
qed

lemma rest_ok_placeholder:
  assumes "rest_ok t j out" and "boundary_at t j"
  shows "rest_ok t i (redactionPlaceholder @ out)"
proof -
  have "no_token (redactionPlaceholder @ out)"
    using rest_no_token [OF assms(1)] assms(2) by (simp add: placeholder_no_token)
  then show ?thesis using no_token_iff [of "redactionPlaceholder @ out"] by (simp add: rest_ok_def placeholder_run)
qed

lemma boundary_after: "i < length t \<Longrightarrow> \<not> is_word (t ! i) \<Longrightarrow> boundary_at t (Suc i) \<or> \<not> word_at t (Suc i)"
  by (auto simp: boundary_at_def word_at_def)

lemma rest_ok_keep:
  assumes "rest_ok t (Suc i) out" and "i < length t" and "ends longOpaquePattern t i = []"
  shows "rest_ok t i (t ! i # out)"
proof (cases "is_word (t ! i)")
  case False
  then have "no_token out" using rest_no_token [OF assms(1)] boundary_after [OF assms(2)] by blast
  with False show ?thesis by (simp add: rest_ok_def)
next
  case True
  have le: "word_run (t ! i # out) \<le> word_run (drop i t)"
    using assms(1,2) True by (simp add: rest_ok_def drop_word_run)
  have "word_run (drop i t) < 24" if "boundary_at t i"
    using opaque_matches [OF that] assms(3) by (meson not_less)
  with le assms(1) True show ?thesis by (auto simp: rest_ok_def)
qed

lemma replace_rest_ok: "i \<le> length t \<Longrightarrow> rest_ok t i (replace_from opaque_step t i)"
proof (induction "length t - i" arbitrary: i rule: less_induct)
  case less
  show ?case
  proof (cases "i = length t")
    case True
    have "replace_from opaque_step t i = []"
      by (subst replace_from.simps) (simp add: True)
    then show ?thesis by (simp add: rest_ok_def no_token_def)
  next
    case False
    with less.prems have i: "i < length t" by simp
    show ?thesis
    proof (cases "opaque_step t i")
      case None
      with i have "replace_from opaque_step t i = t ! i # replace_from opaque_step t (Suc i)"
        by (simp add: replace_from.simps [of _ t i])
      with rest_ok_keep [OF less.hyps i] None i show ?thesis by (simp add: opaque_step_None)
    next
      case (Some x)
      obtain j new where x: "x = (j, new)" by (cases x)
      note step = opaque_step_Some [OF Some [unfolded x] less.prems]
      with i Some x have "replace_from opaque_step t i = redactionPlaceholder @ replace_from opaque_step t j"
        by (simp add: replace_from.simps [of _ t i])
      moreover have "rest_ok t j (replace_from opaque_step t j)"
        using less.hyps [of j] step i by (simp add: diff_less_mono2)
      ultimately show ?thesis using rest_ok_placeholder step by simp
    qed
  qed
qed

lemma redact_opaque_no_token: "no_token (redact_opaque s)"
proof -
  have "redact_opaque s = replace_from opaque_step s 0"
    by (simp add: redact_opaque_def opaque_step_def [abs_def])
  moreover have "boundary_at s 0 \<or> \<not> word_at s 0" by (simp add: boundary_at_def)
  ultimately show ?thesis using rest_no_token [OF replace_rest_ok [of 0 s]] by simp
qed

section \<open>Errors of requests\<close>

lemma redactSensitive_no_token: "no_token (redactSensitive (go_redactor lib show_url) s)"
  by (simp add: redactSensitive_def go_redactor_def redact_opaque_no_token)

lemma RedactError_no_token: "no_token (RedactError (go_redactor lib show_url) e)"
  by (cases e) (simp_all add: RedactError_def redactSensitive_no_token no_token_def [of "[]"])

text \<open>What a cut adds: the first bytes of a rune that was cut, none of them a word character.\<close>

lemma cut_bytes_prefix:
  "\<exists>p q t. s = p @ q \<and> cut_bytes n s = p @ t \<and> list_all (\<lambda>r. 0x110000 \<le> r) t"
proof (induction s arbitrary: n)
  case (Cons r s)
  show ?case
  proof (cases "rune_len r \<le> n")
    case True
    obtain p q t where "s = p @ q" "cut_bytes (n - rune_len r) s = p @ t" "list_all (\<lambda>r. 0x110000 \<le> r) t"
      using Cons.IH by blast
    with True show ?thesis by (intro exI [of _ "r # p"] exI [of _ q] exI [of _ t]) simp
  next
    case False
    then have "list_all (\<lambda>r. 0x110000 \<le> r) (map raw_byte (take n (rune_bytes r)))"
      using cut_rune_bytes [of n r] by (auto simp: list_all_iff)
    with False show ?thesis
      by (intro exI [of _ "[]"] exI [of _ "r # s"] exI [of _ "map raw_byte (take n (rune_bytes r))"]) simp
  qed
qed simp

lemma no_token_raw: "no_token t \<Longrightarrow> list_all (\<lambda>r. 0x110000 \<le> r) rs \<Longrightarrow> no_token (t @ rs)"
proof (induction rs arbitrary: t)
  case (Cons r rs)
  then have "no_token ([] :: text_runes)" "\<not> is_word r" by (auto simp: is_word_def no_token_def)
  then have "no_token (t @ [r])" using Cons.prems(1) no_token_append_nonword [of r t "[]"] by simp
  from Cons.IH [OF this] Cons.prems(2) show ?case by simp
qed simp

lemma cut_bytes_no_token:
  assumes "no_token s"
  shows "no_token (cut_bytes n s)"
proof -
  obtain p q t where "s = p @ q" "cut_bytes n s = p @ t" "list_all (\<lambda>r. 0x110000 \<le> r) t"
    using cut_bytes_prefix by blast
  with assms show ?thesis using no_token_append_left [of p q] no_token_raw [of p t] by simp
qed

lemma sanitizeErrorBody_no_token: "no_token (sanitizeErrorBody (go_redactor lib show_url) ulow path body known)"
proof -
  have omitted: "no_token (runes ''<response body omitted: authentication endpoint>'')"
      "no_token (runes ''<response body omitted: credential reflection>'')"
    by code_simp+
  have "no_token (t @ runes ''...(truncated)'')" if "no_token t" for t
  proof -
    have suffix: "runes ''...(truncated)'' = 46 # runes ''..(truncated)''" by code_simp
    have "no_token (runes ''..(truncated)'')" by code_simp
    with that show ?thesis unfolding suffix by (subst no_token_append_nonword) (simp_all add: is_word_def)
  qed
  then have "no_token (cut_bytes 500 (redactSensitive (go_redactor lib show_url) body) @ runes ''...(truncated)'')"
    by (simp add: cut_bytes_no_token redactSensitive_no_token)
  then show ?thesis
    by (simp add: sanitizeErrorBody_def Let_def omitted redactSensitive_no_token)
qed

text \<open>The part of an error that comes from the device or from the libraries: a detail or a body.\<close>

fun shown_of :: "errval \<Rightarrow> text_runes" where
  "shown_of (Device kind operation detail s) = detail"
| "shown_of (APIError path status body) = body"
| "shown_of (Wrap pre e post) = shown_of e"
| "shown_of e = message e"

lemma newDeviceError_no_token:
  "as_device e = None \<Longrightarrow> no_token (shown_of (newDeviceError (go_redactor lib show_url) kind operation (Some e)))"
  by (simp add: newDeviceError_def RedactError_no_token)

lemma http_reply_no_token:
  assumes "hc_redactor hc = go_redactor lib show_url"
    and "http_reply hc path decode zero status body = Inl err"
  shows "no_token (shown_of err)"
proof -
  have limit: "no_token (runes ''response exceeded '' @ decimal maxHTTPResponseBytes @ runes ''-byte limit'')"
  proof -
    have "decimal maxHTTPResponseBytes = runes ''1048576''"
      by (simp add: maxHTTPResponseBytes_def decimal.simps runes_def)
    moreover have "no_token (runes ''response exceeded '' @ runes ''1048576'' @ runes ''-byte limit'')"
      by code_simp
    ultimately show ?thesis by simp
  qed
  from assms show ?thesis
    by (auto simp: http_reply_def Let_def limit sanitizeErrorBody_no_token newDeviceError_no_token
        split: if_splits option.splits sum.splits)
qed

lemma http_do_no_token:
  assumes "hc_redactor hc = go_redactor lib show_url"
    and "http_do hc meth path decode zero outcome = Inl err"
  shows "no_token (shown_of err)"
proof (cases outcome)
  case (TransportFailed e netTimeout ctxDone)
  with assms show ?thesis by (auto simp: http_do_def newDeviceError_no_token)
next
  case (Responded status stream failure)
  show ?thesis
  proof (cases failure)
    case None
    with assms Responded show ?thesis by (auto simp: http_do_def intro: http_reply_no_token)
  next
    case (Some x)
    with assms Responded show ?thesis by (cases x) (auto simp: http_do_def newDeviceError_no_token)
  qed
qed

text \<open>
  C30. No error of a request shows a token: whatever the transport reported or the device answered,
  the detail or the quoted body in the error of \<open>do\<close> has no 24 letters, digits or underscores in a
  row, also after the cut of long bodies, and this holds of every text that \<open>redactSensitive\<close> returns.
\<close>

theorem errors_show_no_token:
  assumes "hc_redactor hc = go_redactor lib show_url"
    and "http_do hc meth path decode zero outcome = Inl err"
  shows "no_token (shown_of err) \<and> no_token (redactSensitive (hc_redactor hc) s)"
  using http_do_no_token [OF assms] assms(1) redactSensitive_no_token by simp

definition sample_library :: url_library where
  "sample_library = \<lparr>url_parse = (\<lambda>_. None), url_print = (\<lambda>_ _. []), ip_parse = (\<lambda>_. None), ip_loopback = (\<lambda>_. False)\<rparr>"

definition sample_client :: http_client where
  "sample_client = \<lparr>hc_redactor = go_redactor sample_library u_path, hc_lower = (\<lambda>r. r), hc_known = []\<rparr>"

definition sample_body :: "byte list" where
  "sample_body = map of_int (runes ''id 0123456789abcdef01234567 seen'')"

lemma sample_error: "http_do sample_client (runes ''GET'') (runes ''/device'') None ()
    (Responded 500 sample_body None) = Inl (APIError (runes ''/device'') 500 (runes ''id <redacted> seen''))"
proof -
  have "length sample_body = 32" by code_simp
  then have fits: "length sample_body \<le> maxHTTPResponseBytes" by (simp add: maxHTTPResponseBytes_def)
  have "sanitizeErrorBody (hc_redactor sample_client) (hc_lower sample_client) (runes ''/device'')
      (decode_utf8 sample_body) (hc_known sample_client) = runes ''id <redacted> seen''"
    by code_simp
  with fits show ?thesis by (simp add: http_do_def http_reply_def Let_def)
qed

theorem errors_show_no_token_witness:
  "no_token (runes ''id <redacted> seen'') \<and> no_token (redactSensitive (hc_redactor sample_client) (runes ''abc''))"
  using errors_show_no_token [OF _ sample_error, of sample_library u_path] by (simp add: sample_client_def)

end
