(* ===== verification/Actions.thy ===== *)
theory Actions
  imports Keymap
begin

text \<open>
  How the method catalog acts: \<open>catalog.go\<close> calls the client, the client talks to the device,
  and every such call can fail. A computation is a function from the environment and the
  trace so far to a result and the trace after it; a call appends itself to the trace with
  its success, and the environment answers from the whole history, so that nothing is
  assumed about the device. An error return of Go is \<open>Inl\<close>; \<open>andthen\<close> is its early return,
  \<open>finally\<close> its \<open>defer\<close>.
\<close>

section \<open>Values\<close>

text \<open>Decoded JSON. \<open>JFloat n\<close> is \<open>float64(n)\<close> of an integer \<open>n\<close>.\<close>

datatype json =
    JNull
  | JBool bool
  | JNum int
  | JFloat int
  | JStr text_runes
  | JArr "json list"
  | JObj "(string \<times> json) list"

text \<open>A Go format string with its arguments.\<close>

datatype message_text = Fmt string "json list"

datatype method_output =
    OText message_text
  | OJSON text_runes
  | OLines "method_output list"

text \<open>The errors callers ask for by identity, \<open>errors.Is\<close>.\<close>

datatype sentinel = ErrNeutralizeUnverified | ErrRPCAmbiguousDelivery | ErrHIDClosed

datatype method_error =
    ClientError text_runes
  | AuthorError message_text
  | SkipError message_text
  | KeyError key_error
  | ControlError control_error
  | TypeError type_error
  | EncodeError string text_runes
  | JSONError string text_runes
  | ControlDisabled
  | OCRError text_runes
  | EngineError text_runes
  | TimeoutError string
  | Sentinel sentinel
  | Joined "method_error list"

section \<open>Calls\<close>

text \<open>
  \<open>EvCall\<close> is \<open>Client.Call\<close> with its method and parameters; \<open>EvReleaseKeyboard True\<close> and
  \<open>EvPointer \<dots> True\<close> are sends on a background context. \<open>EvHold\<close> is the select between the
  timer and the context: its failure is the context's end.
\<close>

datatype kvm_event =
    EvConnect bool bool
  | EvClose
  | EvCall string "json option"
  | EvStatus
  | EvScreenshot
  | EvWriteFile string
  | EvLock
  | EvAcquire
  | EvRelease
  | EvKeyboard byte "byte list"
  | EvReleaseKeyboard bool
  | EvPointer u32 u32 byte bool
  | EvHold int
  | EvWheel byte byte
  | EvRetireSession

type_synonym trace = "(kvm_event \<times> bool) list"

text \<open>
  What is not the catalog's own: the device and client behind every call, the JSON text
  format, the Unicode tables, the OCR of a PNG, the SDK's check of required fields, and the
  SDK's console engine (a parameter of \<open>Catalog\<close>).
\<close>

record environment =
  en_answer :: "trace \<Rightarrow> kvm_event \<Rightarrow> text_runes + json"
  en_allowControl :: bool
  en_deviceID :: text_runes
  en_firmware :: text_runes
  en_ctxEnded :: "trace \<Rightarrow> bool"
  en_is :: "sentinel \<Rightarrow> text_runes \<Rightarrow> bool"
  en_unmarshal :: "text_runes \<Rightarrow> text_runes + json"
  en_marshal :: "json \<Rightarrow> text_runes + text_runes"
  en_lower :: "rune \<Rightarrow> rune"
  en_category :: "string \<Rightarrow> rune \<Rightarrow> bool"
  en_ocr :: "json \<Rightarrow> text_runes + text_runes"
  en_deadline :: "int option"
  en_substitute :: "text_runes \<Rightarrow> (string \<rightharpoonup> text_runes) \<Rightarrow> text_runes"
  en_required :: "string \<Rightarrow> string list option \<Rightarrow> text_runes option"

type_synonym 'a act = "environment \<Rightarrow> trace \<Rightarrow> (method_error + 'a) \<times> trace"

definition ret :: "'a \<Rightarrow> 'a act" where
  "ret a env tr = (Inr a, tr)"

definition fail :: "method_error \<Rightarrow> 'a act" where
  "fail e env tr = (Inl e, tr)"

definition andthen :: "'a act \<Rightarrow> ('a \<Rightarrow> 'b act) \<Rightarrow> 'b act" where
  "andthen m f env tr = (case m env tr of
      (Inl e, tr') \<Rightarrow> (Inl e, tr')
    | (Inr a, tr') \<Rightarrow> f a env tr')"

text \<open>A pure check of the client library.\<close>

definition check :: "('e \<Rightarrow> method_error) \<Rightarrow> 'e + 'a \<Rightarrow> 'a act" where
  "check g r = (case r of Inl e \<Rightarrow> fail (g e) | Inr a \<Rightarrow> ret a)"

text \<open>What an operation reads from its environment.\<close>

definition reading :: "(environment \<Rightarrow> 'a) \<Rightarrow> 'a act" where
  "reading f env tr = (Inr (f env), tr)"

text \<open>\<open>ctx.Err() != nil\<close> at this point of the history.\<close>

definition ctx_ended :: "bool act" where
  "ctx_ended env tr = (Inr (en_ctxEnded env tr), tr)"

definition perform :: "kvm_event \<Rightarrow> json act" where
  "perform ev env tr = (case en_answer env tr ev of
      Inl e \<Rightarrow> (Inl (ClientError e), tr @ [(ev, False)])
    | Inr j \<Rightarrow> (Inr j, tr @ [(ev, True)]))"

text \<open>\<open>defer\<close> of a call whose error is dropped, and a \<open>defer\<close> that acts only on an error.\<close>

definition finally_do :: "'a act \<Rightarrow> 'b act \<Rightarrow> 'a act" where
  "finally_do m cleanup env tr = (case m env tr of (r, tr') \<Rightarrow> (r, snd (cleanup env tr')))"

definition on_error :: "'a act \<Rightarrow> 'b act \<Rightarrow> 'a act" where
  "on_error m cleanup env tr = (case m env tr of
      (Inl e, tr') \<Rightarrow> (Inl e, snd (cleanup env tr'))
    | (Inr a, tr') \<Rightarrow> (Inr a, tr'))"

text \<open>A result taken as a value, and one put back.\<close>

definition attempt :: "'a act \<Rightarrow> (method_error + 'a) act" where
  "attempt m env tr = (case m env tr of (r, tr') \<Rightarrow> (Inr r, tr'))"

fun for_each :: "('x \<Rightarrow> 'b act) \<Rightarrow> 'x list \<Rightarrow> unit act" where
  "for_each f [] = ret ()"
| "for_each f (x # xs) = andthen (f x) (\<lambda>_. for_each f xs)"

section \<open>What a computation can put on the trace\<close>

text \<open>
  \<open>extends Q m\<close>: whatever the environment answers, \<open>m\<close> extends the trace, and by calls that
  satisfy \<open>Q\<close>. For a \<open>Q\<close> that holds of no calls and is kept by putting two extensions one
  after the other, there is one rule per combinator.
\<close>

definition extends :: "(trace \<Rightarrow> bool) \<Rightarrow> 'a act \<Rightarrow> bool" where
  "extends Q m \<longleftrightarrow> (\<forall>env tr. \<exists>ex. snd (m env tr) = tr @ ex \<and> Q ex)"

named_theorems extends_intros \<open>rules for \<open>extends\<close>, one per combinator\<close>

lemma extendsE:
  assumes "extends Q m"
  obtains ex where "snd (m env tr) = tr @ ex" "Q ex"
  using assms unfolding extends_def by blast

lemma extends_weaken: "extends Q m \<Longrightarrow> (\<And>ex. Q ex \<Longrightarrow> R ex) \<Longrightarrow> extends R m"
  unfolding extends_def by meson

lemma extends_perform:
  "Q [(ev, True)] \<Longrightarrow> Q [(ev, False)] \<Longrightarrow> extends Q (perform ev)"
  by (auto simp: extends_def perform_def split: sum.splits)

locale trace_property =
  fixes Q :: "trace \<Rightarrow> bool"
  assumes none: "Q []" and both: "Q a \<Longrightarrow> Q b \<Longrightarrow> Q (a @ b)"
begin

lemma ret_rule [extends_intros]: "extends Q (ret a)"
  by (simp add: extends_def ret_def none)

lemma fail_rule [extends_intros]: "extends Q (fail e)"
  by (simp add: extends_def fail_def none)

lemma reading_rule [extends_intros]: "extends Q (reading f)"
  by (simp add: extends_def reading_def none)

lemma ctx_ended_rule [extends_intros]: "extends Q ctx_ended"
  by (simp add: extends_def ctx_ended_def none)

lemma check_rule [extends_intros]: "extends Q (check g r)"
  by (cases r) (simp_all add: check_def ret_rule fail_rule)

lemma after:
  assumes "tr' = tr @ ex" "Q ex" "extends Q c"
  shows "\<exists>ex. snd (c env tr') = tr @ ex \<and> Q ex"
proof -
  obtain ex2 where "snd (c env (tr @ ex)) = (tr @ ex) @ ex2" "Q ex2"
    using extendsE [OF assms(3)] by blast
  with assms(1,2) both [of ex ex2] show ?thesis by auto
qed

lemma andthen_rule [extends_intros]:
  assumes "extends Q m" "\<And>a. extends Q (f a)"
  shows "extends Q (andthen m f)"
  unfolding extends_def
proof (intro allI)
  fix env tr
  obtain ex where ex: "snd (m env tr) = tr @ ex" "Q ex" using extendsE [OF assms(1)] by blast
  show "\<exists>ex. snd (andthen m f env tr) = tr @ ex \<and> Q ex"
  proof (cases "fst (m env tr)")
    case (Inl e)
    with ex show ?thesis by (cases "m env tr") (auto simp: andthen_def)
  next
    case (Inr a)
    with after [OF ex assms(2) [of a], of env] show ?thesis by (cases "m env tr") (auto simp: andthen_def)
  qed
qed

lemma finally_rule [extends_intros]:
  assumes "extends Q m" "extends Q c"
  shows "extends Q (finally_do m c)"
  unfolding extends_def
proof (intro allI)
  fix env tr
  obtain ex where "snd (m env tr) = tr @ ex" "Q ex" using extendsE [OF assms(1)] by blast
  from after [OF this assms(2), of env] show "\<exists>ex. snd (finally_do m c env tr) = tr @ ex \<and> Q ex"
    by (auto simp: finally_do_def split: prod.split)
qed

lemma on_error_rule [extends_intros]:
  assumes "extends Q m" "extends Q c"
  shows "extends Q (on_error m c)"
  unfolding extends_def
proof (intro allI)
  fix env tr
  obtain ex where ex: "snd (m env tr) = tr @ ex" "Q ex" using extendsE [OF assms(1)] by blast
  with after [OF ex assms(2), of env] show "\<exists>ex. snd (on_error m c env tr) = tr @ ex \<and> Q ex"
    by (auto simp: on_error_def split: prod.split sum.split)
qed

lemma attempt_rule [extends_intros]:
  assumes "extends Q m"
  shows "extends Q (attempt m)"
  using assms unfolding extends_def attempt_def by (auto split: prod.split) (metis snd_conv)

lemma if_rule [extends_intros]: "extends Q a \<Longrightarrow> extends Q b \<Longrightarrow> extends Q (if c then a else b)"
  by simp

lemma for_each_rule [extends_intros]: "(\<And>x. extends Q (f x)) \<Longrightarrow> extends Q (for_each f xs)"
  by (induction xs) (auto intro: ret_rule andthen_rule)

end

text \<open>Every call a computation makes is in \<open>A\<close>.\<close>

abbreviation emits :: "(kvm_event \<Rightarrow> bool) \<Rightarrow> 'a act \<Rightarrow> bool" where
  "emits A m \<equiv> extends (\<lambda>ex. \<forall>x \<in> set ex. A (fst x)) m"

interpretation calls: trace_property "\<lambda>ex. \<forall>x \<in> set ex. A (fst x)" for A
  by unfold_locales auto

lemma emits_perform [extends_intros]: "A ev \<Longrightarrow> emits A (perform ev)"
  by (rule extends_perform) simp_all

text \<open>
  The discipline of the control lease: input only while it is held, at most one acquisition
  at a time, no release of a lease that is not held.
\<close>

fun lease_run :: "bool \<Rightarrow> trace \<Rightarrow> bool option" where
  "lease_run held [] = Some held"
| "lease_run held ((ev, ok) # es) = (case ev of
      EvAcquire \<Rightarrow> (if held then None else lease_run ok es)
    | EvRelease \<Rightarrow> (if held then lease_run False es else None)
    | EvKeyboard _ _ \<Rightarrow> (if held then lease_run held es else None)
    | EvReleaseKeyboard _ \<Rightarrow> (if held then lease_run held es else None)
    | EvPointer _ _ _ _ \<Rightarrow> (if held then lease_run held es else None)
    | EvWheel _ _ \<Rightarrow> (if held then lease_run held es else None)
    | _ \<Rightarrow> lease_run held es)"

lemma lease_run_append:
  "lease_run h (a @ b) = (case lease_run h a of None \<Rightarrow> None | Some h' \<Rightarrow> lease_run h' b)"
  by (induction h a rule: lease_run.induct) (auto split: kvm_event.split)

text \<open>A computation that leaves the lease as it found it.\<close>

abbreviation steady :: "bool \<Rightarrow> 'a act \<Rightarrow> bool" where
  "steady h m \<equiv> extends (\<lambda>ex. lease_run h ex = Some h) m"

interpretation lease: trace_property "\<lambda>ex. lease_run h ex = Some h" for h
  by unfold_locales (auto simp: lease_run_append)

lemma steady_perform [extends_intros]:
  "lease_run h [(ev, True)] = Some h \<Longrightarrow> lease_run h [(ev, False)] = Some h \<Longrightarrow> steady h (perform ev)"
  by (rule extends_perform) simp_all

text \<open>The shape of every input operation: acquire, work under the lease, release.\<close>

definition with_lease :: "'a act \<Rightarrow> 'a act" where
  "with_lease body = andthen (perform EvAcquire) (\<lambda>_. finally_do body (perform EvRelease))"

lemma steady_with_lease [extends_intros]:
  assumes "steady True body"
  shows "steady False (with_lease body)"
  unfolding extends_def
proof (intro allI)
  fix env tr
  let ?tr = "tr @ [(EvAcquire, True)]"
  obtain ex where ex: "snd (body env ?tr) = ?tr @ ex" "lease_run True ex = Some True"
    using extendsE [OF assms] by blast
  show "\<exists>ex. snd (with_lease body env tr) = tr @ ex \<and> lease_run False ex = Some False"
  proof (cases "en_answer env tr EvAcquire")
    case (Inl e)
    then show ?thesis by (simp add: with_lease_def andthen_def perform_def)
  next
    case (Inr j)
    have "\<exists>ok. snd (with_lease body env tr) = tr @ ((EvAcquire, True) # ex @ [(EvRelease, ok)])"
      using Inr ex(1) by (auto simp: with_lease_def andthen_def perform_def finally_do_def
          split: prod.split sum.split)
    moreover have "lease_run False ((EvAcquire, True) # ex @ [(EvRelease, ok)]) = Some False" for ok
      using ex(2) by (simp add: lease_run_append)
    ultimately show ?thesis by blast
  qed
qed

lemma emits_with_lease [extends_intros]:
  "emits A body \<Longrightarrow> A EvAcquire \<Longrightarrow> A EvRelease \<Longrightarrow> emits A (with_lease body)"
  unfolding with_lease_def by (intro extends_intros)

end
