(* ===== verification/Params.thy ===== *)
theory Params
  imports Type_String
begin

text \<open>
  The typed input of the verb and of the device entity, \<open>params/cue_types_gen.go\<close>: the structs
  the schema generates, field by field. Go's \<open>int\<close> fields are integers;
  strings that are compared with literals are \<open>string\<close>s, strings that are typed, trimmed or
  sent are code points. Go's maps are maps.
\<close>

type_synonym JetkvmMethod = string

type_synonym JetkvmAction = string

type_synonym answers = "string \<rightharpoonup> text_runes"

record JetkvmMacroStep =
  ms_keys :: "text_runes list"
  ms_modifiers :: "text_runes list"
  ms_delay :: int

record JetkvmInstallStep =
  is_waitFor :: text_runes
  is_action :: text_runes
  is_keyName :: text_runes
  is_combo :: text_runes
  is_text :: text_runes
  is_timeoutSec :: int
  is_optional :: bool
  is_artifact :: text_runes
  is_description :: text_runes

record JetkvmSessionCommand =
  sc_command :: text_runes
  sc_sudo :: bool
  sc_expect :: text_runes
  sc_timeoutSec :: int
  sc_artifact :: text_runes
  sc_description :: text_runes

record JetkvmFlowOutcome =
  fo_name :: text_runes
  fo_match :: text_runes
  fo_reference :: text_runes
  fo_maxDistance :: int
  fo_failure :: bool

record JetkvmFlowNode =
  fn_description :: text_runes
  fn_wait :: "JetkvmFlowOutcome list"
  fn_key :: text_runes
  fn_combo :: text_runes
  fn_text :: text_runes
  fn_command :: text_runes
  fn_sudo :: bool
  fn_expect :: text_runes
  fn_closeTerminal :: bool
  fn_transitions :: "string \<rightharpoonup> text_runes"
  fn_next :: text_runes
  fn_artifact :: text_runes
  fn_timeoutSec :: int

record JetkvmInput =
  in_method :: JetkvmMethod
  in_host :: text_runes
  in_password :: text_runes
  in_passwordSecret :: text_runes
  in_authToken :: text_runes
  in_allowControl :: bool
  in_insecure :: bool
  in_text :: text_runes
  in_keyName :: text_runes
  in_combo :: text_runes
  in_holdMs :: int
  in_x :: int
  in_y :: int
  in_fromX :: int
  in_fromY :: int
  in_button :: string
  in_scrollX :: int
  in_scrollY :: int
  in_macro :: "JetkvmMacroStep list"
  in_action :: JetkvmAction
  in_mediaUrl :: text_runes
  in_mediaFile :: text_runes
  in_mediaMode :: text_runes
  in_usbDevice :: string
  in_usbEnabled :: bool
  in_value :: text_runes
  in_intValue :: int
  in_settings :: text_runes
  in_rpcMethod :: string
  in_rpcParams :: text_runes
  in_steps :: "JetkvmInstallStep list"
  in_device :: text_runes
  in_recipe :: text_runes
  in_answers :: answers
  in_answerSecrets :: "string \<rightharpoonup> text_runes"
  in_answersEnv :: "string \<rightharpoonup> text_runes"
  in_terminalCombo :: text_runes
  in_promptAnchors :: "text_runes list"
  in_commands :: "JetkvmSessionCommand list"
  in_closeTerminal :: bool
  in_sudoPassword :: text_runes
  in_sudoPasswordSecret :: text_runes
  in_passphrase :: text_runes
  in_passphraseSecret :: text_runes
  in_outcomes :: "text_runes list"
  in_flowStart :: text_runes
  in_flowNodes :: "(string \<times> JetkvmFlowNode) list"
  in_flowMaxSteps :: int
  in_flowMaxLoops :: int
  in_flowResume :: bool
  in_flowResumeOrder :: "text_runes list"
  in_bootOrderAction :: text_runes
  in_bootOrderEntry :: text_runes
  in_bootOrderSequence :: text_runes
  in_bootOrderCommand :: text_runes
  in_artifact :: string
  in_artifactDir :: text_runes
  in_sessionId :: text_runes
  in_stateDir :: text_runes
  in_fps :: int
  in_durationSec :: int
  in_logDir :: text_runes
  in_venue :: text_runes
  in_phase :: text_runes
  in_artifactMinBytes :: int
  in_artifactMinDimensions :: text_runes
  in_artifactNotUniform :: bool
  in_artifactContainsText :: text_runes

text \<open>The zero value of the struct, from which the code's composite literals start.\<close>

definition zero_input :: JetkvmInput where
  "zero_input = \<lparr>in_method = [], in_host = [], in_password = [], in_passwordSecret = [],
     in_authToken = [], in_allowControl = False, in_insecure = False, in_text = [], in_keyName = [],
     in_combo = [], in_holdMs = 0, in_x = 0, in_y = 0, in_fromX = 0, in_fromY = 0, in_button = [],
     in_scrollX = 0, in_scrollY = 0, in_macro = [], in_action = [], in_mediaUrl = [],
     in_mediaFile = [], in_mediaMode = [], in_usbDevice = [], in_usbEnabled = False, in_value = [],
     in_intValue = 0, in_settings = [], in_rpcMethod = [], in_rpcParams = [], in_steps = [],
     in_device = [], in_recipe = [], in_answers = (\<lambda>_. None), in_answerSecrets = (\<lambda>_. None),
     in_answersEnv = (\<lambda>_. None), in_terminalCombo = [], in_promptAnchors = [], in_commands = [],
     in_closeTerminal = False, in_sudoPassword = [], in_sudoPasswordSecret = [], in_passphrase = [],
     in_passphraseSecret = [], in_outcomes = [], in_flowStart = [], in_flowNodes = [],
     in_flowMaxSteps = 0, in_flowMaxLoops = 0, in_flowResume = False, in_flowResumeOrder = [],
     in_bootOrderAction = [], in_bootOrderEntry = [], in_bootOrderSequence = [],
     in_bootOrderCommand = [], in_artifact = [], in_artifactDir = [], in_sessionId = [],
     in_stateDir = [], in_fps = 0, in_durationSec = 0, in_logDir = [], in_venue = [], in_phase = [],
     in_artifactMinBytes = 0, in_artifactMinDimensions = [], in_artifactNotUniform = False,
     in_artifactContainsText = []\<rparr>"

record JetkvmInstaller =
  iv_recipes :: "(text_runes \<times> JetkvmInstallStep list) list"
  iv_steps :: "JetkvmInstallStep list"
  iv_answers :: answers
  iv_answerSecrets :: "string \<rightharpoonup> text_runes"
  iv_answersEnv :: "string \<rightharpoonup> text_runes"

record JetkvmDeviceInput =
  dv_host :: text_runes
  dv_insecure :: bool
  dv_passwordSecret :: text_runes
  dv_description :: text_runes
  dv_installer :: "JetkvmInstaller option"

end
