(* ===== verification/Catalog.thy ===== *)
theory Catalog
  imports Actions Params "HOL-Library.List_Lexorder"
begin

text \<open>
  The methods of the catalog, \<open>catalog.go\<close>: one function per method, in the order of the file,
  over the calls of \<open>Actions\<close>; the legacy scroll operation of \<open>client.go\<close>, which the catalog's
  \<open>scroll\<close> uses.
\<close>

section \<open>Helpers\<close>

definition trimErrMsg :: "text_runes \<Rightarrow> text_runes" where
  "trimErrMsg s = map (\<lambda>r. if r = 10 then 32 else r) (trim_space s)"

definition maxCoordinate :: int where "maxCoordinate = 32767"

definition in_coordinate_range :: "int \<Rightarrow> bool" where
  "in_coordinate_range v \<longleftrightarrow> \<not> (v < 0 \<or> v > maxCoordinate)"

definition coordinate_error :: "int \<Rightarrow> method_error" where
  "coordinate_error v = AuthorError (Fmt ''coordinate %d out of range 0..%d'' [JNum v, JNum maxCoordinate])"

definition validateCoord :: "int \<Rightarrow> int \<Rightarrow> method_error + unit" where
  "validateCoord x y = (if \<not> in_coordinate_range x then Inl (coordinate_error x)
     else if \<not> in_coordinate_range y then Inl (coordinate_error y) else Inr ())"

definition int8clamp :: "int \<Rightarrow> byte" where
  "int8clamp v = (if v > 127 then 127 else if v < -128 then word_of_int (-128) else word_of_int v)"

definition parseBool :: "(rune \<Rightarrow> rune) \<Rightarrow> text_runes \<Rightarrow> bool option" where
  "parseBool ulow s =
    (let t = map (to_lower ulow) (trim_space s) in
     if t \<in> {runes ''true'', runes ''1'', runes ''yes'', runes ''on''} then Some True
     else if t \<in> {runes ''false'', runes ''0'', runes ''no'', runes ''off''} then Some False
     else None)"

section \<open>Observation\<close>

definition said :: "string \<Rightarrow> json list \<Rightarrow> method_output" where
  "said f args = OText (Fmt f args)"

definition refuse :: "string \<Rightarrow> json list \<Rightarrow> 'a act" where
  "refuse f args = fail (AuthorError (Fmt f args))"

definition marshal_result :: "string \<Rightarrow> json \<Rightarrow> method_output act" where
  "marshal_result what j = andthen (reading en_marshal)
     (\<lambda>marshal. andthen (check (EncodeError what) (marshal j)) (\<lambda>b. ret (OJSON b)))"

definition callSummary :: "string \<Rightarrow> json option \<Rightarrow> method_output act" where
  "callSummary rpc p = andthen (perform (EvCall rpc p)) (marshal_result rpc)"

text \<open>The methods that call and then answer with a line of their own.\<close>

definition call_then_say :: "string \<Rightarrow> json option \<Rightarrow> method_output \<Rightarrow> method_output act" where
  "call_then_say rpc p out = andthen (callSummary rpc p) (\<lambda>_. ret out)"

definition methodStatus :: "method_output act" where
  "methodStatus = andthen (perform EvStatus) (\<lambda>_. andthen (reading id) (\<lambda>env.
     ret (OLines [said ''jetkvm:    ok'' [], said ''device_id: %s'' [JStr (en_deviceID env)],
                  said ''firmware:  %s'' [JStr (en_firmware env)], said ''rpc:       %v'' [JBool True]])))"

definition methodScreenshot :: "JetkvmInput \<Rightarrow> method_output act" where
  "methodScreenshot inp = andthen (perform EvScreenshot) (\<lambda>shot.
     andthen (perform (EvWriteFile (in_artifact inp))) (\<lambda>_.
       ret (said ''Screenshot saved to %s (%dx%d)'' [JStr (runes (in_artifact inp)), shot])))"

definition trim_output :: "method_output \<Rightarrow> method_output" where
  "trim_output out = (case out of OJSON t \<Rightarrow> OJSON (trim_space t) | _ \<Rightarrow> out)"

definition methodExtensions :: "method_output act" where
  "methodExtensions = andthen (callSummary ''getActiveExtension'' None) (\<lambda>active.
     ret (OLines [trim_output active, said ''supported: atx-power, dc-power'' []]))"

definition methodPublicIP :: "method_output act" where
  "methodPublicIP = callSummary ''getPublicIPAddresses'' (Some (JObj [(''refresh'', JBool True)]))"

definition error_line :: "string \<Rightarrow> method_error \<Rightarrow> method_output" where
  "error_line m e = said ''%s: error: %s'' [JStr (runes m),
     JStr (case e of ClientError t \<Rightarrow> trimErrMsg t | _ \<Rightarrow> [])]"

fun diagnostics_lines :: "string list \<Rightarrow> method_output list act" where
  "diagnostics_lines [] = ret []"
| "diagnostics_lines (m # ms) = andthen (attempt (perform (EvCall m None))) (\<lambda>r.
     andthen (case r of
         Inl e \<Rightarrow> ret (error_line m e)
       | Inr j \<Rightarrow> ret (said ''%s: %s'' [JStr (runes m), j])) (\<lambda>line.
     andthen (diagnostics_lines ms) (\<lambda>lines. ret (line # lines))))"

definition methodDiagnostics :: "method_output act" where
  "methodDiagnostics = andthen (reading id) (\<lambda>env. andthen
     (diagnostics_lines [''getVideoState'', ''getUSBState'', ''getNetworkState'',
        ''getActiveExtension'', ''getATXState'']) (\<lambda>lines.
     ret (OLines (said ''device_id: %s'' [JStr (en_deviceID env)] #
                  said ''firmware:  %s'' [JStr (en_firmware env)] # lines))))"

definition methodCheckMediaURL :: "JetkvmInput \<Rightarrow> method_output act" where
  "methodCheckMediaURL inp =
    (if in_mediaUrl inp = [] then refuse ''check-media-url requires media_url'' []
     else callSummary ''checkMountUrl'' (Some (JObj [(''url'', JStr (in_mediaUrl inp))])))"

text \<open>\<open>ocr.go\<close>. The OCR of the captured image is the environment's.\<close>

definition methodOcr :: "JetkvmInput \<Rightarrow> method_output act" where
  "methodOcr inp =
    (if trim_space (in_text inp) = [] then refuse ''ocr requires text (the expected on-screen string)'' []
     else andthen (perform EvScreenshot) (\<lambda>shot.
       andthen (if in_artifact inp \<noteq> [] then andthen (perform (EvWriteFile (in_artifact inp))) (\<lambda>_. ret ())
                else ret ()) (\<lambda>_.
       andthen (reading id) (\<lambda>env.
       andthen (check OCRError (en_ocr env shot)) (\<lambda>got.
       if \<not> contains (map (to_lower (en_lower env)) got) (map (to_lower (en_lower env)) (in_text inp))
       then refuse ''ocr: the screen text does not contain %q'' [JStr (in_text inp)]
       else ret (said ''The screen text contains %q (read %d characters)'' [JStr (in_text inp)]))))))"

section \<open>Keyboard\<close>

definition holdDefaultMS :: int where "holdDefaultMS = 40"

definition ControlLease :: "unit act" where
  "ControlLease = andthen (reading en_allowControl) (\<lambda>a. if a then ret () else fail ControlDisabled)"

definition resolve :: "text_runes \<Rightarrow> (byte \<times> byte list) act" where
  "resolve name = andthen (reading en_lower) (\<lambda>ulow. check KeyError (ResolveKeyCombo ulow name))"

definition join :: "text_runes list \<Rightarrow> text_runes" where
  "join parts = (case parts of [] \<Rightarrow> [] | p # ps \<Rightarrow> p @ concat (map (\<lambda>q. runes ''+'' @ q) ps))"

definition resolveMacroStep :: "JetkvmMacroStep \<Rightarrow> (byte \<times> byte list) act" where
  "resolveMacroStep step =
    (let mods = sort (ms_modifiers step) in
     case (ms_keys step, mods) of
        ([k], []) \<Rightarrow> resolve k
      | _ \<Rightarrow> resolve (join (mods @ ms_keys step)))"

definition pressAndRelease :: "byte \<Rightarrow> byte list \<Rightarrow> int \<Rightarrow> unit act" where
  "pressAndRelease md keys holdMS =
    andthen (perform (EvKeyboard md keys)) (\<lambda>_.
      on_error
        (andthen (perform (EvHold holdMS)) (\<lambda>_.
         andthen (perform (EvReleaseKeyboard False)) (\<lambda>_. ret ())))
        (perform (EvReleaseKeyboard True)))"

definition macro_step :: "int \<Rightarrow> JetkvmMacroStep \<Rightarrow> unit act" where
  "macro_step hold step = andthen (resolveMacroStep step) (\<lambda>(md, keys).
     pressAndRelease md keys (if ms_delay step = 0 then hold else ms_delay step))"

definition press_named :: "text_runes \<Rightarrow> int \<Rightarrow> method_output \<Rightarrow> method_output act" where
  "press_named name hold out = andthen (resolve name) (\<lambda>(md, keys).
     andthen (pressAndRelease md keys hold) (\<lambda>_. ret out))"

definition methodKeys :: "JetkvmInput \<Rightarrow> method_output act" where
  "methodKeys inp =
    (let hold = (if in_holdMs inp = 0 then holdDefaultMS else in_holdMs inp) in
     andthen (check ControlError (ValidateHoldMS hold)) (\<lambda>_.
     andthen ControlLease (\<lambda>_.
     with_lease
       (if in_method inp = ''key'' then
          press_named (in_keyName inp) hold (said ''Pressed key %s'' [JStr (in_keyName inp)])
        else if in_method inp = ''key-combo'' then
          press_named (in_combo inp) hold (said ''Pressed combo %s'' [JStr (in_combo inp)])
        else if in_macro inp = [] then refuse ''macro requires at least one macro step'' []
        else andthen (for_each (macro_step hold) (in_macro inp)) (\<lambda>_.
          ret (said ''Ran macro with %d step(s)'' [JNum (int (length (in_macro inp)))]))))))"

definition type_report :: "typed_report \<Rightarrow> unit act" where
  "type_report p = andthen (perform (EvKeyboard (tr_modifier p) (tr_keys p))) (\<lambda>_.
     andthen (perform (EvReleaseKeyboard False)) (\<lambda>_. ret ()))"

definition methodType :: "JetkvmInput \<Rightarrow> method_output act" where
  "methodType inp =
    (if in_text inp = [] then refuse ''type requires text'' []
     else andthen ControlLease (\<lambda>_. with_lease
       (andthen (reading en_category) (\<lambda>cat.
        andthen (check TypeError (MapTypeReports cat (in_text inp))) (\<lambda>presses.
        andthen (for_each type_report presses) (\<lambda>_.
        ret (said ''Typed %d characters'' [JNum (int (length (in_text inp)))])))))))"

section \<open>Pointer\<close>

definition send_pointer :: "int \<Rightarrow> int \<Rightarrow> byte \<Rightarrow> bool \<Rightarrow> json act" where
  "send_pointer x y buttons background =
     perform (EvPointer (word_of_int x) (word_of_int y) buttons background)"

definition button_label :: "JetkvmInput \<Rightarrow> string" where
  "button_label inp = (if in_button inp = [] then ''left'' else in_button inp)"

definition methodPointer :: "JetkvmInput \<Rightarrow> method_output act" where
  "methodPointer inp =
    (let press = (in_method inp = ''click''); label = button_label inp;
         at = [JNum (in_x inp), JNum (in_y inp)] in
     andthen (check id (validateCoord (in_x inp) (in_y inp))) (\<lambda>_.
     andthen ControlLease (\<lambda>_. with_lease
       (andthen (if press \<or> in_button inp \<noteq> []
                 then andthen (check ControlError (ResolveMouseButton label ''press'')) (\<lambda>(b, _). ret b)
                 else ret 0) (\<lambda>button.
        andthen (send_pointer (in_x inp) (in_y inp) 0 False) (\<lambda>_.
        if \<not> press then ret (said ''Moved pointer to (%d, %d)'' at)
        else andthen (send_pointer (in_x inp) (in_y inp) button False) (\<lambda>_.
          andthen (send_pointer (in_x inp) (in_y inp) 0 False) (\<lambda>_.
          ret (said ''Clicked %s at (%d, %d)'' (JStr (runes label) # at))))))))))"

text \<open>\<open>Client.Scroll\<close> of \<open>client.go\<close>: the wheel is not tied to a lease token, so it is sent while the
  lease is held, and the session is retired when its delivery is ambiguous.\<close>

fun errors_is :: "environment \<Rightarrow> method_error \<Rightarrow> sentinel \<Rightarrow> bool" where
  "errors_is env (ClientError t) s = en_is env s t"
| "errors_is env (Sentinel s') s = (s' = s)"
| "errors_is env (Joined es) s = list_ex (\<lambda>e. errors_is env e s) es"
| "errors_is env _ s = False"

definition scroll_rpc :: "byte \<Rightarrow> byte \<Rightarrow> unit act" where
  "scroll_rpc dx dy = andthen (attempt (perform (EvWheel dx dy))) (\<lambda>r.
     case r of
       Inr _ \<Rightarrow> ret ()
     | Inl e \<Rightarrow> andthen (reading id) (\<lambda>en.
         if errors_is en e ErrRPCAmbiguousDelivery
         then andthen (attempt (perform EvRetireSession)) (\<lambda>_.
           fail (Joined [e, Sentinel ErrHIDClosed]))
         else fail e))"

text \<open>\<open>scrollResultAfterRelease\<close>, on the errors of the call and of the release: after the context has
  ended only the safety sentinels of these errors are kept.\<close>

definition scrollResultAfterRelease :: "method_error list \<Rightarrow> unit act" where
  "scrollResultAfterRelease errs = andthen (reading id) (\<lambda>env. andthen ctx_ended (\<lambda>ended.
     if \<not> ended then (if errs = [] then ret () else fail (Joined errs))
     else fail (Joined (TimeoutError ''completing scroll control operation'' #
       map Sentinel (filter (errors_is env (Joined errs))
         [ErrNeutralizeUnverified, ErrRPCAmbiguousDelivery, ErrHIDClosed])))))"

definition errors_of :: "method_error + 'a \<Rightarrow> method_error list" where
  "errors_of r = (case r of Inl e \<Rightarrow> [e] | Inr _ \<Rightarrow> [])"

definition release_after :: "unit act \<Rightarrow> unit act" where
  "release_after body = andthen (attempt body) (\<lambda>r. andthen (attempt (perform EvRelease)) (\<lambda>s.
     scrollResultAfterRelease (errors_of r @ errors_of s)))"

definition client_Scroll :: "byte \<Rightarrow> byte \<Rightarrow> unit act" where
  "client_Scroll dx dy =
    andthen (check ControlError (ValidateScroll (sint dx) (sint dy))) (\<lambda>_.
    andthen ControlLease (\<lambda>_.
    andthen (perform EvLock) (\<lambda>_.
    andthen (perform EvAcquire) (\<lambda>_. release_after (scroll_rpc dx dy)))))"

definition methodScroll :: "JetkvmInput \<Rightarrow> method_output act" where
  "methodScroll inp = andthen (client_Scroll (int8clamp (in_scrollX inp)) (int8clamp (in_scrollY inp)))
     (\<lambda>_. ret (said ''Scrolled by (%d, %d)'' [JNum (in_scrollX inp), JNum (in_scrollY inp)]))"

definition send_report :: "drag_report \<Rightarrow> json act" where
  "send_report r = send_pointer (dr_x r) (dr_y r) (word_of_int (dr_buttons r)) False"

definition methodDrag :: "JetkvmInput \<Rightarrow> method_output act" where
  "methodDrag inp =
    andthen (check id (validateCoord (in_fromX inp) (in_fromY inp))) (\<lambda>_.
    andthen (check id (validateCoord (in_x inp) (in_y inp))) (\<lambda>_.
    andthen ControlLease (\<lambda>_. with_lease
      (andthen (check ControlError (ResolveMouseButton (button_label inp) ''press'')) (\<lambda>(button, _).
       andthen (check ControlError (BuildPointerDrag \<lparr>FromX = in_fromX inp, FromY = in_fromY inp,
           ToX = in_x inp, ToY = in_y inp, Buttons = uint button, Steps = 0\<rparr>)) (\<lambda>reports.
       andthen (on_error (for_each send_report reports) (send_pointer (in_x inp) (in_y inp) 0 True)) (\<lambda>_.
       ret (said ''Dragged from (%d, %d) to (%d, %d)'' [JNum (in_fromX inp), JNum (in_fromY inp),
         JNum (in_x inp), JNum (in_y inp)]))))))))"

section \<open>Power\<close>

definition methodPower :: "JetkvmInput \<Rightarrow> method_output act" where
  "methodPower inp =
    (if in_action inp \<in> {''power-short'', ''power-long'', ''reset''} then
       call_then_say ''setATXPowerAction'' (Some (JObj [(''action'', JStr (runes (in_action inp)))]))
         (said ''ATX action %s sent'' [JStr (runes (in_action inp))])
     else refuse ''power: action must be power-short, power-long or reset (got %q)''
       [JStr (runes (in_action inp))])"

definition methodDCPower :: "JetkvmInput \<Rightarrow> method_output act" where
  "methodDCPower inp =
    (let a = in_action inp; out = said ''DC action %s sent'' [JStr (runes a)] in
     if a = ''on'' \<or> a = ''off'' then
       call_then_say ''setDCPowerState'' (Some (JObj [(''enabled'', JBool (a = ''on''))])) out
     else if a \<in> {''restore-on'', ''restore-off'', ''restore-last''} then
       call_then_say ''setDCRestoreState'' (Some (JObj [(''state'',
         JNum (if a = ''restore-off'' then 0 else if a = ''restore-on'' then 1 else 2))])) out
     else refuse ''dc-power: action must be on, off, restore-on, restore-off or restore-last (got %q)''
       [JStr (runes a)])"

definition methodReboot :: "method_output act" where
  "methodReboot = call_then_say ''reboot'' (Some (JObj [(''force'', JBool False)]))
     (said ''JetKVM reboot requested'' [])"

definition methodWOL :: "JetkvmInput \<Rightarrow> method_output act" where
  "methodWOL inp = call_then_say ''sendWOLMagicPacket'' (Some (JObj [(''macAddress'', JStr (in_value inp))]))
     (said ''WOL magic packet sent to %s'' [JStr (in_value inp)])"

definition methodWakeHost :: "method_output act" where
  "methodWakeHost = call_then_say ''wakeHost'' None
     (said ''HID wake report sent to the controlled host'' [])"

section \<open>Media and USB\<close>

definition methodVirtualMedia :: "JetkvmInput \<Rightarrow> method_output act" where
  "methodVirtualMedia inp =
    (let mode = (if in_mediaMode inp = [] then runes ''disk'' else in_mediaMode inp) in
     if in_action inp = ''mount-url'' then
       (if in_mediaUrl inp = [] then refuse ''virtual-media mount-url requires media_url'' []
        else call_then_say ''mountWithHTTP''
          (Some (JObj [(''url'', JStr (in_mediaUrl inp)), (''mode'', JStr mode)]))
          (said ''Mounted %s as %s'' [JStr (in_mediaUrl inp), JStr mode]))
     else if in_action inp = ''mount-storage'' then
       (if in_mediaFile inp = [] then refuse ''virtual-media mount-storage requires media_file'' []
        else call_then_say ''mountWithStorage''
          (Some (JObj [(''filename'', JStr (in_mediaFile inp)), (''mode'', JStr mode)]))
          (said ''Mounted %s as %s'' [JStr (in_mediaFile inp), JStr mode]))
     else if in_action inp = ''unmount'' then
       call_then_say ''unmountImage'' None (said ''Unmounted virtual media'' [])
     else if in_action inp = ''delete'' then
       (if in_mediaFile inp = [] then refuse ''virtual-media delete requires media_file'' []
        else call_then_say ''deleteStorageFile''
          (Some (JObj [(''filename'', JStr (in_mediaFile inp))]))
          (said ''Deleted %s'' [JStr (in_mediaFile inp)]))
     else refuse ''virtual-media: action must be mount-url, mount-storage, unmount or delete (got %q)''
       [JStr (runes (in_action inp))])"

definition methodUSBDevice :: "JetkvmInput \<Rightarrow> method_output act" where
  "methodUSBDevice inp =
    (let d = JStr (runes (in_usbDevice inp)); e = JBool (in_usbEnabled inp) in
     if in_usbDevice inp \<in> {''absolute_mouse'', ''relative_mouse'', ''keyboard'', ''mass_storage'',
         ''serial_console'', ''audio''} then
       call_then_say ''setUsbDeviceState'' (Some (JObj [(''device'', d), (''enabled'', e)]))
         (said ''USB device %s enabled=%v'' [d, e])
     else refuse ''usb-device: unsupported device %q'' [d])"

definition methodUSBEmulation :: "JetkvmInput \<Rightarrow> method_output act" where
  "methodUSBEmulation inp = call_then_say ''setUsbEmulationState''
     (Some (JObj [(''enabled'', JBool (in_usbEnabled inp))]))
     (said ''USB emulation enabled=%v'' [JBool (in_usbEnabled inp)])"

section \<open>Device configuration\<close>

definition methodSetScalar :: "string \<Rightarrow> string \<Rightarrow> text_runes \<Rightarrow> method_output act" where
  "methodSetScalar rpc field v =
    (if v = [] then refuse ''%s requires value'' [JStr (runes rpc)]
     else call_then_say rpc (Some (JObj [(field, JStr v)])) (said ''%s applied'' [JStr (runes rpc)]))"

definition methodSetBool :: "string \<Rightarrow> string \<Rightarrow> text_runes \<Rightarrow> method_output act" where
  "methodSetBool rpc field v = andthen (reading en_lower) (\<lambda>ulow. case parseBool ulow v of
      None \<Rightarrow> refuse ''%s requires value=true|false (got %q)'' [JStr (runes rpc), JStr v]
    | Some b \<Rightarrow> call_then_say rpc (Some (JObj [(field, JBool b)]))
        (said ''%s applied'' [JStr (runes rpc)]))"

definition unmarshal :: "string \<Rightarrow> text_runes \<Rightarrow> json act" where
  "unmarshal what s = andthen (reading en_unmarshal) (\<lambda>parse. check (JSONError what) (parse s))"

definition methodSetJSON :: "string \<Rightarrow> text_runes \<Rightarrow> method_output act" where
  "methodSetJSON rpc settings =
    (if trim_space settings = [] then refuse ''%s requires settings (a JSON value)'' [JStr (runes rpc)]
     else andthen (unmarshal rpc settings) (\<lambda>v.
       call_then_say rpc (Some (JObj [(''settings'', v)])) (said ''%s applied'' [JStr (runes rpc)])))"

definition methodSetSettings :: "JetkvmInput \<Rightarrow> method_output act" where
  "methodSetSettings inp = methodSetJSON ''setUsbConfig'' (in_settings inp)"

definition methodSetVideo :: "JetkvmInput \<Rightarrow> method_output act" where
  "methodSetVideo inp =
    (if in_action inp = ''codec'' then
       (if in_value inp \<notin> {runes ''auto'', runes ''h264'', runes ''h265''}
        then refuse ''set-video codec: value must be auto, h264 or h265'' []
        else callSummary ''setVideoCodecPreference'' (Some (JObj [(''codec'', JStr (in_value inp))])))
     else if in_action inp = ''quality'' then
       callSummary ''setStreamQualityFactor'' (Some (JObj [(''factor'', JFloat (in_intValue inp))]))
     else if in_action inp = ''sleep'' then
       callSummary ''setVideoSleepMode'' (Some (JObj [(''duration'', JNum (in_intValue inp))]))
     else if in_action inp = ''paused'' then
       callSummary ''setVideoStreamPaused'' (Some (JObj [(''paused'', JBool (in_intValue inp \<noteq> 0))]))
     else refuse ''set-video: action must be codec, quality, sleep or paused (got %q)''
       [JStr (runes (in_action inp))])"

definition methodSetDisplay :: "JetkvmInput \<Rightarrow> method_output act" where
  "methodSetDisplay inp =
    (if in_action inp = ''rotation'' then
       callSummary ''setDisplayRotation''
         (Some (JObj [(''params'', JObj [(''rotation'', JStr (in_value inp))])]))
     else if in_action inp = ''backlight'' then
       callSummary ''setBacklightSettings''
         (Some (JObj [(''params'', JObj [(''max_brightness'', JNum (in_intValue inp))])]))
     else refuse ''set-display: action must be rotation or backlight (got %q)''
       [JStr (runes (in_action inp))])"

definition methodSetAudio :: "JetkvmInput \<Rightarrow> method_output act" where
  "methodSetAudio inp = callSummary ''setAudioConfig''
     (Some (JObj [(''params'', JObj [(''enabled'', JBool (in_intValue inp \<noteq> 0))])]))"

definition methodSetNetwork :: "JetkvmInput \<Rightarrow> method_output act" where
  "methodSetNetwork inp =
    (if trim_space (in_settings inp) = [] then refuse ''set-network requires settings (a JSON object)'' []
     else andthen (unmarshal ''set-network'' (in_settings inp)) (\<lambda>settings.
       callSummary ''setNetworkSettings'' (Some (JObj [(''settings'', settings)]))))"

section \<open>The raw escape hatch\<close>

definition rpcForbiddenMethods :: "string list" where
  "rpcForbiddenMethods = [''factoryReset'', ''tryUpdate'', ''tryUpdateComponents'']"

text \<open>\<open>json.Unmarshal\<close> into a map: \<open>null\<close> leaves it nil, a value that is no object is an error.\<close>

definition unmarshal_object :: "string \<Rightarrow> text_runes \<Rightarrow> json option act" where
  "unmarshal_object what s = andthen (unmarshal what s) (\<lambda>v. case v of
      JObj o1 \<Rightarrow> ret (Some (JObj o1))
    | JNull \<Rightarrow> ret None
    | _ \<Rightarrow> fail (JSONError what (runes ''cannot unmarshal into a map'')))"

definition methodRawRPC :: "JetkvmInput \<Rightarrow> method_output act" where
  "methodRawRPC inp =
    (if in_rpcMethod inp \<in> set rpcForbiddenMethods
     then refuse ''rpc: %q is refused'' [JStr (runes (in_rpcMethod inp))]
     else andthen (if trim_space (in_rpcParams inp) \<noteq> [] then unmarshal_object ''rpc'' (in_rpcParams inp)
                   else ret None) (\<lambda>p.
       andthen (perform (EvCall (in_rpcMethod inp) p)) (marshal_result ''rpc'')))"

end
