(* ===== verification/Dispatch.thy ===== *)
theory Dispatch
  imports Catalog
begin

text \<open>
  What the verb runs: the console methods of \<open>install.go\<close> and \<open>session.go\<close>, the routing of
  \<open>runMethod\<close> (\<open>catalog.go\<close>), and the device-safety gate and \<open>dispatch\<close> of \<open>methods.go\<close>.

  The console engine (\<open>sdk/kit\<close>) is not in this repository. It is a parameter: a program that asks
  its transport for screens and keys, one request after the other, goes on with each answer and
  ends. What the plugin gives it, the transport and the decoded job, is modelled.
\<close>

section \<open>The console transport\<close>

datatype transport_call =
    TCapture
  | TPressKey text_runes
  | TPressCombo text_runes
  | TType text_runes

datatype console =
    Finished "text_runes + method_output"
  | Ask transport_call "(method_error + json) \<Rightarrow> console"

definition keyInput :: "string \<Rightarrow> text_runes \<Rightarrow> int \<Rightarrow> JetkvmInput" where
  "keyInput m v holdMS =
    (let inp = zero_input\<lparr>in_method := m, in_allowControl := True, in_holdMs := holdMS\<rparr> in
     if m = ''key'' then inp\<lparr>in_keyName := v\<rparr> else inp\<lparr>in_combo := v\<rparr>)"

definition typeInput :: "text_runes \<Rightarrow> JetkvmInput" where
  "typeInput txt = zero_input\<lparr>in_method := ''type'', in_text := txt, in_allowControl := True\<rparr>"

definition nothing :: "'a act \<Rightarrow> json act" where
  "nothing m = andthen m (\<lambda>_. ret JNull)"

text \<open>
  \<open>jetkvmTransport\<close>, whose \<open>holdMS\<close> is its zero value. \<open>runMethod\<close> routes the inputs of
  \<open>keyInput\<close> and \<open>typeInput\<close> to these two methods (\<open>transport_is_runMethod\<close> in
  \<open>Method_Properties\<close>).
\<close>

fun transport :: "transport_call \<Rightarrow> json act" where
  "transport TCapture = perform EvScreenshot"
| "transport (TPressKey name) = nothing (methodKeys (keyInput ''key'' name 0))"
| "transport (TPressCombo combo) = nothing (methodKeys (keyInput ''key-combo'' combo 0))"
| "transport (TType txt) = nothing (methodType (typeInput txt))"

primrec run_console :: "console \<Rightarrow> method_output act" where
  "run_console (Finished r) = check EngineError r"
| "run_console (Ask c k) = (\<lambda>env tr. case transport c env tr of (r, tr') \<Rightarrow> run_console (k r) env tr')"

section \<open>The decoded jobs\<close>

record console_step =
  cs_waitFor :: text_runes
  cs_action :: text_runes
  cs_key :: text_runes
  cs_combo :: text_runes
  cs_text :: text_runes
  cs_timeoutSec :: int
  cs_optional :: bool
  cs_artifact :: text_runes
  cs_description :: text_runes

record terminal_open =
  to_combo :: text_runes
  to_promptAnchors :: "text_runes list"
  to_timeoutSec :: int
  to_artifact :: string

record console_command =
  cc_command :: text_runes
  cc_sudo :: bool
  cc_expect :: text_runes
  cc_timeoutSec :: int
  cc_artifact :: text_runes
  cc_description :: text_runes

record boot_order =
  bo_action :: text_runes
  bo_entry :: text_runes
  bo_sequence :: text_runes
  bo_binary :: text_runes
  bo_sudoPassword :: text_runes

record flow_action =
  fa_key :: text_runes
  fa_combo :: text_runes
  fa_text :: text_runes
  fa_command :: text_runes
  fa_sudo :: bool
  fa_expect :: text_runes
  fa_closeTerminal :: bool

record flow_node =
  nd_id :: string
  nd_description :: text_runes
  nd_wait :: "JetkvmFlowOutcome list"
  nd_action :: flow_action
  nd_transitions :: "string \<rightharpoonup> text_runes"
  nd_next :: text_runes
  nd_artifact :: text_runes
  nd_timeoutSec :: int

record flow_spec =
  fs_start :: text_runes
  fs_nodes :: "(string \<times> flow_node) list"
  fs_sudoPassword :: text_runes
  fs_maxSteps :: int
  fs_maxLoops :: int
  fs_resumeFromScreen :: bool
  fs_resumeOrder :: "text_runes list"
  fs_promptAnchors :: "text_runes list"
  fs_deadline :: "int option"

datatype console_job =
    JobInstall "console_step list" answers
  | JobOpenTerminal terminal_open
  | JobRunCommands "console_command list" text_runes bool "text_runes list"
  | JobCloseTerminal
  | JobLUKSUnlock text_runes "text_runes list" int string
  | JobBootOrder boot_order
  | JobFlow flow_spec

type_synonym engine = "console_job \<Rightarrow> console"

definition run_job :: "engine \<Rightarrow> console_job \<Rightarrow> method_output act" where
  "run_job eng job = run_console (eng job)"

definition paramsStepsToKit :: "JetkvmInstallStep list \<Rightarrow> console_step list" where
  "paramsStepsToKit steps = map (\<lambda>s. \<lparr>cs_waitFor = is_waitFor s, cs_action = is_action s,
     cs_key = is_keyName s, cs_combo = is_combo s, cs_text = is_text s,
     cs_timeoutSec = is_timeoutSec s, cs_optional = is_optional s, cs_artifact = is_artifact s,
     cs_description = is_description s\<rparr>) steps"

definition consoleStepsToParams :: "console_step list \<Rightarrow> JetkvmInstallStep list" where
  "consoleStepsToParams steps = map (\<lambda>s. \<lparr>is_waitFor = cs_waitFor s, is_action = cs_action s,
     is_keyName = cs_key s, is_combo = cs_combo s, is_text = cs_text s,
     is_timeoutSec = cs_timeoutSec s, is_optional = cs_optional s, is_artifact = cs_artifact s,
     is_description = cs_description s\<rparr>) steps"

definition hasSteps :: "JetkvmInput \<Rightarrow> bool" where
  "hasSteps inp \<longleftrightarrow> in_steps inp \<noteq> [] \<or> trim_space (in_device inp) \<noteq> []"

definition runInstall :: "engine \<Rightarrow> JetkvmInput \<Rightarrow> method_output act" where
  "runInstall eng inp =
    (if \<not> hasSteps inp then refuse ''install requires a steps recipe'' []
     else run_job eng (JobInstall (paramsStepsToKit (in_steps inp)) (in_answers inp)))"

definition sessionTerminalOpen :: "JetkvmInput \<Rightarrow> terminal_open" where
  "sessionTerminalOpen inp = \<lparr>to_combo = in_terminalCombo inp,
     to_promptAnchors = in_promptAnchors inp,
     to_timeoutSec = (case in_commands inp of
         [] \<Rightarrow> 60
       | c # _ \<Rightarrow> (if sc_timeoutSec c > 0 then sc_timeoutSec c else 60)),
     to_artifact = in_artifact inp\<rparr>"

definition runOpenTerminal :: "engine \<Rightarrow> JetkvmInput \<Rightarrow> method_output act" where
  "runOpenTerminal eng inp = run_job eng (JobOpenTerminal (sessionTerminalOpen inp))"

fun session_commands_from :: "nat \<Rightarrow> JetkvmSessionCommand list \<Rightarrow> method_error + console_command list" where
  "session_commands_from i [] = Inr []"
| "session_commands_from i (c # cs) =
    (if trim_space (sc_command c) = []
     then Inl (AuthorError (Fmt ''run-command: command %d is empty'' [JNum (int i + 1)]))
     else case session_commands_from (Suc i) cs of
        Inl e \<Rightarrow> Inl e
      | Inr rest \<Rightarrow> Inr (\<lparr>cc_command = sc_command c, cc_sudo = sc_sudo c, cc_expect = sc_expect c,
          cc_timeoutSec = sc_timeoutSec c, cc_artifact = sc_artifact c,
          cc_description = sc_description c\<rparr> # rest))"

definition sessionCommands :: "JetkvmInput \<Rightarrow> method_error + console_command list" where
  "sessionCommands inp = session_commands_from 0 (in_commands inp)"

definition runCommands :: "engine \<Rightarrow> JetkvmInput \<Rightarrow> method_output act" where
  "runCommands eng inp = andthen (check id (sessionCommands inp)) (\<lambda>cmds.
     run_job eng (JobRunCommands cmds (in_sudoPassword inp) (in_closeTerminal inp) (in_promptAnchors inp)))"

definition runCloseTerminal :: "engine \<Rightarrow> method_output act" where
  "runCloseTerminal eng = run_job eng JobCloseTerminal"

definition runLUKSUnlock :: "engine \<Rightarrow> JetkvmInput \<Rightarrow> method_output act" where
  "runLUKSUnlock eng inp =
     run_job eng (JobLUKSUnlock (in_passphrase inp) (in_outcomes inp) 120 (in_artifact inp))"

definition sessionBootOrder :: "JetkvmInput \<Rightarrow> boot_order" where
  "sessionBootOrder inp = \<lparr>bo_action = in_bootOrderAction inp, bo_entry = in_bootOrderEntry inp,
     bo_sequence = in_bootOrderSequence inp, bo_binary = in_bootOrderCommand inp,
     bo_sudoPassword = in_sudoPassword inp\<rparr>"

definition runBootOrder :: "engine \<Rightarrow> JetkvmInput \<Rightarrow> method_output act" where
  "runBootOrder eng inp = run_job eng (JobBootOrder (sessionBootOrder inp))"

text \<open>Deadlines in seconds.\<close>

definition flowDeadlineMargin :: int where "flowDeadlineMargin = 20"

definition flowDeadline :: "int option \<Rightarrow> int option" where
  "flowDeadline d = map_option (\<lambda>t. t - flowDeadlineMargin) d"

definition flow_node_of :: "(text_runes \<Rightarrow> text_runes) \<Rightarrow> string \<times> JetkvmFlowNode \<Rightarrow> string \<times> flow_node" where
  "flow_node_of sub = (\<lambda>(i, n). (i, \<lparr>nd_id = i, nd_description = fn_description n, nd_wait = fn_wait n,
     nd_action = \<lparr>fa_key = fn_key n, fa_combo = fn_combo n, fa_text = sub (fn_text n),
       fa_command = sub (fn_command n), fa_sudo = fn_sudo n, fa_expect = sub (fn_expect n),
       fa_closeTerminal = fn_closeTerminal n\<rparr>,
     nd_transitions = fn_transitions n, nd_next = fn_next n, nd_artifact = fn_artifact n,
     nd_timeoutSec = fn_timeoutSec n\<rparr>))"

definition runFlow :: "engine \<Rightarrow> JetkvmInput \<Rightarrow> method_output act" where
  "runFlow eng inp =
    (if trim_space (in_flowStart inp) = [] then refuse ''flow requires flow_start (the entry node id)'' []
     else if in_flowNodes inp = [] then refuse ''flow requires a non-empty flow_nodes map'' []
     else andthen (reading id) (\<lambda>env.
       run_job eng (JobFlow \<lparr>fs_start = in_flowStart inp,
         fs_nodes = map (flow_node_of (\<lambda>s. en_substitute env s (in_answers inp))) (in_flowNodes inp),
         fs_sudoPassword = in_sudoPassword inp, fs_maxSteps = in_flowMaxSteps inp,
         fs_maxLoops = in_flowMaxLoops inp, fs_resumeFromScreen = in_flowResume inp,
         fs_resumeOrder = in_flowResumeOrder inp, fs_promptAnchors = in_promptAnchors inp,
         fs_deadline = flowDeadline (en_deadline env)\<rparr>)))"

section \<open>Routing\<close>

text \<open>The cases of \<open>runMethod\<close>'s switch, as a table.\<close>

definition summary :: "string \<Rightarrow> engine \<Rightarrow> JetkvmInput \<Rightarrow> method_output act" where
  "summary rpc eng inp = callSummary rpc None"

definition observation_table :: "(string \<times> (engine \<Rightarrow> JetkvmInput \<Rightarrow> method_output act)) list" where
  "observation_table =
    [(''status'', \<lambda>_ _. methodStatus), (''screenshot'', \<lambda>_. methodScreenshot), (''ocr'', \<lambda>_. methodOcr),
     (''version'', summary ''getLocalVersion''), (''video-state'', summary ''getVideoState''),
     (''usb-state'', summary ''getUSBState''), (''atx-state'', summary ''getATXState''),
     (''dc-state'', summary ''getDCPowerState''),
     (''virtual-media-state'', summary ''getVirtualMediaState''),
     (''storage-files'', summary ''listStorageFiles''),
     (''wol-devices'', summary ''getWakeOnLanDevices''), (''macros'', summary ''getKeyboardMacros''),
     (''keyboard-layout'', summary ''getKeyboardLayout''), (''timezones'', summary ''getTimezones''),
     (''cloud-state'', summary ''getCloudState''), (''network-state'', summary ''getNetworkState''),
     (''network-settings'', summary ''getNetworkSettings''),
     (''tailscale-status'', summary ''getTailscaleStatus''),
     (''update-status'', summary ''getUpdateStatus''), (''devmode-state'', summary ''getDevModeState''),
     (''ssh-key'', summary ''getSSHKeyState''), (''tls-state'', summary ''getTLSState''),
     (''extensions'', \<lambda>_ _. methodExtensions), (''public-ip'', \<lambda>_ _. methodPublicIP),
     (''diagnostics'', \<lambda>_ _. methodDiagnostics), (''check-media-url'', \<lambda>_. methodCheckMediaURL)]"

definition input_table :: "(string \<times> (engine \<Rightarrow> JetkvmInput \<Rightarrow> method_output act)) list" where
  "input_table =
    [(''key'', \<lambda>_. methodKeys), (''key-combo'', \<lambda>_. methodKeys), (''macro'', \<lambda>_. methodKeys),
     (''type'', \<lambda>_. methodType), (''install'', runInstall), (''open-terminal'', runOpenTerminal),
     (''run-command'', runCommands), (''close-terminal'', \<lambda>eng _. runCloseTerminal eng),
     (''luks-unlock'', runLUKSUnlock), (''flow'', runFlow), (''boot-order'', runBootOrder),
     (''click'', \<lambda>_. methodPointer), (''mouse'', \<lambda>_. methodPointer), (''move'', \<lambda>_. methodPointer),
     (''scroll'', \<lambda>_. methodScroll), (''drag'', \<lambda>_. methodDrag)]"

definition config_table :: "(string \<times> (engine \<Rightarrow> JetkvmInput \<Rightarrow> method_output act)) list" where
  "config_table =
    [(''power'', \<lambda>_. methodPower), (''dc-power'', \<lambda>_. methodDCPower), (''reboot'', \<lambda>_ _. methodReboot),
     (''wol'', \<lambda>_. methodWOL), (''wake-host'', \<lambda>_ _. methodWakeHost),
     (''virtual-media'', \<lambda>_. methodVirtualMedia), (''usb-device'', \<lambda>_. methodUSBDevice),
     (''usb-emulation'', \<lambda>_. methodUSBEmulation), (''usb-config'', summary ''getUsbConfig''),
     (''set-settings'', \<lambda>_. methodSetSettings),
     (''set-edid'', \<lambda>_ inp. methodSetScalar ''setEDID'' ''edid'' (in_value inp)),
     (''set-video'', \<lambda>_. methodSetVideo), (''set-display'', \<lambda>_. methodSetDisplay),
     (''set-audio'', \<lambda>_. methodSetAudio), (''set-network'', \<lambda>_. methodSetNetwork),
     (''set-tailscale'', \<lambda>_ inp. methodSetScalar ''setTailscaleControlURL'' ''controlURL'' (in_value inp)),
     (''set-devmode'', \<lambda>_ inp. methodSetBool ''setDevModeState'' ''enabled'' (in_value inp)),
     (''set-ssh-key'', \<lambda>_ inp. methodSetScalar ''setSSHKeyState'' ''sshKey'' (in_value inp)),
     (''set-tls'', \<lambda>_ inp. methodSetJSON ''setTLSState'' (in_settings inp)),
     (''set-keyboard-layout'', \<lambda>_ inp. methodSetScalar ''setKeyboardLayout'' ''layout'' (in_value inp)),
     (''set-macros'', \<lambda>_ inp. methodSetJSON ''setKeyboardMacros'' (in_settings inp)),
     (''set-jiggler'', \<lambda>_ inp. methodSetBool ''setJigglerState'' ''enabled'' (in_value inp)),
     (''set-extension'', \<lambda>_ inp. methodSetScalar ''setActiveExtension'' ''extensionId'' (in_value inp)),
     (''set-wol-devices'', \<lambda>_ inp. methodSetJSON ''setWakeOnLanDevices'' (in_settings inp)),
     (''set-log-level'', \<lambda>_ inp. methodSetScalar ''setDefaultLogLevel'' ''level'' (in_value inp)),
     (''renew-dhcp'', summary ''renewDHCPLease''), (''rpc'', \<lambda>_. methodRawRPC)]"

definition runMethod :: "engine \<Rightarrow> JetkvmInput \<Rightarrow> method_output act" where
  "runMethod eng inp =
    (case map_of (observation_table @ input_table @ config_table) (in_method inp) of
       Some f \<Rightarrow> f eng inp
     | None \<Rightarrow> refuse ''unknown method %q'' [JStr (runes (in_method inp))])"

section \<open>The device-safety gate\<close>

definition readOnlyMethods :: "string list" where
  "readOnlyMethods =
    [''status'', ''screenshot'', ''ocr'', ''version'', ''diagnostics'', ''video-state'', ''usb-state'',
     ''atx-state'', ''dc-state'', ''virtual-media-state'', ''storage-files'', ''wol-devices'', ''macros'',
     ''keyboard-layout'', ''timezones'', ''cloud-state'', ''network-state'', ''network-settings'',
     ''tailscale-status'', ''update-status'', ''devmode-state'', ''ssh-key'', ''tls-state'', ''extensions'',
     ''public-ip'', ''check-media-url'', ''usb-config'']"

definition neverAutonomous :: "string list" where
  "neverAutonomous = [''factory-reset'', ''update'']"

definition methodSafety :: "string \<Rightarrow> bool \<Rightarrow> message_text option" where
  "methodSafety m allowControl =
    (if m \<in> set readOnlyMethods then None
     else if m \<in> set neverAutonomous then
       Some (Fmt ''%s is refused: it irreversibly reimages or wipes a physical device'' [JStr (runes m)])
     else if \<not> allowControl then
       Some (Fmt ''%s is a mutating method on a physical appliance'' [JStr (runes m)])
     else None)"

definition requiredModifiers :: "(string \<times> string list) list" where
  "requiredModifiers =
    [(''key'', [''key'']), (''type'', [''text'']), (''key-combo'', [''combo'']),
     (''click'', [''x'', ''y'']), (''mouse'', [''x'', ''y'']), (''move'', [''x'', ''y'']),
     (''drag'', [''from_x'', ''from_y'', ''x'', ''y'']), (''scroll'', [''scroll_y'']),
     (''power'', [''action'']), (''dc-power'', [''action'']), (''wol'', [''value'']),
     (''virtual-media'', [''action'']), (''screenshot'', [''artifact'']), (''rpc'', [''rpc_method'']),
     (''run-command'', [''commands''])]"

definition check_required :: "string \<Rightarrow> unit act" where
  "check_required m = andthen (reading en_required) (\<lambda>req.
     case req m (map_of requiredModifiers m) of
       Some e \<Rightarrow> fail (EngineError e)
     | None \<Rightarrow> ret ())"

text \<open>The connection carries \<open>allow_control\<close>, and nothing else grants the control lease.\<close>

definition connected :: "bool \<Rightarrow> 'a act \<Rightarrow> 'a act" where
  "connected allow m env tr = m (env\<lparr>en_allowControl := allow\<rparr>) tr"

definition dispatch :: "engine \<Rightarrow> JetkvmInput \<Rightarrow> method_output act" where
  "dispatch eng inp =
    andthen (check_required (in_method inp)) (\<lambda>_.
    (case methodSafety (in_method inp) (in_allowControl inp) of
       Some reason \<Rightarrow> fail (SkipError reason)
     | None \<Rightarrow> andthen (perform (EvConnect (in_allowControl inp) (in_insecure inp))) (\<lambda>_.
         finally_do (connected (in_allowControl inp) (runMethod eng inp)) (perform EvClose))))"

end
