(* ===== verification/Safety_Gate.thy ===== *)
theory Safety_Gate
  imports Dispatch
begin

text \<open>
  What the device-safety gate guarantees, for every input, every answer of the device and every
  console engine: the properties of \<open>methods.go\<close> and of the catalog behind it.
\<close>

section \<open>One rule per method\<close>

lemma run_console_Ask:
  "run_console (Ask c k) = andthen (attempt (transport c)) (\<lambda>r. run_console (k r))"
  by (simp add: fun_eq_iff andthen_def attempt_def split: prod.split)

context trace_property
begin

lemma console_rule:
  assumes "\<And>c. extends Q (transport c)"
  shows "extends Q (run_console c)"
proof (induction c)
  case (Finished r)
  then show ?case by (simp add: check_rule)
next
  case (Ask c k)
  show ?case
    unfolding run_console_Ask by (intro andthen_rule attempt_rule assms Ask) simp
qed

lemma connected_rule [extends_intros]: "extends Q m \<Longrightarrow> extends Q (connected allow m)"
  by (simp add: extends_def connected_def)

lemma refuse_rule [extends_intros]: "extends Q (refuse f args)"
  by (simp add: refuse_def fail_rule)

lemma case_prod_rule [extends_intros]:
  "(\<And>a b. extends Q (f a b)) \<Longrightarrow> extends Q (case p of (a, b) \<Rightarrow> f a b)"
  by (cases p) simp

lemma case_sum_rule [extends_intros]:
  "(\<And>a. extends Q (f a)) \<Longrightarrow> (\<And>b. extends Q (g b)) \<Longrightarrow>
   extends Q (case r of Inl a \<Rightarrow> f a | Inr b \<Rightarrow> g b)"
  by (cases r) simp_all

lemma case_option_rule [extends_intros]:
  "extends Q f \<Longrightarrow> (\<And>b. extends Q (g b)) \<Longrightarrow>
   extends Q (case r of None \<Rightarrow> f | Some b \<Rightarrow> g b)"
  by (cases r) simp_all

lemma control_lease_rule [extends_intros]: "extends Q ControlLease"
  unfolding ControlLease_def by (intro extends_intros)

lemma marshal_rule [extends_intros]: "extends Q (marshal_result what j)"
  unfolding marshal_result_def by (intro extends_intros)

lemma resolve_rule [extends_intros]: "extends Q (resolve name)"
  unfolding resolve_def by (intro extends_intros)

lemma macro_resolve_rule [extends_intros]: "extends Q (resolveMacroStep step)"
  unfolding resolveMacroStep_def Let_def by (auto intro: extends_intros split: list.split)

lemma unmarshal_rule [extends_intros]: "extends Q (unmarshal what s)"
  unfolding unmarshal_def by (intro extends_intros)

lemma unmarshal_object_rule [extends_intros]: "extends Q (unmarshal_object what s)"
  unfolding unmarshal_object_def
  by (intro andthen_rule unmarshal_rule) (auto intro: extends_intros split: json.split)

lemma check_required_rule [extends_intros]: "extends Q (check_required m)"
  unfolding check_required_def by (intro extends_intros)

lemma scroll_result_rule [extends_intros]: "extends Q (scrollResultAfterRelease errs)"
  unfolding scrollResultAfterRelease_def by (intro extends_intros)

lemma diagnostics_rule:
  "(\<And>m. m \<in> set ms \<Longrightarrow> extends Q (perform (EvCall m None))) \<Longrightarrow> extends Q (diagnostics_lines ms)"
  by (induction ms) (auto intro!: extends_intros)

lemma call_rule:
  "extends Q (perform (EvCall rpc p)) \<Longrightarrow> extends Q (callSummary rpc p)"
  "extends Q (perform (EvCall rpc p)) \<Longrightarrow> extends Q (call_then_say rpc p out)"
  unfolding call_then_say_def callSummary_def by (intro extends_intros; simp)+

end

lemmas observation_defs = methodStatus_def methodScreenshot_def methodExtensions_def
  methodPublicIP_def methodDiagnostics_def methodCheckMediaURL_def methodOcr_def summary_def

lemmas input_defs = pressAndRelease_def macro_step_def press_named_def methodKeys_def
  type_report_def methodType_def send_pointer_def methodPointer_def send_report_def methodDrag_def
  Let_def

lemmas config_defs = methodPower_def methodDCPower_def methodReboot_def methodWOL_def
  methodWakeHost_def methodVirtualMedia_def methodUSBDevice_def methodUSBEmulation_def
  methodSetScalar_def methodSetBool_def methodSetJSON_def methodSetSettings_def methodSetVideo_def
  methodSetDisplay_def methodSetAudio_def methodSetNetwork_def Let_def

lemmas console_defs = runInstall_def runOpenTerminal_def runCommands_def runCloseTerminal_def
  runLUKSUnlock_def runBootOrder_def runFlow_def run_job_def

section \<open>The forbidden calls\<close>

definition permitted :: "kvm_event \<Rightarrow> bool" where
  "permitted ev \<longleftrightarrow> (\<forall>rpc p. ev = EvCall rpc p \<longrightarrow> rpc \<notin> set rpcForbiddenMethods)"

lemma permitted_simps [simp]:
  "permitted (EvCall rpc p) \<longleftrightarrow> rpc \<notin> set rpcForbiddenMethods"
  "permitted (EvConnect a b)" "permitted EvClose" "permitted EvStatus" "permitted EvScreenshot"
  "permitted (EvWriteFile f)" "permitted EvLock" "permitted EvAcquire" "permitted EvRelease"
  "permitted (EvKeyboard md ks)" "permitted (EvReleaseKeyboard b)" "permitted (EvPointer x y bt b)"
  "permitted (EvHold ms)" "permitted (EvWheel dx dy)" "permitted EvRetireSession"
  by (simp_all add: permitted_def)

lemma emits_permitted_input:
  "emits permitted (methodKeys inp)" "emits permitted (methodType inp)"
  "emits permitted (methodPointer inp)" "emits permitted (methodDrag inp)"
  unfolding input_defs by (intro extends_intros; simp)+

lemma emits_permitted_scroll: "emits permitted (methodScroll inp)"
  unfolding methodScroll_def client_Scroll_def scroll_rpc_def release_after_def
  by (intro extends_intros; simp)

lemma emits_permitted_console: "emits permitted (run_console c)"
proof (rule calls.console_rule)
  fix c :: transport_call
  show "emits permitted (transport c)"
    by (cases c) (auto simp: nothing_def intro!: extends_intros emits_permitted_input)
qed

lemma emits_permitted_raw: "emits permitted (methodRawRPC inp)"
  by (cases "in_rpcMethod inp \<in> set rpcForbiddenMethods")
    (auto simp: methodRawRPC_def intro!: extends_intros)

lemma emits_permitted_observation:
  "(m, f) \<in> set observation_table \<Longrightarrow> emits permitted (f eng inp)"
  unfolding observation_table_def
  by (auto simp: observation_defs rpcForbiddenMethods_def
      intro!: extends_intros calls.diagnostics_rule calls.call_rule)

lemma emits_permitted_config:
  "(m, f) \<in> set config_table \<Longrightarrow> emits permitted (f eng inp)"
  unfolding config_table_def
  by (auto simp: config_defs summary_def rpcForbiddenMethods_def
      intro!: extends_intros calls.call_rule emits_permitted_raw)

lemma emits_permitted_consoles:
  "emits permitted (runInstall eng inp)" "emits permitted (runOpenTerminal eng inp)"
  "emits permitted (runCommands eng inp)" "emits permitted (runCloseTerminal eng)"
  "emits permitted (runLUKSUnlock eng inp)" "emits permitted (runBootOrder eng inp)"
  "emits permitted (runFlow eng inp)"
  unfolding console_defs by (intro extends_intros emits_permitted_console)+

lemma emits_permitted_inputs:
  "(m, f) \<in> set input_table \<Longrightarrow> emits permitted (f eng inp)"
  unfolding input_table_def
  by (auto intro: emits_permitted_input emits_permitted_scroll emits_permitted_consoles)

lemma runMethod_rule:
  assumes "\<And>m f. (m, f) \<in> set (observation_table @ input_table @ config_table) \<Longrightarrow>
      m = in_method inp \<Longrightarrow> extends Q (f eng inp)"
    and "\<And>f a. extends Q (refuse f a :: method_output act)"
  shows "extends Q (runMethod eng inp)"
  unfolding runMethod_def using assms by (auto split: option.split dest!: map_of_SomeD)

lemma emits_permitted_runMethod: "emits permitted (runMethod eng inp)"
  by (rule runMethod_rule)
    (auto intro: emits_permitted_observation emits_permitted_inputs emits_permitted_config extends_intros)

lemma emits_permitted_dispatch: "emits permitted (dispatch eng inp)"
  unfolding dispatch_def
  by (auto intro!: extends_intros emits_permitted_runMethod split: option.split)

section \<open>The lease discipline\<close>

lemma steady_pressAndRelease: "steady True (pressAndRelease md keys hold)"
  unfolding pressAndRelease_def by (intro extends_intros; simp)

lemma steady_press:
  "steady True (press_named name hold out)" "steady True (macro_step hold step)"
  "steady True (type_report p)" "steady True (send_pointer x y b bg)" "steady True (send_report r)"
  unfolding press_named_def macro_step_def type_report_def send_report_def send_pointer_def
  by (intro extends_intros steady_pressAndRelease; simp)+

lemma steady_input:
  "steady False (methodKeys inp)" "steady False (methodType inp)"
  "steady False (methodPointer inp)" "steady False (methodDrag inp)"
  unfolding methodKeys_def methodType_def methodPointer_def methodDrag_def Let_def
  by (intro extends_intros steady_press; simp)+

text \<open>The scroll operation holds the lease itself.\<close>

lemma scroll_result_silent [simp]: "snd (scrollResultAfterRelease errs env tr) = tr"
  by (simp add: scrollResultAfterRelease_def andthen_def reading_def ctx_ended_def ret_def fail_def)

lemma steady_release_after:
  assumes "steady True body"
  shows "steady False (andthen (perform EvAcquire) (\<lambda>_. release_after body))"
  unfolding extends_def
proof (intro allI)
  fix env tr
  let ?tr = "tr @ [(EvAcquire, True)]"
  obtain ex where ex: "snd (body env ?tr) = ?tr @ ex" "lease_run True ex = Some True"
    using extendsE [OF assms] by blast
  show "\<exists>ex. snd (andthen (perform EvAcquire) (\<lambda>_. release_after body) env tr) = tr @ ex \<and>
      lease_run False ex = Some False"
  proof (cases "en_answer env tr EvAcquire")
    case (Inl e)
    then show ?thesis by (simp add: andthen_def perform_def)
  next
    case (Inr j)
    have "\<exists>ok. snd (andthen (perform EvAcquire) (\<lambda>_. release_after body) env tr) =
        tr @ ((EvAcquire, True) # ex @ [(EvRelease, ok)])"
      using Inr ex(1)
      by (auto simp: release_after_def andthen_def perform_def attempt_def ctx_ended_def fail_def
          ret_def split: prod.split sum.split)
    moreover have "lease_run False ((EvAcquire, True) # ex @ [(EvRelease, ok)]) = Some False" for ok
      using ex(2) by (simp add: lease_run_append)
    ultimately show ?thesis by blast
  qed
qed

lemma steady_scroll: "steady False (methodScroll inp)"
proof -
  have "steady True (scroll_rpc dx dy)" for dx dy
    unfolding scroll_rpc_def by (intro extends_intros; simp)
  then show ?thesis
    unfolding methodScroll_def client_Scroll_def
    by (intro lease.andthen_rule steady_release_after extends_intros; simp)
qed

lemma steady_console: "steady False (run_console c)"
proof (rule lease.console_rule)
  fix c :: transport_call
  show "steady False (transport c)"
    by (cases c) (auto simp: nothing_def intro!: extends_intros steady_input)
qed

lemma steady_tables:
  "(m, f) \<in> set observation_table \<Longrightarrow> steady False (f eng inp)"
  "(m, f) \<in> set input_table \<Longrightarrow> steady False (f eng inp)"
  "(m, f) \<in> set config_table \<Longrightarrow> steady False (f eng inp)"
  by (auto simp: observation_table_def observation_defs
      intro!: extends_intros lease.diagnostics_rule lease.call_rule)
    (auto simp: input_table_def console_defs intro!: steady_input steady_scroll extends_intros steady_console,
     auto simp: config_table_def config_defs summary_def methodRawRPC_def
      intro!: extends_intros lease.call_rule)

lemma steady_runMethod: "steady False (runMethod eng inp)"
  by (rule runMethod_rule) (auto intro: steady_tables extends_intros)

lemma steady_dispatch: "steady False (dispatch eng inp)"
  unfolding dispatch_def by (auto intro!: extends_intros steady_runMethod split: option.split)

section \<open>Observation\<close>

text \<open>The device's RPC methods that only report or check something.\<close>

definition observation_rpcs :: "string list" where
  "observation_rpcs =
    [''getLocalVersion'', ''getVideoState'', ''getUSBState'', ''getATXState'', ''getDCPowerState'',
     ''getVirtualMediaState'', ''listStorageFiles'', ''getWakeOnLanDevices'', ''getKeyboardMacros'',
     ''getKeyboardLayout'', ''getTimezones'', ''getCloudState'', ''getNetworkState'',
     ''getNetworkSettings'', ''getTailscaleStatus'', ''getUpdateStatus'', ''getDevModeState'',
     ''getSSHKeyState'', ''getTLSState'', ''getActiveExtension'', ''getPublicIPAddresses'',
     ''checkMountUrl'', ''getUsbConfig'']"

fun observes :: "string \<Rightarrow> kvm_event \<Rightarrow> bool" where
  "observes artifact (EvConnect allow insecure) = (\<not> allow)"
| "observes artifact EvClose = True"
| "observes artifact EvStatus = True"
| "observes artifact EvScreenshot = True"
| "observes artifact (EvWriteFile f) = (f = artifact)"
| "observes artifact (EvCall rpc p) = (rpc \<in> set observation_rpcs)"
| "observes artifact _ = False"

lemma observes_table:
  "(m, f) \<in> set observation_table \<Longrightarrow> emits (observes (in_artifact inp)) (f eng inp)"
  unfolding observation_table_def
  by (auto simp: observation_defs observation_rpcs_def
      intro!: extends_intros calls.diagnostics_rule calls.call_rule)

text \<open>The routed names, for evaluation.\<close>

definition observation_names :: "string list" where
  "observation_names =
    [''status'', ''screenshot'', ''ocr'', ''version'', ''video-state'', ''usb-state'', ''atx-state'',
     ''dc-state'', ''virtual-media-state'', ''storage-files'', ''wol-devices'', ''macros'',
     ''keyboard-layout'', ''timezones'', ''cloud-state'', ''network-state'', ''network-settings'',
     ''tailscale-status'', ''update-status'', ''devmode-state'', ''ssh-key'', ''tls-state'', ''extensions'',
     ''public-ip'', ''diagnostics'', ''check-media-url'']"

definition input_names :: "string list" where
  "input_names =
    [''key'', ''key-combo'', ''macro'', ''type'',
     ''install'', ''open-terminal'', ''run-command'', ''close-terminal'', ''luks-unlock'', ''flow'',
     ''boot-order'', ''click'', ''mouse'', ''move'', ''scroll'', ''drag'']"

definition config_names :: "string list" where
  "config_names =
    [''power'', ''dc-power'', ''reboot'',
     ''wol'', ''wake-host'', ''virtual-media'', ''usb-device'', ''usb-emulation'', ''usb-config'',
     ''set-settings'', ''set-edid'', ''set-video'', ''set-display'', ''set-audio'', ''set-network'',
     ''set-tailscale'', ''set-devmode'', ''set-ssh-key'', ''set-tls'', ''set-keyboard-layout'',
     ''set-macros'', ''set-jiggler'', ''set-extension'', ''set-wol-devices'', ''set-log-level'',
     ''renew-dhcp'', ''rpc'']"

lemma table_names:
  "map fst observation_table = observation_names" "map fst input_table = input_names"
  "map fst config_table = config_names"
  by (simp_all add: observation_table_def input_table_def config_table_def
      observation_names_def input_names_def config_names_def)

lemma routed_distinct: "distinct (observation_names @ input_names @ config_names)"
  by code_simp

lemma not_read_only:
  "list_all (\<lambda>m. m \<notin> set readOnlyMethods) input_names"
  "list_all (\<lambda>m. m \<notin> set readOnlyMethods \<or> m = ''usb-config'') config_names"
  by code_simp+

lemma names_of_tables:
  "(m, f) \<in> set observation_table \<Longrightarrow> m \<in> set observation_names"
  "(m, f) \<in> set input_table \<Longrightarrow> m \<in> set input_names"
  "(m, f) \<in> set config_table \<Longrightarrow> m \<in> set config_names"
  by (force simp: table_names [symmetric])+

lemma usb_config_entry:
  assumes "(''usb-config'', f) \<in> set config_table"
  shows "f = summary ''getUsbConfig''"
proof -
  have "distinct (map fst config_table)" using routed_distinct by (simp add: table_names)
  then have "map_of config_table ''usb-config'' = Some f" using assms by (rule map_of_is_SomeI)
  then show ?thesis by (simp add: config_table_def)
qed

lemma read_only_split:
  assumes "(m, f) \<in> set (observation_table @ input_table @ config_table)" "m \<in> set readOnlyMethods"
  shows "(m, f) \<in> set observation_table \<or> f = summary ''getUsbConfig''"
proof (cases "(m, f) \<in> set config_table")
  case True
  then have "m = ''usb-config''"
    using not_read_only(2) assms(2) names_of_tables(3) by (auto simp: list_all_iff)
  with True show ?thesis using usb_config_entry by blast
next
  case False
  have "(m, f) \<notin> set input_table"
    using not_read_only(1) assms(2) names_of_tables(2) by (auto simp: list_all_iff)
  with False assms(1) show ?thesis by simp
qed

lemma observes_runMethod:
  assumes "in_method inp \<in> set readOnlyMethods"
  shows "emits (observes (in_artifact inp)) (runMethod eng inp)"
proof (rule runMethod_rule)
  fix m f
  assume t: "(m, f) \<in> set (observation_table @ input_table @ config_table)" "m = in_method inp"
  with assms have "m \<in> set readOnlyMethods" by simp
  from read_only_split [OF t(1) this]
  have "(m, f) \<in> set observation_table \<or> f = summary ''getUsbConfig''" .
  moreover have "emits (observes (in_artifact inp)) (summary ''getUsbConfig'' eng inp)"
    by (auto simp: summary_def observation_rpcs_def intro!: calls.call_rule extends_intros)
  ultimately show "emits (observes (in_artifact inp)) (f eng inp)"
    using observes_table by blast
qed (intro extends_intros)

section \<open>The properties of the gate\<close>

text \<open>
  Without consent the plugin only observes. If the author did not write \<open>allow_control\<close>, then
  whatever the method, the device's answers and the console engine, a dispatch reads status,
  takes screenshots into the named artifact and makes calls that only report: it opens a
  connection without control, sends no key, pointer or wheel event and writes no setting. For a
  method outside the read-only list it does nothing at all and returns an error.
\<close>

theorem no_control_without_consent:
  assumes "\<not> in_allowControl inp"
  shows "\<exists>ex. snd (dispatch eng inp env tr) = tr @ ex \<and>
    (\<forall>x \<in> set ex. observes (in_artifact inp) (fst x)) \<and>
    (in_method inp \<notin> set readOnlyMethods \<longrightarrow> ex = [] \<and> \<not> is_ok (fst (dispatch eng inp env tr)))"
proof (cases "in_method inp \<in> set readOnlyMethods")
  case True
  then have "emits (observes (in_artifact inp)) (dispatch eng inp)"
    using assms unfolding dispatch_def methodSafety_def
    by (auto intro!: extends_intros observes_runMethod)
  with True show ?thesis by (auto simp: extends_def)
next
  case False
  then have "\<exists>reason. methodSafety (in_method inp) (in_allowControl inp) = Some reason"
    using assms by (simp add: methodSafety_def)
  then show ?thesis
    by (auto simp: dispatch_def check_required_def andthen_def reading_def fail_def ret_def
        split: option.split)
qed

text \<open>An environment where everything succeeds, for the witnesses.\<close>

definition happy :: environment where
  "happy = \<lparr>en_answer = (\<lambda>_ _. Inr JNull), en_allowControl = False, en_deviceID = [],
     en_firmware = [], en_ctxEnded = (\<lambda>_. False), en_is = (\<lambda>_ _. False),
     en_unmarshal = (\<lambda>_. Inr JNull), en_marshal = (\<lambda>_. Inr []), en_lower = id,
     en_category = (\<lambda>_ _. False), en_ocr = (\<lambda>_. Inr []), en_deadline = None,
     en_substitute = (\<lambda>s _. s), en_required = (\<lambda>_ _. None)\<rparr>"

lemmas act_defs = andthen_def ret_def fail_def check_def reading_def perform_def attempt_def
  finally_do_def on_error_def ctx_ended_def with_lease_def refuse_def connected_def

theorem no_control_without_consent_witness:
  "let inp = zero_input\<lparr>in_method := ''reboot''\<rparr> in
     snd (dispatch (\<lambda>_. Finished (Inl [])) inp happy []) = [] \<and>
     \<not> is_ok (fst (dispatch (\<lambda>_. Finished (Inl [])) inp happy []))"
proof -
  let ?inp = "zero_input\<lparr>in_method := ''reboot''\<rparr>"
  have "\<not> in_allowControl ?inp" "in_method ?inp \<notin> set readOnlyMethods"
    by (simp_all add: zero_input_def readOnlyMethods_def)
  with no_control_without_consent [of ?inp "\<lambda>_. Finished (Inl [])" happy "[]"]
  show ?thesis by auto
qed

text \<open>
  C5. No plan can wipe or reimage the device. Whatever consent was given and whatever the method,
  the raw \<open>rpc\<close> escape hatch and the console engine included, no dispatch ever calls one of the
  forbidden device methods; and the methods that are never autonomous do nothing at all.
\<close>

theorem wiping_is_unreachable:
  "\<exists>ex. snd (dispatch eng inp env tr) = tr @ ex \<and>
     (\<forall>rpc p ok. (EvCall rpc p, ok) \<in> set ex \<longrightarrow>
        rpc \<notin> {''factoryReset'', ''tryUpdate'', ''tryUpdateComponents''}) \<and>
     (in_method inp \<in> set neverAutonomous \<longrightarrow> ex = [] \<and> \<not> is_ok (fst (dispatch eng inp env tr)))"
proof -
  obtain ex where ex: "snd (dispatch eng inp env tr) = tr @ ex" "\<forall>x \<in> set ex. permitted (fst x)"
    using extendsE [OF emits_permitted_dispatch] by blast
  have "ex = [] \<and> \<not> is_ok (fst (dispatch eng inp env tr))" if "in_method inp \<in> set neverAutonomous"
  proof -
    have "\<exists>reason. methodSafety (in_method inp) (in_allowControl inp) = Some reason"
      using that by (auto simp: methodSafety_def neverAutonomous_def readOnlyMethods_def)
    then show ?thesis
      using ex(1) by (auto simp: dispatch_def check_required_def act_defs split: option.splits)
  qed
  with ex show ?thesis by (auto simp: permitted_def rpcForbiddenMethods_def)
qed

theorem wiping_is_unreachable_witness:
  "let inp = zero_input\<lparr>in_method := ''rpc'', in_rpcMethod := ''factoryReset'', in_allowControl := True\<rparr> in
     \<exists>ex. snd (dispatch (\<lambda>_. Finished (Inl [])) inp happy []) = ex \<and>
       (EvCall ''factoryReset'' None, True) \<notin> set ex"
  using wiping_is_unreachable [of "\<lambda>_. Finished (Inl [])"
      "zero_input\<lparr>in_method := ''rpc'', in_rpcMethod := ''factoryReset'', in_allowControl := True\<rparr>" happy "[]"]
  by auto

text \<open>
  C8. The control lease is always given back. Over a whole dispatch, in every environment, input
  is only sent while the lease is held, the lease is taken at most once at a time and released
  once per acquisition, and the dispatch ends without it, on error paths too.
\<close>

theorem lease_always_given_back:
  "\<exists>ex. snd (dispatch eng inp env tr) = tr @ ex \<and> lease_run False ex = Some False"
  using extendsE [OF steady_dispatch] by metis

text \<open>
  The catalog is complete: the methods the schema names are exactly those \<open>runMethod\<close> routes and
  the two that are refused before dispatch, no name is routed twice, and every read-only method
  is routed.
\<close>

definition schema_methods :: "string list" where
  "schema_methods =
    [''status'', ''screenshot'', ''ocr'', ''version'', ''diagnostics'', ''video-state'', ''usb-state'',
     ''atx-state'', ''dc-state'', ''virtual-media-state'', ''storage-files'', ''wol-devices'', ''macros'',
     ''keyboard-layout'', ''timezones'', ''cloud-state'', ''network-state'', ''network-settings'',
     ''tailscale-status'', ''update-status'', ''devmode-state'', ''ssh-key'', ''tls-state'', ''extensions'',
     ''public-ip'', ''key'', ''type'', ''key-combo'', ''macro'', ''click'', ''mouse'', ''move'', ''scroll'',
     ''drag'', ''install'', ''open-terminal'', ''run-command'', ''close-terminal'', ''luks-unlock'', ''flow'',
     ''boot-order'', ''power'', ''dc-power'', ''reboot'', ''wol'', ''wake-host'', ''virtual-media'',
     ''check-media-url'', ''usb-device'', ''usb-emulation'', ''usb-config'', ''set-settings'', ''set-edid'',
     ''set-video'', ''set-display'', ''set-audio'', ''set-network'', ''set-tailscale'', ''set-devmode'',
     ''set-ssh-key'', ''set-tls'', ''set-keyboard-layout'', ''set-macros'', ''set-jiggler'',
     ''set-extension'', ''set-wol-devices'', ''set-log-level'', ''renew-dhcp'', ''factory-reset'', ''update'',
     ''rpc'']"

theorem catalog_complete:
  "set schema_methods = fst ` set (observation_table @ input_table @ config_table) \<union> set neverAutonomous \<and>
   distinct (map fst (observation_table @ input_table @ config_table)) \<and>
   set readOnlyMethods \<subseteq> fst ` set (observation_table @ input_table @ config_table)"
proof -
  let ?names = "observation_names @ input_names @ config_names"
  have t: "fst ` set (observation_table @ input_table @ config_table) = set ?names"
    by (simp add: image_Un table_names [symmetric])
  have "set schema_methods = set (?names @ neverAutonomous)" by code_simp
  moreover have "set readOnlyMethods \<subseteq> set ?names" by code_simp
  ultimately show ?thesis using routed_distinct unfolding t by (simp add: table_names Un_assoc)
qed

end
