(* ===== verification/Method_Properties.thy ===== *)
theory Method_Properties
  imports Safety_Gate
begin

text \<open>
  What the input methods of the catalog put on the wire: typing, holding, dragging, moving and
  scrolling, for every answer of the device.
\<close>

section \<open>Loops that succeed\<close>

lemma for_each_success:
  assumes "for_each f xs env tr = (Inr (), tr')"
    and "\<And>x tr r tr'. x \<in> set xs \<Longrightarrow> f x env tr = (Inr r, tr') \<Longrightarrow> tr' = tr @ g x"
  shows "tr' = tr @ concat (map g xs)"
  using assms
proof (induction xs arbitrary: tr)
  case Nil
  then show ?case by (simp add: ret_def)
next
  case (Cons x xs)
  obtain r tr1 where f: "f x env tr = (r, tr1)" by fastforce
  with Cons.prems(1) obtain a where a: "r = Inr a" "for_each f xs env tr1 = (Inr (), tr')"
    by (cases r) (auto simp: andthen_def)
  then have "tr1 = tr @ g x" using Cons.prems(2) f by simp
  with Cons.IH [OF a(2)] Cons.prems(2) show ?case by simp
qed

section \<open>Typing\<close>

definition typed_calls :: "typed_report \<Rightarrow> trace" where
  "typed_calls p = [(EvKeyboard (tr_modifier p) (tr_keys p), True), (EvReleaseKeyboard False, True)]"

lemma type_report_success:
  "type_report p env tr = (Inr r, tr') \<Longrightarrow> tr' = tr @ typed_calls p"
  by (auto simp: type_report_def typed_calls_def act_defs split: sum.splits)

text \<open>
  C10. A typed text is sent exactly. When \<open>type\<close> succeeds, the calls are one acquisition, for each
  character in order its mapped report and a keyboard release, each accepted, and one release of
  the lease; nothing else is sent.
\<close>

theorem typed_text_is_sent_exactly:
  assumes "methodType inp env tr = (Inr out, tr')"
  shows "\<exists>presses ok. MapTypeReports (en_category env) (in_text inp) = Inr presses \<and>
    tr' = tr @ (EvAcquire, True) # concat (map typed_calls presses) @ [(EvRelease, ok)]"
proof -
  let ?tr = "tr @ [(EvAcquire, True)]"
  obtain presses where p: "MapTypeReports (en_category env) (in_text inp) = Inr presses"
    "\<exists>tr2. for_each type_report presses env ?tr = (Inr (), tr2) \<and>
       tr' = snd (perform EvRelease env tr2)"
    using assms
    by (auto simp: methodType_def ControlLease_def with_lease_def finally_do_def andthen_def
        reading_def perform_def check_def ret_def fail_def refuse_def
        split: if_splits sum.splits prod.splits)
  then obtain tr2 where l: "for_each type_report presses env ?tr = (Inr (), tr2)"
    "tr' = snd (perform EvRelease env tr2)" by blast
  have "tr2 = ?tr @ concat (map typed_calls presses)"
    by (rule for_each_success [OF l(1)]) (rule type_report_success)
  moreover obtain ok where "tr' = tr2 @ [(EvRelease, ok)]"
    using l(2) by (cases "en_answer env tr2 EvRelease") (auto simp: perform_def)
  ultimately show ?thesis using p(1) by auto
qed

theorem typed_text_is_sent_exactly_witness:
  "let env = happy\<lparr>en_allowControl := True\<rparr> in
     snd (methodType (typeInput (runes ''a'')) env []) =
       [(EvAcquire, True), (EvKeyboard 0 [4, 0, 0, 0, 0, 0], True), (EvReleaseKeyboard False, True),
        (EvRelease, True)]"
proof -
  let ?env = "happy\<lparr>en_allowControl := True\<rparr>"
  let ?run = "methodType (typeInput (runes ''a'')) ?env []"
  have r: "snd ?run = [(EvAcquire, True), (EvKeyboard 0 [4, 0, 0, 0, 0, 0], True), (EvReleaseKeyboard False, True),
      (EvRelease, True)]" "is_ok (fst ?run)"
    by code_simp+
  then obtain out where "?run = (Inr out, snd ?run)" by (cases "fst ?run"; cases ?run) auto
  from typed_text_is_sent_exactly [OF this] r(1) show ?thesis by (simp add: Let_def)
qed

section \<open>Presses are let go\<close>

text \<open>
  What is down by the calls of a trace: keys and a pointer button. A press counts when it was
  accepted; a release counts when it was tried. The lease changes hands only with nothing down.
\<close>

fun press_run :: "bool \<times> bool \<Rightarrow> trace \<Rightarrow> (bool \<times> bool) option" where
  "press_run (k, p) [] = Some (k, p)"
| "press_run (k, p) ((ev, ok) # es) = (case ev of
      EvKeyboard _ _ \<Rightarrow> press_run (k \<or> ok, p) es
    | EvReleaseKeyboard _ \<Rightarrow> press_run (False, p) es
    | EvPointer _ _ b _ \<Rightarrow> press_run (k, b \<noteq> 0 \<and> (p \<or> ok)) es
    | EvAcquire \<Rightarrow> (if k \<or> p then None else press_run (k, p) es)
    | EvRelease \<Rightarrow> (if k \<or> p then None else press_run (k, p) es)
    | _ \<Rightarrow> press_run (k, p) es)"

lemma press_run_append:
  "press_run s (a @ b) = (case press_run s a of None \<Rightarrow> None | Some s' \<Rightarrow> press_run s' b)"
  by (induction s a rule: press_run.induct) (auto split: kvm_event.split)

abbreviation settled :: "'a act \<Rightarrow> bool" where
  "settled m \<equiv> extends (\<lambda>ex. press_run (False, False) ex = Some (False, False)) m"

interpretation presses: trace_property "\<lambda>ex. press_run s ex = Some s" for s
  by unfold_locales (cases s, auto simp: press_run_append)

lemma settled_perform [extends_intros]:
  "press_run (False, False) [(ev, True)] = Some (False, False) \<Longrightarrow>
   press_run (False, False) [(ev, False)] = Some (False, False) \<Longrightarrow> settled (perform ev)"
  by (rule extends_perform) simp_all

context trace_property
begin

lemma checked_rule:
  "(\<And>a. r = Inr a \<Longrightarrow> extends Q (f a)) \<Longrightarrow> extends Q (andthen (check g r) f)"
  by (cases r) (auto simp: extends_def andthen_def check_def fail_def ret_def none)

end

lemma settled_keys:
  "settled (pressAndRelease md keys hold)" "settled (type_report p)"
  by (auto simp: pressAndRelease_def type_report_def extends_def act_defs split: sum.split)

lemma settled_click:
  "settled (andthen (send_pointer x y b False) (\<lambda>_. andthen (send_pointer x y 0 False) (\<lambda>_. ret out)))"
  by (auto simp: send_pointer_def extends_def act_defs split: sum.split)

lemma settled_move: "settled (send_pointer x y 0 bg)"
  unfolding send_pointer_def by (rule settled_perform) simp_all

fun is_pointer :: "kvm_event \<Rightarrow> bool" where
  "is_pointer (EvPointer _ _ _ _) = True"
| "is_pointer _ = False"

lemma press_run_pointers:
  "\<forall>x \<in> set ex. is_pointer (fst x) \<Longrightarrow> \<exists>q. press_run (k, p) ex = Some (k, q)"
proof (induction ex arbitrary: p)
  case (Cons x ex)
  then show ?case by (cases x; cases "fst x") auto
qed simp

lemma emits_pointer: "emits is_pointer (for_each send_report rs)"
  unfolding send_report_def send_pointer_def by (intro extends_intros; simp)

lemma settled_drag:
  assumes "rs \<noteq> []" "dr_buttons (last rs) = 0"
  shows "settled (on_error (for_each send_report rs) (send_pointer x y 0 True))"
  unfolding extends_def
proof (intro allI)
  fix env tr
  obtain v tr' where run: "for_each send_report rs env tr = (v, tr')" by fastforce
  obtain ex where ex: "tr' = tr @ ex" "\<forall>x \<in> set ex. is_pointer (fst x)"
    using extendsE [OF emits_pointer [of rs], of env tr] run by auto
  obtain q where q: "press_run (False, False) ex = Some (False, q)"
    using press_run_pointers [OF ex(2)] by blast
  show "\<exists>ex. snd (on_error (for_each send_report rs) (send_pointer x y 0 True) env tr) = tr @ ex \<and>
      press_run (False, False) ex = Some (False, False)"
  proof (cases v)
    case (Inl e)
    with run ex(1) q show ?thesis
      by (auto simp: on_error_def send_pointer_def perform_def press_run_append split: sum.split)
  next
    case (Inr u)
    let ?sent = "\<lambda>r. [(EvPointer (word_of_int (dr_x r)) (word_of_int (dr_y r))
        (word_of_int (dr_buttons r)) False, True)]"
    have "tr' = tr @ concat (map ?sent rs)"
      by (rule for_each_success [where f = send_report and env = env])
        (use run Inr in \<open>auto simp: send_report_def send_pointer_def perform_def split: sum.splits\<close>)
    moreover have "rs = butlast rs @ [last rs]" using assms(1) by simp
    ultimately have "ex = concat (map ?sent (butlast rs)) @ ?sent (last rs)"
      using ex(1) by (metis (no_types, lifting) append_Nil2 concat.simps concat_append list.simps(8,9)
          map_append same_append_eq)
    with q assms(2) have "q = False"
      using press_run_pointers [of "concat (map ?sent (butlast rs))" False False]
      by (auto simp: press_run_append split: option.splits)
    with run Inr ex(1) q show ?thesis by (auto simp: on_error_def)
  qed
qed


lemma settled_with_lease:
  assumes "settled body"
  shows "settled (with_lease body)"
  unfolding with_lease_def
  by (intro presses.andthen_rule presses.finally_rule assms settled_perform) simp_all

lemma settled_drag_body:
  "BuildPointerDrag opts = Inr rs \<Longrightarrow> settled (on_error (for_each send_report rs) (send_pointer x y 0 True))"
  by (rule settled_drag)
    (auto simp: BuildPointerDrag_def BuildPointerDragReports_Inr_iff drag_reports_def Let_def)

lemma settled_input:
  "settled (methodKeys inp)" "settled (methodType inp)" "settled (methodPointer inp)"
  "settled (methodDrag inp)"
  unfolding methodKeys_def methodType_def methodPointer_def methodDrag_def Let_def press_named_def
    macro_step_def
  by (intro extends_intros presses.checked_rule settled_with_lease settled_keys settled_click
      settled_move settled_drag_body; simp)+


lemma settled_scroll: "settled (methodScroll inp)"
  unfolding methodScroll_def client_Scroll_def release_after_def scroll_rpc_def
  by (intro extends_intros; simp)

lemma settled_console: "settled (run_console c)"
proof (rule presses.console_rule)
  fix c :: transport_call
  show "settled (transport c)"
    by (cases c) (auto simp: nothing_def intro!: extends_intros settled_input)
qed

lemma settled_tables:
  "(m, f) \<in> set observation_table \<Longrightarrow> settled (f eng inp)"
  "(m, f) \<in> set input_table \<Longrightarrow> settled (f eng inp)"
  "(m, f) \<in> set config_table \<Longrightarrow> settled (f eng inp)"
  by (auto simp: observation_table_def observation_defs
      intro!: extends_intros presses.diagnostics_rule presses.call_rule)
    (auto simp: input_table_def console_defs intro!: settled_input settled_scroll extends_intros settled_console,
     auto simp: config_table_def config_defs summary_def methodRawRPC_def
      intro!: extends_intros presses.call_rule)

text \<open>
  C6. Whatever was pressed is let go. Over a whole dispatch, in every environment and with every
  console engine, each accepted key chord or pointer button is followed by an attempt to release
  it before the lease is given back or the dispatch ends, on error paths and after a cancelled
  hold too.
\<close>

theorem presses_are_let_go:
  "\<exists>ex. snd (dispatch eng inp env tr) = tr @ ex \<and> press_run (False, False) ex = Some (False, False)"
proof -
  have "settled (runMethod eng inp)"
    by (rule runMethod_rule) (auto intro: settled_tables extends_intros)
  then have "settled (dispatch eng inp)"
    unfolding dispatch_def by (auto intro!: extends_intros split: option.split)
  from extendsE [OF this, of env tr] show ?thesis by metis
qed

section \<open>Moving\<close>

fun hovers :: "kvm_event \<Rightarrow> bool" where
  "hovers (EvPointer _ _ b _) = (b = 0)"
| "hovers ev = (ev = EvAcquire \<or> ev = EvRelease)"

text \<open>
  Only \<open>click\<close> presses a button. \<open>mouse\<close> and \<open>move\<close>, with or without a \<open>button\<close>, send nothing but
  pointer reports with no button down, between an acquisition and a release.
\<close>

theorem moving_never_presses:
  assumes "in_method inp \<noteq> ''click''"
  shows "\<exists>ex. snd (methodPointer inp env tr) = tr @ ex \<and> (\<forall>x \<in> set ex. hovers (fst x))"
proof -
  have "emits hovers (methodPointer inp)"
    using assms unfolding methodPointer_def send_pointer_def Let_def
    by (auto intro!: extends_intros)
  from extendsE [OF this, of env tr] show ?thesis by metis
qed

theorem moving_never_presses_witness:
  "let inp = zero_input\<lparr>in_method := ''move'', in_button := ''left'', in_x := 5, in_y := 6\<rparr>;
       env = happy\<lparr>en_allowControl := True\<rparr> in
     snd (methodPointer inp env []) = [(EvAcquire, True), (EvPointer 5 6 0 False, True), (EvRelease, True)] \<and>
     list_all (\<lambda>x. hovers (fst x)) (snd (methodPointer inp env []))"
proof -
  let ?inp = "zero_input\<lparr>in_method := ''move'', in_button := ''left'', in_x := 5, in_y := 6\<rparr>"
  let ?env = "happy\<lparr>en_allowControl := True\<rparr>"
  have "snd (methodPointer ?inp ?env []) =
      [(EvAcquire, True), (EvPointer 5 6 0 False, True), (EvRelease, True)]" by code_simp
  moreover have "in_method ?inp \<noteq> ''click''" by (simp add: zero_input_def)
  ultimately show ?thesis
    using moving_never_presses [of ?inp ?env "[]"] by (auto simp: Let_def list_all_iff)
qed

section \<open>Gaps\<close>

text \<open>
  Clamping a scroll does not always bring it into range. An offset of at least 127 is clamped to
  127 and accepted; one of at most -128 is clamped to -128, which the client's own range -127..127
  refuses, so that the operation fails before any call.
\<close>

theorem scroll_clamp_gap:
  assumes "in_scrollY inp \<le> - 128"
  shows "(\<exists>e. methodScroll inp env tr = (Inl (ControlError e), tr)) \<and>
    int8clamp (- in_scrollY inp) = 127 \<and> is_ok (ValidateScroll 0 (sint (int8clamp (- in_scrollY inp))))"
proof -
  have "int8clamp (in_scrollY inp) = - 128" using assms by (auto simp: int8clamp_def)
  then have "\<exists>e. ValidateScroll d (sint (int8clamp (in_scrollY inp))) = Inl e" for d
    by (auto simp: ValidateScroll_def bound_defs)
  then obtain e where "ValidateScroll (sint (int8clamp (in_scrollX inp))) (sint (int8clamp (in_scrollY inp))) = Inl e"
    by blast
  then have "\<exists>e. methodScroll inp env tr = (Inl (ControlError e), tr)"
    by (auto simp: methodScroll_def client_Scroll_def act_defs)
  moreover have "int8clamp (- in_scrollY inp) = 127" using assms by (auto simp: int8clamp_def)
  ultimately show ?thesis by (simp add: ValidateScroll_def bound_defs)
qed

theorem scroll_clamp_gap_witness:
  "\<exists>e. methodScroll (zero_input\<lparr>in_scrollY := - 200\<rparr>) (happy\<lparr>en_allowControl := True\<rparr>) [] =
     (Inl (ControlError e), [])"
  using scroll_clamp_gap [of "zero_input\<lparr>in_scrollY := - 200\<rparr>" "happy\<lparr>en_allowControl := True\<rparr>" "[]"]
  by simp

text \<open>The hold bound does not apply to the steps of a macro.\<close>

lemma macro_hold_unbounded:
  assumes "ResolveKeyCombo (en_lower env) k = Inr (md, keys)" "en_allowControl env"
    "\<And>tr ev. en_answer env tr ev = Inr JNull" "d \<noteq> 0" "in_holdMs inp = 0" "in_method inp = ''macro''"
    "in_macro inp = [\<lparr>ms_keys = [k], ms_modifiers = [], ms_delay = d\<rparr>]"
  shows "snd (methodKeys inp env []) =
    [(EvAcquire, True), (EvKeyboard md keys, True), (EvHold d, True), (EvReleaseKeyboard False, True),
     (EvRelease, True)]"
  using assms by (simp add: methodKeys_def holdDefaultMS_def macro_step_def resolveMacroStep_def
      resolve_def ValidateHoldMS_def bound_defs act_defs ControlLease_def pressAndRelease_def)

lemma key_hold_bounded: "5000 < in_holdMs inp \<Longrightarrow> snd (methodKeys inp env []) = []"
  by (simp add: methodKeys_def ValidateHoldMS_def bound_defs act_defs Let_def)

section \<open>The console transport\<close>

text \<open>The routes of \<open>jetkvmTransport\<close>: \<open>runMethod\<close> on its inputs is the method the model calls.\<close>

lemma transport_is_runMethod:
  "runMethod eng (keyInput ''key'' v h) = methodKeys (keyInput ''key'' v h)"
  "runMethod eng (keyInput ''key-combo'' v h) = methodKeys (keyInput ''key-combo'' v h)"
  "runMethod eng (typeInput v) = methodType (typeInput v)"
proof -
  have m: "map_of (observation_table @ input_table @ config_table) ''key'' = Some (\<lambda>_. methodKeys)"
    "map_of (observation_table @ input_table @ config_table) ''key-combo'' = Some (\<lambda>_. methodKeys)"
    "map_of (observation_table @ input_table @ config_table) ''type'' = Some (\<lambda>_. methodType)"
    by (rule map_of_is_SomeI,
      use routed_distinct in \<open>simp add: table_names\<close>, simp add: input_table_def)+
  have i: "in_method (keyInput ''key'' v h) = ''key''"
    "in_method (keyInput ''key-combo'' v h) = ''key-combo''" "in_method (typeInput v) = ''type''"
    by (simp_all add: keyInput_def typeInput_def)
  show "runMethod eng (keyInput ''key'' v h) = methodKeys (keyInput ''key'' v h)"
    "runMethod eng (keyInput ''key-combo'' v h) = methodKeys (keyInput ''key-combo'' v h)"
    "runMethod eng (typeInput v) = methodType (typeInput v)"
    unfolding runMethod_def i m by simp_all
qed

end
