(* ===== verification/Signaling_Properties.thy ===== *)
theory Signaling_Properties
  imports Signaling "HOL-Library.Multiset"
begin

text \<open>
  The trickle of ICE candidates in both directions loses nothing: the pump hands every remote
  candidate to the peer connection once it can take them, no message ends the pump, and a local
  candidate reaches the wire once and never before the offer.
\<close>

section \<open>Remote candidates\<close>

definition adds_of :: "('sd, 'cand) pc_trace \<Rightarrow> 'cand list" where
  "adds_of tr = concat (map (\<lambda>(call, ok). case call of AddICECandidate c \<Rightarrow> [c] | SetRemoteDescription sd \<Rightarrow> []) tr)"

definition candidates :: "('sd, 'cand) signalingEvent list \<Rightarrow> 'cand list" where
  "candidates evs = concat (map (\<lambda>e. case e of CandidateEvent c \<Rightarrow> [c] | _ \<Rightarrow> []) evs)"

lemma adds_of_simps [simp]:
  "adds_of [] = []" "adds_of (tr @ tr') = adds_of tr @ adds_of tr'"
  "adds_of [(SetRemoteDescription sd, ok)] = []" "adds_of [(AddICECandidate c, ok)] = [c]"
  by (simp_all add: adds_of_def)

lemma candidates_simps [simp]:
  "candidates [] = []" "candidates (e # evs) = candidates [e] @ candidates evs"
  "candidates (evs @ evs') = candidates evs @ candidates evs'"
  "candidates [CandidateEvent c] = [c]" "candidates [AnswerEvent sd] = []"
  "candidates [MalformedEvent t] = []" "candidates [UnhandledEvent t] = []"
  by (simp_all add: candidates_def)

declare candidates_simps(2) [simp del]

lemmas pump_defs = pc_do_def pump_record_def Let_def case_prod_beta

lemma add_candidate_fields:
  "pp_pending (add_candidate oracle c st) = pp_pending st"
  "pp_answered (add_candidate oracle c st) = pp_answered st"
  "pp_stopped (add_candidate oracle c st) = pp_stopped st"
  "adds_of (pp_calls (add_candidate oracle c st)) = adds_of (pp_calls st) @ [c]"
  by (simp_all add: add_candidate_def pump_defs)

lemma add_all_fields:
  "pp_answered (fold (add_candidate oracle) cs st) = pp_answered st"
  "pp_stopped (fold (add_candidate oracle) cs st) = pp_stopped st"
  "adds_of (pp_calls (fold (add_candidate oracle) cs st)) = adds_of (pp_calls st) @ cs"
  by (induction cs arbitrary: st) (simp_all add: add_candidate_fields)

definition waiting_inv :: "('sd, 'cand) signalingEvent list \<Rightarrow> ('sd, 'cand) pump \<Rightarrow> bool" where
  "waiting_inv evs st \<longleftrightarrow> \<not> pp_stopped st \<and> (\<not> pp_answered st \<longrightarrow>
     adds_of (pp_calls st) = [] \<and> pp_pending st = take maxPendingRemoteCandidates (candidates evs)) \<and>
     (pp_answered st \<longrightarrow> pp_pending st = [])"

lemma waiting_step:
  assumes "waiting_inv evs st"
  shows "waiting_inv (evs @ [e]) (pump_event oracle e st)"
proof (cases e)
  case (AnswerEvent sd)
  then show ?thesis using assms by (simp add: waiting_inv_def pump_defs add_all_fields)
next
  case (CandidateEvent c)
  show ?thesis
  proof (cases "pp_answered st")
    case False
    then show ?thesis
      using assms CandidateEvent
      by (cases "length (candidates evs) < maxPendingRemoteCandidates")
        (simp_all add: waiting_inv_def pump_defs)
  qed (use assms CandidateEvent in \<open>simp add: waiting_inv_def add_candidate_fields\<close>)
qed (use assms in \<open>simp_all add: waiting_inv_def pump_defs\<close>)

lemma waiting_run: "waiting_inv evs (fold (pump_event oracle) evs pump_start)"
  by (induction evs rule: rev_induct) (simp_all add: waiting_step, simp add: waiting_inv_def pump_start_def)

lemma answered_run:
  assumes "pp_answered st" "pp_pending st = []"
  shows "pp_answered (fold (pump_event oracle) evs st) \<and>
    adds_of (pp_calls (fold (pump_event oracle) evs st)) = adds_of (pp_calls st) @ candidates evs"
  using assms
proof (induction evs arbitrary: st)
  case (Cons e evs)
  have "pp_answered (pump_event oracle e st) \<and> pp_pending (pump_event oracle e st) = [] \<and>
      adds_of (pp_calls (pump_event oracle e st)) = adds_of (pp_calls st) @ candidates [e]"
    using Cons.prems by (cases e) (simp_all add: pump_defs add_candidate_fields)
  then show ?case using Cons.IH [of "pump_event oracle e st"] by (simp add: candidates_simps(2) [of e evs])
qed simp

lemma pump_frames:
  "pumpSignalingEvents cd ulow oracle (map (\<lambda>data. (False, Inr data)) frames) st =
     fold (pump_event oracle) (map (classify_frame cd) frames) st"
  by (induction frames arbitrary: st) (simp_all add: next_event_def)

text \<open>
  C31. No remote candidate is lost and no message ends the pump. Whatever frames the device sends,
  known, unknown or malformed, the pump goes on; and once an answer is applied the peer
  connection has been given, in order of arrival and once each, the candidates that came before
  it (at most 64 of them are kept) and all that came after it, and none before.
\<close>

theorem remote_candidates_kept:
  assumes "classify_frame cd answer = AnswerEvent sd"
    and "st1 = pumpSignalingEvents cd ulow oracle (map (\<lambda>data. (False, Inr data)) before) pump_start"
    and "\<not> pp_answered st1" and "oracle (pp_calls st1) (SetRemoteDescription sd)"
    and "st = pumpSignalingEvents cd ulow oracle (map (\<lambda>data. (False, Inr data)) (before @ answer # after)) pump_start"
  shows "\<not> pp_stopped st \<and> adds_of (pp_calls st1) = [] \<and>
    adds_of (pp_calls st) = take maxPendingRemoteCandidates (candidates (map (classify_frame cd) before)) @
      candidates (map (classify_frame cd) after)"
proof -
  let ?cands = "candidates (map (classify_frame cd) before)"
  have st1: "waiting_inv (map (classify_frame cd) before) st1"
    using waiting_run assms(2) by (simp add: pump_frames)
  then have none: "adds_of (pp_calls st1) = []" "pp_pending st1 = take maxPendingRemoteCandidates ?cands"
    using assms(3) by (simp_all add: waiting_inv_def)
  define st2 where "st2 = pump_event oracle (AnswerEvent sd) st1"
  have st2: "pp_answered st2" "pp_pending st2 = []"
      "adds_of (pp_calls st2) = take maxPendingRemoteCandidates ?cands"
    using assms(4) none by (simp_all add: st2_def pump_defs add_all_fields)
  have "st = fold (pump_event oracle) (map (classify_frame cd) after) st2"
    using assms(1,2) assms(5) [unfolded pump_frames]
    by (simp add: pump_frames st2_def del: pump_event.simps)
  moreover have "\<not> pp_stopped st"
    using waiting_run [of "map (classify_frame cd) (before @ answer # after)" "oracle"] assms(5)
    unfolding pump_frames by (simp add: waiting_inv_def del: map_append)
  ultimately show ?thesis using answered_run [OF st2(1,2)] st2(3) none(1) by simp
qed

definition toy_codec :: "(text_runes, nat, nat) signaling_codec" where
  "toy_codec = \<lparr>sc_envelope = \<lambda>data. case data of
        [] \<Rightarrow> None
      | b # bs \<Rightarrow> Some (if b = 0 then runes ''answer'' else if b = 1 then runes ''new-ice-candidate''
                       else runes ''hello'', map uint bs),
     sc_string = Some, sc_base64 = \<lambda>t. Some (map word_of_int t), sc_session = \<lambda>bs. Some (length bs),
     sc_candidate = \<lambda>t. Some (length t)\<rparr>"

theorem remote_candidates_kept_witness:
  "adds_of (pp_calls (pumpSignalingEvents toy_codec id (\<lambda>_ _. True)
     (map (\<lambda>data. (False, Inr data)) ([[1, 7], [], [2]] @ [0] # [[1], [9]])) pump_start)) = [1, 0]"
proof -
  have a: "classify_frame toy_codec [0] = AnswerEvent 0" by code_simp
  have b: "\<not> pp_answered (pumpSignalingEvents toy_codec id (\<lambda>_ _. True)
      (map (\<lambda>data. (False, Inr data)) [[1, 7], [], [2]]) (pump_start :: (nat, nat) pump))"
    by code_simp
  have c: "candidates (map (classify_frame toy_codec) [[1, 7], [], [2]]) = [1]"
    "candidates (map (classify_frame toy_codec) [[1], [9]]) = [0]"
    by code_simp+
  show ?thesis
    using remote_candidates_kept [OF a refl b TrueI refl, of "[[1], [9]]"] c
    by (simp add: maxPendingRemoteCandidates_def)
qed

text \<open>The categories that the pump records are of the closed vocabulary.\<close>

lemma pump_stops_iff:
  "pp_stopped (pumpSignalingEvents cd ulow oracle inputs st) \<longleftrightarrow>
     pp_stopped st \<or> (\<exists>(ctxDone, frame) \<in> set inputs. ctxDone \<or> \<not> is_ok frame)"
proof (induction inputs arbitrary: st)
  case (Cons i inputs)
  obtain ctxDone frame where i: "i = (ctxDone, frame)" by fastforce
  have "pp_stopped (pump_event oracle e st) = pp_stopped st" for e
    by (cases e) (auto simp: pump_defs add_all_fields add_candidate_fields)
  then show ?case using Cons i
    by (cases frame) (auto simp: next_event_def pump_stop_def pump_record_def)
qed simp

section \<open>Local candidates\<close>

definition wire_candidates :: "'cand wire_message list \<Rightarrow> 'cand list" where
  "wire_candidates ws = concat (map (\<lambda>m. case m of CandidateMessage c \<Rightarrow> [c] | OfferMessage \<Rightarrow> []) ws)"

lemma wire_candidates_simps [simp]:
  "wire_candidates [] = []" "wire_candidates (ws @ ws') = wire_candidates ws @ wire_candidates ws'"
  "wire_candidates [CandidateMessage c] = [c]" "wire_candidates [OfferMessage] = []"
  by (simp_all add: wire_candidates_def)

definition accounted :: "'cand local_gate \<Rightarrow> 'cand multiset" where
  "accounted g = mset (wire_candidates (lg_wire g)) + mset (lg_failed g) + mset (lg_queued g) +
     mset (lg_flush g) + mset (lg_direct g)"

definition offer_first :: "'cand wire_message list \<Rightarrow> bool" where
  "offer_first ws \<longleftrightarrow> (\<exists>cs. ws = OfferMessage # map CandidateMessage cs)"

definition gate_inv :: "'cand local_gate \<Rightarrow> bool" where
  "gate_inv g \<longleftrightarrow> (if lg_offerOnWire g
     then lg_queued g = [] \<and> offer_first (lg_wire g) \<and> (lg_phase g = GateDone \<longrightarrow> lg_flush g = []) \<and>
       lg_phase g \<in> {Flushing, GateDone, GateFailed}
     else lg_direct g = [] \<and> lg_flush g = [] \<and> lg_wire g = (if lg_phase g = OfferSent then [OfferMessage] else []) \<and>
       lg_phase g \<in> {BeforeOffer, OfferSent, GateFailed})"

lemma offer_first_snoc: "offer_first ws \<Longrightarrow> offer_first (ws @ [CandidateMessage c])"
  unfolding offer_first_def by (metis append_Cons list.map(1) list.simps(9) map_append)

lemma take_drop_mset: "i < length xs \<Longrightarrow> add_mset (xs ! i) (mset (take i xs) + mset (drop (Suc i) xs)) = mset xs"
  by (metis Cons_nth_drop_Suc append_take_drop_id mset.simps(2) mset_append union_mset_add_mset_right)

lemmas gate_defs = on_candidate_def send_direct_def send_offer_def open_gate_def flush_next_def
  sent_or_failed_def Let_def

lemma gate_step_accounted:
  assumes "gate_step e g = Some g'" "accounted g = mset (lg_gathered g)" "gate_inv g"
  shows "accounted g' = mset (lg_gathered g')"
proof (cases e)
  case (SendDirect i ok)
  then have "i < length (lg_direct g)" using assms(1) by (simp add: send_direct_def split: if_splits)
  then show ?thesis
    using assms(1,2) SendDirect
    by (auto simp: accounted_def gate_defs take_drop_mset [of i "lg_direct g", symmetric])
next
  case OpenGate
  then show ?thesis using assms by (auto simp: accounted_def gate_inv_def gate_defs split: if_splits)
qed (use assms(1,2) in \<open>auto simp: accounted_def gate_defs split: if_splits list.splits\<close>)

lemma gate_step_inv:
  assumes "gate_step e g = Some g'" "gate_inv g"
  shows "gate_inv g'"
proof (cases e)
  case (OnCandidate c)
  then show ?thesis using assms by (auto simp: gate_inv_def gate_defs split: if_splits)
next
  case (SendDirect i ok)
  then show ?thesis
    using assms by (auto simp: gate_inv_def gate_defs offer_first_snoc split: if_splits)
next
  case (SendOffer ok)
  then show ?thesis using assms by (auto simp: gate_inv_def gate_defs split: if_splits)
next
  case OpenGate
  then show ?thesis
    using assms by (auto simp: gate_inv_def gate_defs offer_first_def split: if_splits)
next
  case (FlushNext a ok b)
  then show ?thesis
    using assms by (auto simp: gate_inv_def gate_defs offer_first_snoc split: if_splits list.splits)
qed

lemma gate_reach_inv: "gate_reach g \<Longrightarrow> accounted g = mset (lg_gathered g) \<and> gate_inv g"
proof (induction rule: gate_reach.induct)
  case start
  show ?case by (simp add: accounted_def gate_inv_def gate_start_def)
qed (use gate_step_accounted gate_step_inv in blast)

text \<open>
  C32. A local candidate reaches the wire once and never before the offer. Whatever the order of the
  library's callbacks and the establishing goroutine, nothing is sent before the offer, the
  offer is sent once, and every gathered candidate is in exactly one place: sent, refused by the
  transport, or on its way; after the flush, with no callback under way, none is left behind.
\<close>

theorem local_candidates_sent_once:
  assumes "gate_reach g"
  shows "(lg_wire g = [] \<or> offer_first (lg_wire g)) \<and> accounted g = mset (lg_gathered g) \<and>
    (lg_phase g = GateDone \<longrightarrow> lg_direct g = [] \<longrightarrow>
      mset (lg_gathered g) = mset (wire_candidates (lg_wire g)) + mset (lg_failed g))"
proof -
  have inv: "accounted g = mset (lg_gathered g)" "gate_inv g" using gate_reach_inv [OF assms] by auto
  have "lg_wire g = [] \<or> offer_first (lg_wire g)"
    using inv(2) by (auto simp: gate_inv_def offer_first_def split: if_splits)
  moreover have "mset (lg_gathered g) = mset (wire_candidates (lg_wire g)) + mset (lg_failed g)"
    if "lg_phase g = GateDone" "lg_direct g = []"
    using inv that by (auto simp: gate_inv_def accounted_def split: if_splits)
  ultimately show ?thesis using inv(1) by blast
qed

fun gate_run :: "'cand gate_event list \<Rightarrow> 'cand local_gate \<Rightarrow> 'cand local_gate option" where
  "gate_run [] g = Some g"
| "gate_run (e # es) g = (case gate_step e g of None \<Rightarrow> None | Some g' \<Rightarrow> gate_run es g')"

lemma gate_reach_run: "gate_reach g \<Longrightarrow> gate_run es g = Some g' \<Longrightarrow> gate_reach g'"
  by (induction es arbitrary: g) (auto split: option.splits intro: gate_reach.step)

theorem local_candidates_sent_once_witness:
  "\<exists>g. gate_run [OnCandidate 1, SendOffer True, OpenGate, OnCandidate (2 :: nat), SendDirect 0 True,
       FlushNext False True False, FlushNext False True False] gate_start = Some g \<and>
     lg_wire g = [OfferMessage, CandidateMessage 2, CandidateMessage 1] \<and> accounted g = {#1, 2#}"
proof -
  let ?es = "[OnCandidate 1, SendOffer True, OpenGate, OnCandidate (2 :: nat), SendDirect 0 True,
       FlushNext False True False, FlushNext False True False]"
  obtain g where g: "gate_run ?es gate_start = Some g"
    by (simp add: gate_start_def on_candidate_def send_offer_def open_gate_def send_direct_def
        sent_or_failed_def flush_next_def)
  then have "lg_wire g = [OfferMessage, CandidateMessage 2, CandidateMessage 1]" "lg_gathered g = [1, 2]"
    by (auto simp: gate_start_def on_candidate_def send_offer_def open_gate_def send_direct_def
        sent_or_failed_def flush_next_def)
  then show ?thesis
    using local_candidates_sent_once [OF gate_reach_run [OF gate_reach.start g]] g by auto
qed

end
