(* ===== verification/Fake_Device.thy ===== *)
theory Fake_Device
  imports Hidproto Session_Setup
begin

text \<open>
  The loopback device that the end-to-end tests run against: \<open>internal/fakedevice/fakedevice.go\<close>.
  Its HTTP handlers, the signaling loop, the answers on the \<open>rpc\<close> channel and the capture of the
  frames that arrive; what it does with HID frames is \<open>device_receive\<close> of \<open>Hidproto\<close>.

  JSON, the websocket, pion and the timers are libraries: a handler takes what they return, and
  its answer holds the value that is encoded.
\<close>

section \<open>State\<close>

datatype RPCResponseMode = RPCNormal | RPCTruncated | RPCOversized

record fake_options =
  fo_password :: text_runes
  fo_deviceStatusFailures :: int
  fo_deviceStatusDelay :: int
  fo_rpcResponseDelay :: int
  fo_rpcResponseMode :: RPCResponseMode
  fo_rpcDisconnects :: int
  fo_captureWire :: bool

text \<open>The counters and the token, all under \<open>mu\<close>; \<open>fd_input\<close> holds the two mouse interfaces.\<close>

record fake_device =
  fd_opts :: fake_options
  fd_authToken :: text_runes
  fd_statusRequests :: int
  fd_loginRequests :: int
  fd_signalingConnections :: int
  fd_rpcRequests :: int
  fd_input :: device

definition Start :: "fake_options \<Rightarrow> fake_device" where
  "Start opts = \<lparr>fd_opts = opts, fd_authToken = [], fd_statusRequests = 0, fd_loginRequests = 0,
     fd_signalingConnections = 0, fd_rpcRequests = 0, fd_input = device_init\<rparr>"

definition MouseInterfaceState :: "fake_device \<Rightarrow> absolute_mouse \<times> relative_mouse" where
  "MouseInterfaceState fd = (hidg1 (fd_input fd), hidg2 (fd_input fd))"

definition WireCounts :: "fake_device \<Rightarrow> int \<times> nat" where
  "WireCounts fd = (fd_rpcRequests fd, hid_requests (fd_input fd))"

definition Counts :: "fake_device \<Rightarrow> int \<times> int \<times> int \<times> int" where
  "Counts fd = (fd_statusRequests fd, fd_loginRequests fd, fd_signalingConnections fd, fd_rpcRequests fd)"

section \<open>HTTP\<close>

text \<open>A response: its status, the value that is encoded as its body and the cookie it sets.\<close>

datatype fake_body =
    NoBody
  | TextFields "(text_runes \<times> text_runes) list"
  | StatusBody bool
  | DeviceBody text_runes text_runes

record fake_response =
  fr_status :: int
  fr_body :: fake_body
  fr_cookie :: "text_runes option"

definition reply :: "int \<Rightarrow> fake_body \<Rightarrow> fake_response" where
  "reply status body = \<lparr>fr_status = status, fr_body = body, fr_cookie = None\<rparr>"

definition requireAuth :: "text_runes option \<Rightarrow> fake_device \<Rightarrow> bool" where
  "requireAuth cookie fd \<longleftrightarrow> fo_password (fd_opts fd) = [] \<or>
    (case cookie of None \<Rightarrow> False | Some v \<Rightarrow> fd_authToken fd \<noteq> [] \<and> v = fd_authToken fd)"

text \<open>\<open>timerFirst\<close>: the timer fired before the request's context ended.\<close>

definition waitForRequest :: "int \<Rightarrow> bool \<Rightarrow> bool" where
  "waitForRequest delay timerFirst \<longleftrightarrow> delay \<le> 0 \<or> timerFirst"

text \<open>No response is written when the request is gone.\<close>

definition handleDeviceStatus :: "bool \<Rightarrow> fake_device \<Rightarrow> fake_response option \<times> fake_device" where
  "handleDeviceStatus timerFirst fd =
    (let fd' = fd\<lparr>fd_statusRequests := fd_statusRequests fd + 1\<rparr>; attempt = fd_statusRequests fd' in
     (if \<not> waitForRequest (fo_deviceStatusDelay (fd_opts fd)) timerFirst then None
      else if attempt \<le> fo_deviceStatusFailures (fd_opts fd)
        then Some (reply 503 (TextFields [(runes ''error'', runes ''temporarily unavailable'')]))
      else Some (reply 200 (StatusBody True)), fd'))"

text \<open>\<open>password\<close> is the field of the decoded request, empty when it does not decode.\<close>

definition handleLogin :: "text_runes \<Rightarrow> fake_device \<Rightarrow> fake_response \<times> fake_device" where
  "handleLogin password fd =
    (let fd = fd\<lparr>fd_loginRequests := fd_loginRequests fd + 1\<rparr> in
     if fo_password (fd_opts fd) = [] \<or> password \<noteq> fo_password (fd_opts fd)
     then (reply 401 (TextFields [(runes ''error'', runes ''Invalid password'')]), fd)
     else let fd = fd\<lparr>fd_authToken := runes ''fake-session-token''\<rparr> in
       ((reply 200 (TextFields [(runes ''message'', runes ''Login successful'')]))
          \<lparr>fr_cookie := Some (fd_authToken fd)\<rparr>, fd))"

definition handleDevice :: "text_runes option \<Rightarrow> fake_device \<Rightarrow> fake_response" where
  "handleDevice cookie fd =
    (if \<not> requireAuth cookie fd then reply 401 (TextFields [(runes ''error'', runes ''Unauthorized'')])
     else reply 200 (DeviceBody
       (if fo_password (fd_opts fd) \<noteq> [] then runes ''password'' else runes ''noPassword'') (runes ''fake-device'')))"

section \<open>Signaling\<close>

text \<open>The calls of \<open>handleOffer\<close> that may fail, in order, and the start of the video at its end.\<close>

datatype offer_call =
    DecodeOffer | DecodeBase64 | DecodeDescription | RegisterDefaultCodecs | NewFakePeer | NewVideoTrack
  | AddVideoTrack | SetRemoteOffer | CreateAnswer | SetLocalAnswer | MarshalAnswer | WriteAnswer | StreamVideo

definition offer_stages :: "offer_call list" where
  "offer_stages = [DecodeOffer, DecodeBase64, DecodeDescription, RegisterDefaultCodecs, NewFakePeer, NewVideoTrack,
     AddVideoTrack, SetRemoteOffer, CreateAnswer, SetLocalAnswer, MarshalAnswer, WriteAnswer]"

fun offer_run :: "(offer_call \<Rightarrow> bool) \<Rightarrow> offer_call list \<Rightarrow> bool \<times> offer_call list" where
  "offer_run fails [] = (True, [StreamVideo])"
| "offer_run fails (c # cs) =
    (if fails c then (False, [c]) else case offer_run fails cs of (ok, calls) \<Rightarrow> (ok, c # calls))"

definition handleOffer :: "(offer_call \<Rightarrow> bool) \<Rightarrow> bool \<times> offer_call list" where
  "handleOffer fails = offer_run fails offer_stages"

text \<open>A message as it decodes: an offer with the calls that will fail, a candidate with whether it decodes.\<close>

datatype signal_message =
    UndecodableSignal
  | OfferSignal "offer_call \<Rightarrow> bool"
  | CandidateSignal bool
  | OtherSignal

datatype signal_call =
    AcceptWebsocket
  | WriteMetadata
  | Offered "offer_call list"
  | AddRemoteCandidate
  | CloseFakePeer
  | CloseWebsocket

text \<open>
  The loop of \<open>handleSignaling\<close> over the messages up to the failing read, with whether \<open>pc\<close> is set.
  A failed offer sets it to \<open>nil\<close> before the handler returns.
\<close>

fun signal_loop :: "signal_message list \<Rightarrow> bool \<Rightarrow> signal_call list" where
  "signal_loop [] pc = (if pc then [CloseFakePeer] else [])"
| "signal_loop (UndecodableSignal # ms) pc = signal_loop ms pc"
| "signal_loop (OfferSignal fails # ms) pc = (case handleOffer fails of
      (ok, calls) \<Rightarrow> Offered calls # (if ok then signal_loop ms True else []))"
| "signal_loop (CandidateSignal decodes # ms) pc =
    (if pc \<and> decodes then AddRemoteCandidate # signal_loop ms pc else signal_loop ms pc)"
| "signal_loop (OtherSignal # ms) pc = signal_loop ms pc"

definition handleSignaling ::
  "text_runes option \<Rightarrow> bool \<Rightarrow> bool \<Rightarrow> signal_message list \<Rightarrow> fake_device \<Rightarrow> int option \<times> signal_call list \<times> fake_device" where
  "handleSignaling cookie accepted metadataSent ms fd =
    (if \<not> requireAuth cookie fd then (Some 401, [], fd)
     else let fd = fd\<lparr>fd_signalingConnections := fd_signalingConnections fd + 1\<rparr> in
       (None,
        if \<not> accepted then [AcceptWebsocket]
        else [AcceptWebsocket, WriteMetadata] @ (if metadataSent then signal_loop ms False else []) @ [CloseWebsocket],
        fd))"

text \<open>\<open>streamVideo\<close>: a sample at each tick, until the context ends, if the file could be read.\<close>

datatype video_wake = VideoTick | VideoStopped

fun video_wakes :: "'d \<Rightarrow> video_wake list \<Rightarrow> 'd list" where
  "video_wakes d [] = []"
| "video_wakes d (VideoTick # ws) = d # video_wakes d ws"
| "video_wakes d (VideoStopped # ws) = []"

definition streamVideo :: "'d option \<Rightarrow> video_wake list \<Rightarrow> 'd list" where
  "streamVideo file wakes = (case file of None \<Rightarrow> [] | Some d \<Rightarrow> video_wakes d wakes)"

section \<open>Answers on the RPC channel\<close>

datatype rpc_answer = NoAnswer | CloseChannel | SendFrame text_runes

definition json_quoted :: "string \<Rightarrow> text_runes" where "json_quoted s = [34] @ runes s @ [34]"

text \<open>\<open>json.Marshal\<close> of a map sorts its keys and writes no blanks.\<close>

definition normal_frame :: "text_runes \<Rightarrow> int \<Rightarrow> text_runes" where
  "normal_frame result reqID = runes ''{'' @ json_quoted ''id'' @ runes '':'' @ decimal_int reqID @ runes '','' @
     json_quoted ''jsonrpc'' @ runes '':'' @ json_quoted ''2.0'' @ runes '','' @
     json_quoted ''result'' @ runes '':'' @ result @ runes ''}''"

definition truncated_frame :: text_runes where
  "truncated_frame = runes ''{'' @ json_quoted ''jsonrpc'' @ runes '':'' @ json_quoted ''2.0'' @ runes '','' @
     json_quoted ''result'' @ runes '':''"

definition oversizedPayloadBytes :: nat where "oversizedPayloadBytes = 70 * 2 ^ 10"

definition oversized_frame :: "int \<Rightarrow> text_runes" where
  "oversized_frame reqID = truncated_frame @ [34] @ replicate oversizedPayloadBytes 120 @ [34] @ runes '','' @
     json_quoted ''id'' @ runes '':'' @ decimal_int reqID @ runes ''}''"

text \<open>
  The handler after the capture: \<open>decoded\<close> is the method and the ID, if the message decodes. The delay
  before an answer is a sleep and changes nothing else.
\<close>

definition rpc_message :: "(text_runes \<times> int) option \<Rightarrow> fake_device \<Rightarrow> rpc_answer \<times> fake_device" where
  "rpc_message decoded fd = (case decoded of
      None \<Rightarrow> (NoAnswer, fd)
    | Some (meth, reqID) \<Rightarrow>
       (let fd = fd\<lparr>fd_rpcRequests := fd_rpcRequests fd + 1\<rparr>; ping = (meth = runes ''ping'') in
        (if ping \<and> fd_rpcRequests fd \<le> fo_rpcDisconnects (fd_opts fd) then CloseChannel
         else if ping \<and> fo_rpcResponseMode (fd_opts fd) = RPCTruncated then SendFrame truncated_frame
         else if ping \<and> fo_rpcResponseMode (fd_opts fd) = RPCOversized then SendFrame (oversized_frame reqID)
         else SendFrame (normal_frame (if ping then json_quoted ''pong'' else runes ''null'') reqID), fd)))"

section \<open>Frames on the HID channel\<close>

text \<open>
  The handler of the \<open>hidrpc\<close> channel: the frame that is echoed, whether the frame goes to the
  capture, which every frame does that is not a handshake, and the new state.
\<close>

definition hid_message :: "byte list \<Rightarrow> fake_device \<Rightarrow> byte list option \<times> bool \<times> fake_device" where
  "hid_message data fd = (case device_receive data (fd_input fd) of
      (echo, d) \<Rightarrow> (echo, echo = None, fd\<lparr>fd_input := d\<rparr>))"

end
