(* ===== verification/Wire_Capture.thy ===== *)
theory Wire_Capture
  imports Fake_Device
begin

text \<open>
  The capture of frames in \<open>fakedevice.go\<close> as a transition system: the callback of a data channel
  writes the flag of a frame to a list under \<open>mu\<close> and then the frame to a channel of 32 places; a
  test takes a frame from the channel and then the oldest flag from the list. The two ends
  interleave. The list and the channel belong to the device and are shared by the data channels of
  all its peer connections: the callbacks of one connection run one after the other, those of
  different connections side by side.
\<close>

section \<open>State\<close>

type_synonym wire_frame = "byte list \<times> bool"

datatype wire_kind = HIDWire | RPCWire

text \<open>
  \<open>wq_writers\<close> are the frames that callbacks are about to send, each with its connection, \<open>wq_reader\<close>
  the frame a test holds without its flag. \<open>g_arrived\<close> and \<open>g_read\<close> observe what came in and what was handed out.
\<close>

record wire_queue =
  wq_frames :: "byte list list"
  wq_flags :: "bool list"
  wq_writers :: "(nat \<times> byte list) list"
  wq_reader :: "byte list option"
  g_arrived :: "wire_frame list"
  g_read :: "wire_frame list"

definition wire_start :: wire_queue where
  "wire_start = \<lparr>wq_frames = [], wq_flags = [], wq_writers = [], wq_reader = None, g_arrived = [], g_read = []\<rparr>"

definition wireCapacity :: nat where "wireCapacity = 32"

section \<open>Steps\<close>

text \<open>\<open>captureHID\<close> sends every frame, \<open>captureRPC\<close> returns at once unless the capture is on.\<close>

definition capture_begin ::
  "wire_kind \<Rightarrow> bool \<Rightarrow> nat \<Rightarrow> byte list \<Rightarrow> bool \<Rightarrow> wire_queue \<Rightarrow> wire_queue option" where
  "capture_begin kind on c frame isString q =
    (if map_of (wq_writers q) c \<noteq> None then None
     else if kind = RPCWire \<and> \<not> on then Some q
     else Some (q\<lparr>wq_flags := (if on then wq_flags q @ [isString] else wq_flags q),
                 wq_writers := wq_writers q @ [(c, frame)],
                 g_arrived := g_arrived q @ [(frame, isString)]\<rparr>))"

definition capture_send :: "nat \<Rightarrow> wire_queue \<Rightarrow> wire_queue option" where
  "capture_send c q = (case map_of (wq_writers q) c of
      None \<Rightarrow> None
    | Some frame \<Rightarrow>
       (if length (wq_frames q) < wireCapacity
        then Some (q\<lparr>wq_frames := wq_frames q @ [frame],
                    wq_writers := filter (\<lambda>w. fst w \<noteq> c) (wq_writers q)\<rparr>) else None))"

text \<open>
  A test takes a frame. \<open>NextHIDFrame\<close> alone hands it out without its flag (\<open>plain\<close>);
  \<open>NextHIDWireFrame\<close>, \<open>NextRPCWireFrame\<close> and the drains go on to \<open>wire_pop\<close>.
\<close>

definition wire_take :: "bool \<Rightarrow> wire_queue \<Rightarrow> wire_queue option" where
  "wire_take plain q = (case (wq_reader q, wq_frames q) of
      (None, frame # frames) \<Rightarrow>
        Some (q\<lparr>wq_frames := frames, wq_reader := (if plain then None else Some frame)\<rparr>)
    | _ \<Rightarrow> None)"

text \<open>\<open>popHIDWireMetadata\<close> and \<open>popRPCWireMetadata\<close>: without a flag the test fails, which is \<open>None\<close> here.\<close>

definition wire_pop :: "wire_queue \<Rightarrow> wire_queue option" where
  "wire_pop q = (case (wq_reader q, wq_flags q) of
      (Some frame, isString # flags) \<Rightarrow>
        Some (q\<lparr>wq_flags := flags, wq_reader := None, g_read := g_read q @ [(frame, isString)]\<rparr>)
    | _ \<Rightarrow> None)"

datatype wire_event = CaptureBegin nat "byte list" bool | CaptureSend nat | WireTake | WirePop | PlainTake

fun wire_step :: "wire_kind \<Rightarrow> bool \<Rightarrow> wire_event \<Rightarrow> wire_queue \<Rightarrow> wire_queue option" where
  "wire_step kind on (CaptureBegin c frame isString) q = capture_begin kind on c frame isString q"
| "wire_step kind on (CaptureSend c) q = capture_send c q"
| "wire_step kind on WireTake q = wire_take False q"
| "wire_step kind on WirePop q = wire_pop q"
| "wire_step kind on PlainTake q = wire_take True q"

fun wire_run :: "wire_kind \<Rightarrow> bool \<Rightarrow> wire_event list \<Rightarrow> wire_queue \<Rightarrow> wire_queue option" where
  "wire_run kind on [] q = Some q"
| "wire_run kind on (e # es) q = (case wire_step kind on e q of None \<Rightarrow> None | Some q' \<Rightarrow> wire_run kind on es q')"

text \<open>\<open>PendingFrames\<close>, of one of the two captures.\<close>

definition PendingFrames :: "wire_queue \<Rightarrow> nat" where "PendingFrames q = length (wq_frames q)"

section \<open>Draining\<close>

text \<open>
  \<open>drainWireFrames\<close> with a window that is positive: each wake-up is the quiet timer or a frame, before which the
  callbacks have made the given steps; between the frame and its flag they may make more. \<open>None\<close> is a
  failed test or a wake-up that cannot happen.
\<close>

datatype drain_wake = QuietElapsed | FrameWins "wire_event list" "wire_event list"

fun drainWireFrames ::
  "wire_kind \<Rightarrow> bool \<Rightarrow> drain_wake list \<Rightarrow> wire_queue \<Rightarrow> wire_frame list \<Rightarrow> (wire_frame list \<times> wire_queue) option" where
  "drainWireFrames kind on [] q drained = None"
| "drainWireFrames kind on (QuietElapsed # ws) q drained = Some (drained, q)"
| "drainWireFrames kind on (FrameWins before between # ws) q drained =
    (case wire_run kind on (before @ [WireTake] @ between @ [WirePop]) q of
       None \<Rightarrow> None
     | Some q' \<Rightarrow> drainWireFrames kind on ws q' (drained @ [last (g_read q')]))"

end
