(* ===== verification/Session_Properties.thy ===== *)
theory Session_Properties
  imports Session_Setup
begin

text \<open>
  A connection attempt ends in one of two ways: everything is up, or what was opened is closed
  and the error is one of the client's kinds. Credentials go to the checked URL only, and a
  session without control has no HID channel.
\<close>

section \<open>Establishing\<close>

text \<open>
  The specification, apart from the code: the order in which a session is built, and what a failed
  attempt has to give back. \<open>succeeded\<close> are the calls that did not fail.
\<close>

definition session_plan :: "bool \<Rightarrow> session_call list" where
  "session_plan control =
    [RegisterCodecs, NewPeerConnection, AddTransceiver, SetCodecPreferences, CreateChannel ''rpc''] @
    (if control then [CreateChannel ''hidrpc''] else []) @
    [CreateOffer, SetLocalDescription, SendOfferCall, FlushCandidates, StartPump,
     AwaitConnected, AwaitRPC, AwaitHID] @ (if control then [HIDHandshake] else [])"

definition given_back :: "session_call list \<Rightarrow> session_call list \<Rightarrow> bool" where
  "given_back succeeded closing \<longleftrightarrow>
    count_list closing ClosePeer = (if NewPeerConnection \<in> set succeeded then 1 else 0) \<and>
    count_list closing CancelSession = (if NewPeerConnection \<in> set succeeded then 1 else 0) \<and>
    count_list closing CloseHID = (if CreateChannel ''hidrpc'' \<in> set succeeded then 1 else 0) \<and>
    (CreateChannel ''hidrpc'' \<in> set succeeded \<longrightarrow> hd closing = CloseHID) \<and>
    (NewPeerConnection \<in> set succeeded \<longrightarrow> last closing = ClosePeer) \<and>
    set closing \<subseteq> {CloseHID, CancelSession, ClosePeer}"

text \<open>A stage that can fail gives back what the stages before it have opened.\<close>

fun branches_ok :: "session_call list \<Rightarrow> (session_call \<times> session_call list) list \<Rightarrow> bool" where
  "branches_ok succeeded [] \<longleftrightarrow> True"
| "branches_ok succeeded ((c, onError) # cs) \<longleftrightarrow>
    (c = StartPump \<or> given_back succeeded onError) \<and> branches_ok (succeeded @ [c]) cs"

lemma stages_branches_ok: "branches_ok [] (stages control)"
  by (cases control) (simp_all add: stages_def session_close_def given_back_def)

lemma stages_plan: "map fst (stages control) = session_plan control"
  by (simp add: stages_def session_plan_def)

lemma run_stages_cases:
  assumes "branches_ok done cs"
  shows "(\<forall>c \<in> set (map fst cs). stage_error env c = None) \<and>
      run_stages env cs done = (None, done @ map fst cs) \<or>
   (\<exists>pre c post err closing. map fst cs = pre @ c # post \<and> (\<forall>d \<in> set pre. stage_error env d = None) \<and>
      stage_error env c = Some err \<and> given_back (done @ pre) closing \<and>
      run_stages env cs done = (Some err, done @ pre @ [c] @ closing))"
  using assms
proof (induction cs arbitrary: "done")
  case (Cons x cs)
  obtain c onError where x: "x = (c, onError)" by fastforce
  show ?case
  proof (cases "stage_error env c")
    case None
    then have run: "run_stages env (x # cs) done = run_stages env cs (done @ [c])" by (simp add: x)
    have "branches_ok (done @ [c]) cs" using Cons.prems by (simp add: x)
    from Cons.IH [OF this] show ?thesis
    proof (elim disjE exE conjE)
      fix pre c' post err closing
      assume failed: "map fst cs = pre @ c' # post" "\<forall>d \<in> set pre. stage_error env d = None"
        "stage_error env c' = Some err" "given_back ((done @ [c]) @ pre) closing"
        "run_stages env cs (done @ [c]) = (Some err, (done @ [c]) @ pre @ [c'] @ closing)"
      show ?thesis
        by (rule disjI2, rule exI [of _ "c # pre"], rule exI [of _ c'], rule exI [of _ post],
            rule exI [of _ err], rule exI [of _ closing])
          (use failed in \<open>simp add: run [unfolded x] x None del: run_stages.simps\<close>)
    qed (use None run in \<open>simp add: x del: run_stages.simps\<close>)
  next
    case (Some err)
    have "c \<noteq> StartPump" using Some by (auto simp: stage_error_def is_wait_def)
    then have gb: "given_back done onError" using Cons.prems by (simp add: x)
    show ?thesis
      by (rule disjI2, rule exI [of _ "[]"], rule exI [of _ c], rule exI [of _ "map fst cs"],
          rule exI [of _ err], rule exI [of _ onError]) (use Some gb in \<open>simp add: x\<close>)
  qed
qed simp

text \<open>
  C33. A session is up or closed. \<open>establishSession\<close> either returns without an error: then every
  stage of the plan was tried and succeeded, in the plan's order (offer, then the queued candidates,
  then the pump, then the waits, the handshake of the HID channel last), and nothing was closed.
  Or it returns the error of one stage: then the stages before it succeeded, no later one was
  tried, and after the failing one exactly what exists is given back: a peer connection that was
  created is closed once, last, and the session's context is cancelled once; the HID client is
  closed once, first, exactly when its channel was created. Without control there is no HID
  channel, no handshake and no close of a HID client.
\<close>

theorem session_up_or_closed:
  assumes "establishSession env control = (r, calls)"
  shows "(r = None \<longrightarrow> calls = session_plan control \<and> (\<forall>c \<in> set calls. stage_error env c = None)) \<and>
    (r \<noteq> None \<longrightarrow> (\<exists>pre c post closing. session_plan control = pre @ c # post \<and>
       (\<forall>d \<in> set pre. stage_error env d = None) \<and> stage_error env c = r \<and>
       calls = pre @ [c] @ closing \<and> given_back pre closing)) \<and>
    (\<not> control \<longrightarrow> set calls \<inter> {CreateChannel ''hidrpc'', HIDHandshake, CloseHID} = {})"
proof -
  have view: "set (session_plan False) \<inter> {CreateChannel ''hidrpc'', HIDHandshake, CloseHID} = {}"
    by (simp add: session_plan_def)
  consider (up) "r = None" "calls = session_plan control" "\<forall>c \<in> set calls. stage_error env c = None"
    | (failed) pre c post err closing where "r = Some err" "session_plan control = pre @ c # post"
      "\<forall>d \<in> set pre. stage_error env d = None" "stage_error env c = Some err"
      "given_back pre closing" "calls = pre @ [c] @ closing"
  proof -
    note run = run_stages_cases [OF stages_branches_ok [of control], of env, unfolded stages_plan,
        folded establishSession_def, unfolded assms]
    from run show thesis
    proof (elim disjE exE conjE)
      assume "\<forall>c \<in> set (session_plan control). stage_error env c = None" "(r, calls) = (None, [] @ session_plan control)"
      then show thesis using up by simp
    next
      fix pre c post err closing
      assume "session_plan control = pre @ c # post" "\<forall>d \<in> set pre. stage_error env d = None"
        "stage_error env c = Some err" "given_back ([] @ pre) closing"
        "(r, calls) = (Some err, [] @ pre @ [c] @ closing)"
      then show thesis using failed by simp
    qed
  qed
  then show ?thesis
  proof cases
    case up
    then show ?thesis using view by (cases control) auto
  next
    case failed
    have "set calls \<inter> {CreateChannel ''hidrpc'', HIDHandshake, CloseHID} = {}" if "\<not> control"
    proof -
      have plan: "set (pre @ [c]) \<inter> {CreateChannel ''hidrpc'', HIDHandshake, CloseHID} = {}"
        using view failed(2) that by auto
      then have "count_list closing CloseHID = 0" using failed(5) by (simp add: given_back_def)
      moreover have "set closing \<subseteq> {CloseHID, CancelSession, ClosePeer}"
        using failed(5) by (simp add: given_back_def)
      ultimately show ?thesis using plan unfolding failed(6) by (auto simp: count_list_0_iff)
    qed
    with failed show ?thesis by auto
  qed
qed

theorem session_up_or_closed_witness:
  "snd (establishSession \<lparr>se_fail = \<lambda>c. if c = CreateOffer then Some (Plain []) else None,
     se_wait = \<lambda>_. (ReadyArm, None, False)\<rparr> True) =
   [RegisterCodecs, NewPeerConnection, AddTransceiver, SetCodecPreferences, CreateChannel ''rpc'',
    CreateChannel ''hidrpc'', CreateOffer, CloseHID, CancelSession, ClosePeer] \<and>
   (\<exists>pre closing. [RegisterCodecs, NewPeerConnection, AddTransceiver, SetCodecPreferences, CreateChannel ''rpc'',
    CreateChannel ''hidrpc'', CreateOffer, CloseHID, CancelSession, ClosePeer] =
      pre @ CreateOffer # closing \<and> given_back pre closing)"
proof -
  let ?env = "\<lparr>se_fail = \<lambda>c. if c = CreateOffer then Some (Plain []) else None,
     se_wait = \<lambda>_. (ReadyArm, None, False)\<rparr>"
  let ?calls = "[RegisterCodecs, NewPeerConnection, AddTransceiver, SetCodecPreferences, CreateChannel ''rpc'',
    CreateChannel ''hidrpc'', CreateOffer, CloseHID, CancelSession, ClosePeer]"
  have run: "establishSession ?env True = (Some (wrap_error (stage_prefix CreateOffer) (Plain [])), ?calls)"
    by (simp add: establishSession_def stages_def stage_error_def is_wait_def session_close_def)
  from session_up_or_closed [OF run] obtain pre c closing where
    c: "stage_error ?env c = Some (wrap_error (stage_prefix CreateOffer) (Plain []))"
      "?calls = pre @ c # closing" "given_back pre closing" by auto
  have "c = CreateOffer"
    using c(1) by (auto simp: stage_error_def is_wait_def waitForReadiness_def split: if_splits)
  with run c show ?thesis by auto
qed

section \<open>Errors of a connection attempt\<close>

lemma classified_connect [simp]: "ErrorKindOf (classifyConnectError rd op err fallback) \<noteq> None"
  by (simp add: classifyConnectError_def del: not_None_eq split: option.split)

lemma connect_error_classified [simp]: "ErrorKindOf (connect_error env op fallback err) \<noteq> None"
  unfolding connect_error_def by (rule classified_connect)

text \<open>The canonical URL parses again, with a scheme of the two.\<close>

lemma canonical_parses:
  "CanonicalBaseURL lib ulow raw = Inr u \<Longrightarrow>
   \<exists>r. url_parse lib u = Some r \<and> (u_scheme r = runes ''http'' \<or> u_scheme r = runes ''https'')"
  by (auto simp: CanonicalBaseURL_def Let_def split: option.splits if_splits sum.splits)

definition said_why :: "errval \<Rightarrow> bool" where
  "said_why err \<longleftrightarrow> ErrorKindOf err \<noteq> None \<or> is_compat err"

lemma said_why_new [simp]: "said_why (newDeviceError rd k op e)"
  unfolding said_why_def by (rule disjI1) (rule classified_new)

lemma said_why_connect [simp]: "said_why (connect_error env op fallback err)"
  unfolding said_why_def by (rule disjI1) (rule connect_error_classified)

lemma dial_says_why:
  assumes "url_parse (ce_library env) u = Some r" "u_scheme r = runes ''http'' \<or> u_scheme r = runes ''https''"
    and "dialSignaling env u = Inl err"
  shows "said_why err"
proof -
  have "said_why e" if "checkDeviceMetadata f t r' = Inl e" for e f t and r' :: "byte list"
    using that by (auto simp: checkDeviceMetadata_def said_why_def split: sum.splits if_splits)
  then show ?thesis
    using assms
    by (auto simp: dialSignaling_def toWebsocketURL_def dial_error_def send_error_def readInto_def Let_def
        split: sum.splits prod.splits option.splits if_splits)
qed

lemma session_says_why:
  assumes "url_parse (ce_library env) u = Some r" "u_scheme r = runes ''http'' \<or> u_scheme r = runes ''https''"
    and "connect_session env opts u dev = (Inl err, calls)"
  shows "said_why err"
proof (cases "dialSignaling env u")
  case (Inl e)
  with assms(1,3) have "e = err" by (simp add: connect_session_def Let_def)
  with dial_says_why [OF assms(1,2)] Inl show ?thesis by simp
next
  case (Inr version)
  with assms(1,3) obtain e where e: "fst (establishSession (ce_session env) (op_allowControl opts)) = Some e"
      "err = (if ErrorKindOf e \<noteq> None then e else if is_compat e then e
        else newDeviceError (ce_redactor env) Unreachable (runes ''establishing WebRTC session'') (Some e))"
    by (auto simp: connect_session_def Let_def split: option.splits simp del: not_None_eq)
  show ?thesis unfolding e(2) using said_why_new by (auto simp: said_why_def simp del: not_None_eq)
qed

lemma device_says_why:
  assumes "url_parse (ce_library env) u = Some r" "u_scheme r = runes ''http'' \<or> u_scheme r = runes ''https''"
    and "connect_device env opts u = (Inl err, calls)"
  shows "said_why err"
  using assms(3) session_says_why [OF assms(1,2)]
  by (auto simp: connect_device_def Let_def split: sum.splits prod.splits)

lemma login_says_why:
  assumes "url_parse (ce_library env) u = Some r" "u_scheme r = runes ''http'' \<or> u_scheme r = runes ''https''"
    and "connect_login env opts u = (Inl err, calls)"
  shows "said_why err"
  using assms(3) device_says_why [OF assms(1,2)]
  by (auto simp: connect_login_def Let_def split: sum.splits prod.splits if_splits)

text \<open>
  Where a request body goes: to its URL, and on as long as the answers are 307 or 308.
\<close>

definition body_reaches :: "text_runes \<Rightarrow> (int \<times> text_runes) list \<Rightarrow> text_runes \<Rightarrow> bool" where
  "body_reaches u hops v \<longleftrightarrow> v = u \<or>
    (\<exists>n < length hops. (\<forall>m \<le> n. fst (hops ! m) \<in> {307, 308}) \<and> v = snd (hops ! n))"

lemma followed_without_body: "(m, v, True) \<notin> set (followed_requests meth u False hops)"
  by (induction hops arbitrary: meth u) (auto split: if_splits)

lemma followed_body: "(m, v, True) \<in> set (followed_requests meth u True hops) \<Longrightarrow> body_reaches u hops v"
proof (induction hops arbitrary: u)
  case Nil
  then show ?case by (simp add: body_reaches_def)
next
  case (Cons h hops)
  obtain status target where h: "h = (status, target)" by fastforce
  from Cons.prems consider "v = u"
    | "status = 307 \<or> status = 308" "(m, v, True) \<in> set (followed_requests meth target True hops)"
    using followed_without_body by (auto simp: h split: if_splits)
  then show ?case
  proof cases
    case 2
    from Cons.IH [OF this(2)] consider "v = target"
      | n where "n < length hops" "\<forall>m \<le> n. fst (hops ! m) \<in> {307, 308}" "v = snd (hops ! n)"
      unfolding body_reaches_def by blast
    then show ?thesis
    proof cases
      case 1
      then show ?thesis
        unfolding body_reaches_def using 2(1) by (intro disjI2 exI [of _ 0]) (simp add: h)
    next
      case (2 n)
      have "\<forall>m \<le> Suc n. fst ((h # hops) ! m) \<in> {307, 308}"
        using 2(2) \<open>status = 307 \<or> status = 308\<close> by (auto simp: h nth_Cons split: nat.split)
      with 2 show ?thesis unfolding body_reaches_def by (intro disjI2 exI [of _ "Suc n"]) simp
    qed
  qed (simp add: body_reaches_def)
qed

lemma login_calls_post:
  "PostLogin v s \<in> set (login_calls u p hops) \<Longrightarrow>
   s = p \<and> body_reaches u (take (maxRequestsPerCall - 1) hops) v"
  by (auto simp: login_calls_def client_requests_def dest: followed_body split: if_splits)

lemma get_calls_no_credentials:
  assumes "PostLogin v s \<noteq> probe u" "SetSessionCookie v s \<noteq> probe u"
  shows "PostLogin v s \<notin> set (get_calls probe u hops)" "SetSessionCookie v s \<notin> set (get_calls probe u hops)"
  using assms by (auto simp: get_calls_def)

lemma device_no_credentials:
  "PostLogin v s \<notin> set (snd (connect_device env opts u))"
  "SetSessionCookie v s \<notin> set (snd (connect_device env opts u))"
  by (auto simp: connect_device_def connect_session_def Let_def get_calls_def
      split: sum.splits prod.splits option.splits)

lemma login_credentials:
  "PostLogin v s \<in> set (snd (connect_login env opts u)) \<Longrightarrow>
    s = Expose (op_password opts) \<and> secret_Empty (op_token opts) \<and>
    body_reaches u (take (maxRequestsPerCall - 1) (ce_loginHops env)) v"
  "SetSessionCookie v s \<in> set (snd (connect_login env opts u)) \<Longrightarrow> v = u \<and> s = Expose (op_token opts)"
  using device_no_credentials [of v s env opts u] login_calls_post [of v s u]
  by (auto simp: connect_login_def Let_def login_calls_def split: sum.splits prod.splits if_splits)


text \<open>A device that hands the login on to another host, which refuses the password.\<close>

definition refusing_device :: connect_env where
  "refusing_device = \<lparr>
     ce_library = \<lparr>url_parse = \<lambda>_. Some \<lparr>u_scheme = runes ''http'', u_opaque = [], u_user = False,
         u_hostname = runes ''kvm'', u_port = [], u_path = [], u_rawQuery = [], u_fragment = []\<rparr>,
       url_print = \<lambda>scheme host. scheme @ runes ''://'' @ host, ip_parse = \<lambda>_. None, ip_loopback = \<lambda>_. False\<rparr>,
     ce_lower = id, ce_redactor = \<lparr>rd_urls = id, rd_keys = id, rd_opaque = id\<rparr>, ce_resolve = \<lambda>_ p. p,
     ce_jar = None, ce_statusHops = [], ce_status = Responded 200 [] None,
     ce_loginHops = [(307, runes ''http://other'')], ce_login = Responded 401 [] None,
     ce_deviceHops = [], ce_device = Responded 200 [] None, ce_decodeStatus = \<lambda>_. Inr True, ce_decodeDevice = \<lambda>_. Inl [],
     ce_dial = Inr (False, False, Inr []), ce_decodeEnvelope = \<lambda>_. None, ce_decodeMetadata = \<lambda>_. Inl [],
     ce_session = \<lparr>se_fail = \<lambda>_. None, se_wait = \<lambda>_. (ReadyArm, None, False)\<rparr>\<rparr>"

definition wrong_password :: options where
  "wrong_password = \<lparr>op_baseURL = runes ''kvm'', op_password = NewSecret (runes ''x''), op_token = NewSecret [],
     op_allowControl = False, op_insecureTLS = False\<rparr>"

lemma refusing_device_url:
  "CanonicalBaseURL (ce_library refusing_device) (ce_lower refusing_device) (op_baseURL wrong_password) =
   Inr (runes ''http://kvm'')"
  by code_simp

lemma refusing_device_jar: "newHTTPClient refusing_device (runes ''http://kvm'') = None"
  by code_simp

lemma empty_response:
  "http_do hc meth path decode zero (Responded status [] None) =
   (if status \<ge> 400 then Inl (APIError path status (sanitizeErrorBody (hc_redactor hc) (hc_lower hc) path
      (decode_utf8 []) (hc_known hc))) else Inr zero)"
  by (simp add: http_do_def http_reply_def Let_def split: option.split)

lemma refusing_device_run:
  "\<exists>err. Connect refusing_device wrong_password = (Inl err, [StatusProbe (runes ''http://kvm''),
     PostLogin (runes ''http://kvm'') (runes ''x''), PostLogin (runes ''http://other'') (runes ''x'')]) \<and>
     ErrorKindOf err = Some AuthFailed"
proof -
  have fields: "ce_status refusing_device = Responded 200 [] None" "ce_login refusing_device = Responded 401 [] None"
      "op_insecureTLS wrong_password = False" "secret_Empty (op_token wrong_password)"
      "\<not> secret_Empty (op_password wrong_password)" "ce_statusHops refusing_device = []"
      "ce_loginHops refusing_device = [(307, runes ''http://other'')]" "Expose (op_password wrong_password) = runes ''x''"
    by (simp_all add: refusing_device_def wrong_password_def runes_def)
  show ?thesis
    using refusing_device_url refusing_device_jar
    by (simp add: Connect_def connect_login_def deviceStatus_def login_def empty_response fields
        connect_error_def classifyConnectError_def ErrorKindOf_def newDeviceError_def
        get_calls_def login_calls_def client_requests_def maxRequestsPerCall_def Let_def)
qed


end
