(* ===== verification/Fake_Properties.thy ===== *)
theory Fake_Properties
  imports Wire_Capture Session_Properties Rpc
begin

text \<open>
  What the end-to-end tests rely on: the capture hands out every frame with its own flag, and the
  client's \<open>Connect\<close> gets into the fake device exactly with the credentials it was set up with.
\<close>

section \<open>The capture\<close>

text \<open>The frames on their way from the callback to the test, oldest first.\<close>

definition under_way_frames :: "wire_queue \<Rightarrow> byte list list" where
  "under_way_frames q = (case wq_reader q of None \<Rightarrow> [] | Some f \<Rightarrow> [f]) @ wq_frames q @ map snd (wq_writers q)"

text \<open>The steps of a test and of the callback of connection \<open>c\<close>.\<close>

fun of_connection :: "nat \<Rightarrow> wire_event \<Rightarrow> bool" where
  "of_connection c (CaptureBegin d frame isString) \<longleftrightarrow> d = c"
| "of_connection c (CaptureSend d) \<longleftrightarrow> d = c"
| "of_connection c WireTake \<longleftrightarrow> True"
| "of_connection c WirePop \<longleftrightarrow> True"
| "of_connection c PlainTake \<longleftrightarrow> False"

definition wire_inv :: "nat \<Rightarrow> wire_queue \<Rightarrow> bool" where
  "wire_inv c q \<longleftrightarrow> g_arrived q = g_read q @ zip (under_way_frames q) (wq_flags q) \<and>
     length (wq_flags q) = length (under_way_frames q) \<and> length (wq_frames q) \<le> wireCapacity \<and>
     (wq_writers q = [] \<or> (\<exists>frame. wq_writers q = [(c, frame)]))"

lemma wire_inv_start: "wire_inv c wire_start"
  by (simp add: wire_inv_def wire_start_def under_way_frames_def)

lemma zip_snoc: "length xs = length ys \<Longrightarrow> zip xs ys @ [(x, y)] = zip (xs @ [x]) (ys @ [y])"
  by simp

lemma wire_inv_step:
  assumes "wire_step kind True e q = Some q'" "of_connection c e" "wire_inv c q"
  shows "wire_inv c q'"
proof (cases e)
  case (CaptureBegin d frame isString)
  then have d: "d = c" using assms(2) by simp
  then have none: "wq_writers q = []"
    using assms(1,3) CaptureBegin by (auto simp: capture_begin_def wire_inv_def split: if_splits)
  then have q': "q' = q\<lparr>wq_flags := wq_flags q @ [isString], wq_writers := [(c, frame)],
      g_arrived := g_arrived q @ [(frame, isString)]\<rparr>"
    using assms(1) CaptureBegin d by (auto simp: capture_begin_def split: if_splits)
  then have "under_way_frames q' = under_way_frames q @ [frame]" using none by (simp add: under_way_frames_def)
  with q' none assms(3) show ?thesis by (simp add: wire_inv_def)
next
  case (CaptureSend d)
  then have d: "d = c" using assms(2) by simp
  then obtain frame where w: "wq_writers q = [(c, frame)]" "length (wq_frames q) < wireCapacity"
      and q': "q' = q\<lparr>wq_frames := wq_frames q @ [frame], wq_writers := []\<rparr>"
    using assms(1,3) CaptureSend by (auto simp: capture_send_def wire_inv_def split: option.splits if_splits)
  then have "under_way_frames q' = under_way_frames q" by (simp add: under_way_frames_def)
  with q' assms(3) w show ?thesis by (simp add: wire_inv_def)
next
  case WireTake
  then obtain frame frames where "wq_reader q = None" "wq_frames q = frame # frames"
      and q': "q' = q\<lparr>wq_frames := frames, wq_reader := Some frame\<rparr>"
    using assms(1) by (auto simp: wire_take_def split: option.splits list.splits)
  then have "under_way_frames q' = under_way_frames q" by (simp add: under_way_frames_def)
  with q' assms(3) \<open>wq_frames q = frame # frames\<close> show ?thesis by (simp add: wire_inv_def)
next
  case WirePop
  then obtain frame isString flags where r: "wq_reader q = Some frame" "wq_flags q = isString # flags"
      and q': "q' = q\<lparr>wq_flags := flags, wq_reader := None, g_read := g_read q @ [(frame, isString)]\<rparr>"
    using assms(1) by (auto simp: wire_pop_def split: option.splits list.splits)
  then have "under_way_frames q = frame # under_way_frames q'" by (simp add: under_way_frames_def)
  with q' r assms(3) show ?thesis by (simp add: wire_inv_def)
qed (use assms(2) in simp)

lemma wire_inv_run:
  "wire_run kind True es q = Some q' \<Longrightarrow> list_all (of_connection c) es \<Longrightarrow> wire_inv c q \<Longrightarrow> wire_inv c q'"
  by (induction es arbitrary: q) (auto split: option.splits dest: wire_inv_step)

lemma wire_run_append: "wire_run kind on (es @ es') q = Option.bind (wire_run kind on es q) (wire_run kind on es')"
  by (induction es arbitrary: q) (auto split: option.split)

lemma wire_invD:
  assumes "wire_inv c q"
  shows "g_read q = take (length (g_read q)) (g_arrived q)"
    and "wq_reader q \<noteq> None \<Longrightarrow> wq_flags q \<noteq> []"
    and "length (g_arrived q) \<le> length (g_read q) + 34"
  using assms by (auto simp: wire_inv_def under_way_frames_def wireCapacity_def split: option.splits)

text \<open>Callbacks only add to what arrived and read nothing.\<close>

definition callback_event :: "nat \<Rightarrow> wire_event \<Rightarrow> bool" where
  "callback_event c e \<longleftrightarrow> of_connection c e \<and> e \<noteq> WireTake \<and> e \<noteq> WirePop"

lemma callbacks_read:
  "wire_run kind on es q = Some q' \<Longrightarrow> list_all (callback_event c) es \<Longrightarrow>
   g_read q' = g_read q \<and> wq_reader q' = wq_reader q \<and> list_all (of_connection c) es"
proof (induction es arbitrary: q)
  case (Cons e es)
  then obtain q'' where "wire_step kind on e q = Some q''" "wire_run kind on es q'' = Some q'"
    by (auto split: option.splits)
  with Cons show ?case
    by (cases e) (auto simp: callback_event_def capture_begin_def capture_send_def split: if_splits option.splits)
qed simp

fun callbacks_only :: "nat \<Rightarrow> drain_wake \<Rightarrow> bool" where
  "callbacks_only c QuietElapsed = True"
| "callbacks_only c (FrameWins before between) =
    (list_all (callback_event c) before \<and> list_all (callback_event c) between)"

lemma drain_round:
  assumes "wire_run kind True (before @ [WireTake] @ between @ [WirePop]) q = Some q'"
    and "list_all (callback_event c) before" "list_all (callback_event c) between" "wire_inv c q"
  shows "wire_inv c q' \<and> g_read q' = g_read q @ [last (g_read q')]"
proof -
  obtain q1 where 1: "wire_run kind True before q = Some q1"
      "wire_run kind True ([WireTake] @ between @ [WirePop]) q1 = Some q'"
    using assms(1) by (auto simp: wire_run_append bind_eq_Some_conv simp del: wire_run.simps)
  then obtain q2 where 2: "wire_take False q1 = Some q2" "wire_run kind True (between @ [WirePop]) q2 = Some q'"
    by (auto split: option.splits)
  then obtain q3 where 3: "wire_run kind True between q2 = Some q3" "wire_pop q3 = Some q'"
    by (auto simp: wire_run_append bind_eq_Some_conv split: option.splits)
  have "list_all (of_connection c) (before @ [WireTake] @ between @ [WirePop])"
    using callbacks_read [OF 1(1) assms(2)] callbacks_read [OF 3(1) assms(3)] by auto
  then have "wire_inv c q'" using wire_inv_run [OF assms(1) _ assms(4)] by blast
  moreover have "g_read q2 = g_read q1"
    using 2(1) by (auto simp: wire_take_def split: option.splits list.splits)
  moreover have "\<exists>x. g_read q' = g_read q3 @ [x]"
    using 3(2) by (auto simp: wire_pop_def split: option.splits list.splits)
  ultimately show ?thesis
    using callbacks_read [OF 1(1) assms(2)] callbacks_read [OF 3(1) assms(3)] by auto
qed

lemma drain_reads:
  "drainWireFrames kind True ws q drained = Some (out, q') \<Longrightarrow> list_all (callbacks_only c) ws \<Longrightarrow> wire_inv c q \<Longrightarrow>
   \<exists>new. out = drained @ new \<and> g_read q' = g_read q @ new \<and> wire_inv c q'"
proof (induction ws arbitrary: q drained)
  case (Cons w ws)
  show ?case
  proof (cases w)
    case QuietElapsed
    with Cons.prems show ?thesis by auto
  next
    case (FrameWins before between)
    then obtain q1 where q1: "wire_run kind True (before @ [WireTake] @ between @ [WirePop]) q = Some q1"
        "drainWireFrames kind True ws q1 (drained @ [last (g_read q1)]) = Some (out, q')"
      using Cons.prems(1) by (auto split: option.splits)
    have "list_all (callback_event c) before" "list_all (callback_event c) between"
      using Cons.prems(2) FrameWins by simp_all
    then have round: "wire_inv c q1 \<and> g_read q1 = g_read q @ [last (g_read q1)]"
      using drain_round [OF q1(1), of c] Cons.prems(3) by blast
    have "list_all (callbacks_only c) ws" using Cons.prems(2) by simp
    from Cons.IH [OF q1(2) this] round obtain new where
        "out = (drained @ [last (g_read q1)]) @ new" "g_read q' = g_read q1 @ new" "wire_inv c q'" by blast
    with round show ?thesis by (intro exI [of _ "last (g_read q1) # new"]) simp
  qed
qed simp



text \<open>
  The capture of HID frames does not wait for \<open>CaptureWire\<close>: after 32 frames that no test has taken the
  callback blocks, also with the capture off, whereas the one of RPC frames does nothing then.
\<close>

definition flood :: "nat \<Rightarrow> wire_event list" where
  "flood n = concat (replicate n [CaptureBegin 1 [2] False, CaptureSend 1])"

lemma hid_capture_blocks:
  "(case wire_run HIDWire False (flood 32 @ [CaptureBegin 1 [2] False]) wire_start of
      None \<Rightarrow> False
    | Some q \<Rightarrow> wire_step HIDWire False (CaptureSend 1) q = None \<and> wq_writers q \<noteq> [])"
  "wire_step RPCWire False (CaptureBegin c frame isString) wire_start = Some wire_start"
  by code_simp (simp add: capture_begin_def wire_start_def)

text \<open>\<open>NextHIDFrame\<close> leaves the flag of its frame behind, and the next frame is handed out with it.\<close>

lemma plain_take_shifts_flags:
  "map_option g_read (wire_run HIDWire True [CaptureBegin 1 [7] True, CaptureSend 1, CaptureBegin 1 [8] False,
     CaptureSend 1, PlainTake, WireTake, WirePop] wire_start) = Some [([8], True)]"
  by code_simp

text \<open>
  The callbacks of two connections can send in the other order than they have appended their flags,
  and then the two frames are handed out with each other's flag.
\<close>

lemma connections_swap_flags:
  "map_option g_read (wire_run HIDWire True [CaptureBegin 1 [7] True, CaptureBegin 2 [8] False, CaptureSend 2,
     CaptureSend 1, WireTake, WirePop, WireTake, WirePop] wire_start) = Some [([8], True), ([7], False)]"
  by code_simp

section \<open>The two mouse interfaces and the oversized answer\<close>

text \<open>Whatever arrives for one interface, the state of the other one stays as it was.\<close>

lemma mouse_interfaces_independent:
  "snd (MouseInterfaceState (snd (snd (hid_message (TypePointerReport # p) fd)))) = snd (MouseInterfaceState fd)"
  "fst (MouseInterfaceState (snd (snd (hid_message (TypeMouseReport # p) fd)))) = fst (MouseInterfaceState fd)"
  by (simp_all add: hid_message_def device_receive_def recordHID_def MouseInterfaceState_def message_type_defs Let_def)

text \<open>The oversized answer is one that the client of \<open>Rpc\<close> refuses unread, and with it all pending calls.\<close>

lemma oversized_answer_refused:
  "handleMessage (byte_len (oversized_frame reqID)) frm order c = failPending RPCBadFrame order c"
proof -
  have "byte_len (replicate n 120) = n" for n by (induction n) (simp_all add: byte_len_def rune_len_def)
  then have "maxRPCFrameBytes < byte_len (oversized_frame reqID)"
    by (simp add: oversized_frame_def byte_len_def oversizedPayloadBytes_def maxRPCFrameBytes_def)
  then show ?thesis by (simp add: handleMessage_def)
qed

section \<open>The client connects to the fake device\<close>

text \<open>
  The environment in which the client's requests are answered by the fake device, in the state it
  has when \<open>Connect\<close> begins. \<open>encode\<close> is the JSON encoder; \<open>jar\<close> is what the cookie jar sends of an
  installed token; the password in the body of the login arrives as it was sent. The status probe may
  wait: \<open>timerFirst\<close> says that the delay of the device is over before the client gives its request up,
  and otherwise \<open>gone\<close> is how the transport then ends that request. The answers that the device does
  write arrive whole, and it redirects nothing.
\<close>

definition over_http :: "(fake_body \<Rightarrow> byte list) \<Rightarrow> fake_response \<Rightarrow> http_outcome" where
  "over_http encode r = Responded (fr_status r) (encode (fr_body r)) None"

definition cookie_of :: "(text_runes \<Rightarrow> text_runes) \<Rightarrow> options \<Rightarrow> fake_response \<Rightarrow> text_runes option" where
  "cookie_of jar opts r = (if \<not> secret_Empty (op_token opts) then Some (jar (Expose (op_token opts)))
     else if \<not> secret_Empty (op_password opts) then fr_cookie r else None)"

text \<open>The login request is made only with a password and without a token.\<close>

definition login_answer :: "options \<Rightarrow> fake_device \<Rightarrow> fake_response \<times> fake_device" where
  "login_answer opts fd =
    (let fd = snd (handleDeviceStatus True fd) in
     if secret_Empty (op_token opts) \<and> \<not> secret_Empty (op_password opts)
     then handleLogin (Expose (op_password opts)) fd else (reply 200 NoBody, fd))"

definition device_answer :: "(text_runes \<Rightarrow> text_runes) \<Rightarrow> options \<Rightarrow> fake_device \<Rightarrow> fake_response" where
  "device_answer jar opts fd =
    handleDevice (cookie_of jar opts (fst (login_answer opts fd))) (snd (login_answer opts fd))"

definition fake_env :: "(fake_body \<Rightarrow> byte list) \<Rightarrow> (text_runes \<Rightarrow> text_runes) \<Rightarrow> bool \<Rightarrow> http_outcome \<Rightarrow>
    options \<Rightarrow> fake_device \<Rightarrow> connect_env \<Rightarrow> connect_env" where
  "fake_env encode jar timerFirst gone opts fd env = env\<lparr>
     ce_statusHops := [],
     ce_status := (case fst (handleDeviceStatus timerFirst fd) of Some r \<Rightarrow> over_http encode r | None \<Rightarrow> gone),
     ce_loginHops := [],
     ce_login := over_http encode (fst (login_answer opts fd)),
     ce_deviceHops := [],
     ce_device := over_http encode (device_answer jar opts fd)\<rparr>"

text \<open>A request that the client gave up: by its own timeout, or because its context has ended.\<close>

fun gave_up :: "http_outcome \<Rightarrow> bool" where
  "gave_up (TransportFailed err netTimeout ctxDone) \<longleftrightarrow>
    netTimeout \<or> ctxDone \<or> CtxDeadlineExceeded \<in> set (ge_is err)"
| "gave_up (Responded status body failure) \<longleftrightarrow> False"

text \<open>The decoders of the client give back the values that the device encodes.\<close>

definition json_ok :: "(fake_body \<Rightarrow> byte list) \<Rightarrow> connect_env \<Rightarrow> bool" where
  "json_ok encode env \<longleftrightarrow> (\<forall>b. encode b \<noteq> [] \<and> length (encode b) \<le> maxHTTPResponseBytes) \<and>
    ce_decodeStatus env (encode (StatusBody True)) = Inr True \<and>
    (\<forall>mode \<in> {runes ''password'', runes ''noPassword''}.
       ce_decodeDevice env (encode (DeviceBody mode (runes ''fake-device''))) =
       Inr \<lparr>ld_authMode = Some mode, ld_deviceID = runes ''fake-device'', ld_loopbackOnly = False\<rparr>)"

text \<open>Who gets in: the specification the tests have in mind.\<close>

definition available :: "fake_device \<Rightarrow> bool" where
  "available fd \<longleftrightarrow> fo_deviceStatusFailures (fd_opts fd) \<le> fd_statusRequests fd"

definition admitted :: "(text_runes \<Rightarrow> text_runes) \<Rightarrow> options \<Rightarrow> fake_device \<Rightarrow> bool" where
  "admitted jar opts fd \<longleftrightarrow>
    (let token = Expose (op_token opts); password = Expose (op_password opts); pw = fo_password (fd_opts fd) in
     if token \<noteq> [] then pw = [] \<or> fd_authToken fd \<noteq> [] \<and> jar token = fd_authToken fd
     else password = pw)"

lemma http_do_fake:
  assumes "json_ok encode env"
  shows "http_do hc meth path decode zero (over_http encode r) =
    (if fr_status r \<ge> 400 then Inl (APIError path (fr_status r) (sanitizeErrorBody (hc_redactor hc) (hc_lower hc) path
        (decode_utf8 (encode (fr_body r))) (hc_known hc)))
     else case decode of
        None \<Rightarrow> Inr zero
      | Some f \<Rightarrow> (case f (encode (fr_body r)) of
            Inl err \<Rightarrow> Inl (newDeviceError (hc_redactor hc) BadFrame
              (runes ''decoding response from '' @ path) (Some (Plain err)))
          | Inr out \<Rightarrow> Inr out))"
proof -
  have "encode (fr_body r) \<noteq> []" "length (encode (fr_body r)) \<le> maxHTTPResponseBytes"
    using assms by (simp_all add: json_ok_def)
  then show ?thesis by (simp add: over_http_def http_do_def http_reply_def Let_def split: option.split)
qed

lemma kind_of_status:
  "ErrorKindOf (connect_error env op fallback (APIError path status body)) =
     Some (if status = 401 \<or> status = 403 then AuthFailed else if status \<ge> 500 then Unreachable else fallback)"
  "ErrorKindOf (connect_error env op fallback (Wrap pre (APIError path status body) post)) =
     Some (if status = 401 \<or> status = 403 then AuthFailed else if status \<ge> 500 then Unreachable else fallback)"
  by (simp_all add: connect_error_def classifyConnectError_def ErrorKindOf_def newDeviceError_def)

lemma status_of_fake:
  assumes "json_ok encode env" "waitForRequest (fo_deviceStatusDelay (fd_opts fd)) timerFirst"
  shows "deviceStatus (http_of env' opts) (ce_decodeStatus (fake_env encode jar timerFirst gone opts fd env))
      (ce_status (fake_env encode jar timerFirst gone opts fd env)) =
    (if available fd then Inr True
     else Inl (APIError (runes ''/device/status'') 503 (sanitizeErrorBody (ce_redactor env') (ce_lower env') (runes ''/device/status'')
       (decode_utf8 (encode (TextFields [(runes ''error'', runes ''temporarily unavailable'')]))) (hc_known (http_of env' opts)))))"
proof -
  have "ce_decodeStatus env (encode (StatusBody True)) = Inr True" using assms by (simp add: json_ok_def)
  then show ?thesis
    using assms(2)
    by (simp add: http_do_fake [OF assms(1)] fake_env_def handleDeviceStatus_def Let_def deviceStatus_def reply_def available_def http_of_def
        split: prod.split)
qed

lemma status_given_up:
  assumes "\<not> waitForRequest (fo_deviceStatusDelay (fd_opts fd)) timerFirst" "gave_up gone"
  shows "\<exists>err. deviceStatus hc decode (ce_status (fake_env encode jar timerFirst gone opts fd env)) = Inl err \<and>
    ErrorKindOf err = Some TimedOut"
proof -
  obtain err nt cd where g: "gone = TransportFailed err nt cd" "cd \<or> CtxDeadlineExceeded \<in> set (ge_is err) \<or> nt"
    using assms(2) by (cases gone) auto
  have "ce_status (fake_env encode jar timerFirst gone opts fd env) = gone"
    using assms(1) by (simp add: fake_env_def handleDeviceStatus_def Let_def)
  then show ?thesis
    using g by (simp add: deviceStatus_def http_do_def newDeviceError_def ErrorKindOf_def)
qed

lemma login_of_fake:
  assumes "json_ok encode env" "secret_Empty (op_token opts)" "\<not> secret_Empty (op_password opts)"
  shows "is_ok (login hc (ce_login (fake_env encode jar timerFirst gone opts fd env))) \<longleftrightarrow>
      Expose (op_password opts) = fo_password (fd_opts fd)"
    and "login hc (ce_login (fake_env encode jar timerFirst gone opts fd env)) = Inl err \<Longrightarrow>
      \<exists>path body. err = Wrap (runes ''jetkvm: login failed: '') (APIError path 401 body) []"
proof -
  have "Expose (op_password opts) \<noteq> []" using assms(3) by (cases "op_password opts") simp
  then show "is_ok (login hc (ce_login (fake_env encode jar timerFirst gone opts fd env))) \<longleftrightarrow>
      Expose (op_password opts) = fo_password (fd_opts fd)"
    "login hc (ce_login (fake_env encode jar timerFirst gone opts fd env)) = Inl err \<Longrightarrow>
      \<exists>path body. err = Wrap (runes ''jetkvm: login failed: '') (APIError path 401 body) []"
    using assms
    by (auto simp: http_do_fake [OF assms(1)] fake_env_def login_answer_def handleDeviceStatus_def handleLogin_def Let_def login_def reply_def is_ok_def
        split: prod.splits if_splits)
qed

text \<open>A login that is made succeeds.\<close>

definition logged_in :: "options \<Rightarrow> fake_device \<Rightarrow> bool" where
  "logged_in opts fd \<longleftrightarrow> secret_Empty (op_token opts) \<and> \<not> secret_Empty (op_password opts) \<longrightarrow>
     Expose (op_password opts) = fo_password (fd_opts fd)"

lemma device_answer_auth:
  assumes "logged_in opts fd"
  shows "requireAuth (cookie_of jar opts (fst (login_answer opts fd))) (snd (login_answer opts fd)) \<longleftrightarrow>
    admitted jar opts fd"
  using assms
  by (cases "op_token opts"; cases "op_password opts")
    (auto simp: logged_in_def admitted_def requireAuth_def cookie_of_def login_answer_def handleLogin_def
      handleDeviceStatus_def reply_def Let_def runes_def)

lemma device_of_fake:
  assumes "json_ok encode env" "logged_in opts fd"
  shows "if admitted jar opts fd
    then \<exists>mode. device_call hc (ce_decodeDevice env) (over_http encode (device_answer jar opts fd)) =
      Inr \<lparr>ld_authMode = Some mode, ld_deviceID = runes ''fake-device'', ld_loopbackOnly = False\<rparr>
    else \<exists>path body. device_call hc (ce_decodeDevice env) (over_http encode (device_answer jar opts fd)) =
      Inl (APIError path 401 body)"
proof -
  have "\<forall>mode \<in> {runes ''password'', runes ''noPassword''}.
       ce_decodeDevice env (encode (DeviceBody mode (runes ''fake-device''))) =
       Inr \<lparr>ld_authMode = Some mode, ld_deviceID = runes ''fake-device'', ld_loopbackOnly = False\<rparr>"
    using assms(1) by (simp add: json_ok_def)
  then show ?thesis
    by (simp add: device_answer_def handleDevice_def device_answer_auth [OF assms(2)] device_call_def
        http_do_fake [OF assms(1)] reply_def)
qed

section \<open>Admission\<close>

definition dials :: "text_runes \<Rightarrow> connect_call list \<Rightarrow> bool" where
  "dials u calls \<longleftrightarrow> (\<exists>insecure. DialSignaling u insecure \<in> set calls)"

definition turned_away :: "error_kind \<Rightarrow> text_runes \<Rightarrow> (errval + client) \<times> connect_call list \<Rightarrow> bool" where
  "turned_away kind u result \<longleftrightarrow>
    (\<exists>err. fst result = Inl err \<and> ErrorKindOf err = Some kind) \<and> \<not> dials u (snd result)"

lemma dials_Cons [simp]:
  "dials u (SetSessionCookie v s # calls) = dials u calls" "dials u (PostLogin v s # calls) = dials u calls"
  "dials u (StatusProbe v # calls) = dials u calls" "dials u (DeviceProbe v # calls) = dials u calls"
  "dials u (ApplyInsecureTLS # calls) = dials u calls" "\<not> dials u []"
  by (simp_all add: dials_def)

text \<open>The device sends no redirects.\<close>

lemma requests_of_fake [simp]:
  "ce_statusHops (fake_env encode jar timerFirst gone opts fd env) = []"
  "ce_loginHops (fake_env encode jar timerFirst gone opts fd env) = []"
  "ce_deviceHops (fake_env encode jar timerFirst gone opts fd env) = []"
  "get_calls probe u [] = [probe u]" "login_calls u password [] = [PostLogin u password]"
  by (simp_all add: fake_env_def get_calls_def login_calls_def client_requests_def)

lemma connect_device_fake:
  assumes "json_ok encode env" "logged_in opts fd" "url_parse (ce_library env) u = Some r"
  shows "if admitted jar opts fd then dials u (snd (connect_device (fake_env encode jar timerFirst gone opts fd env) opts u))
    else turned_away AuthFailed u (connect_device (fake_env encode jar timerFirst gone opts fd env) opts u)"
proof -
  let ?env = "fake_env encode jar timerFirst gone opts fd env"
  have same: "ce_decodeDevice ?env = ce_decodeDevice env" "ce_device ?env = over_http encode (device_answer jar opts fd)"
      "ce_library ?env = ce_library env"
    by (simp_all add: fake_env_def)
  show ?thesis
  proof (cases "admitted jar opts fd")
    case True
    then obtain dev where "device_call (http_of ?env opts) (ce_decodeDevice env)
        (over_http encode (device_answer jar opts fd)) = Inr dev"
      using device_of_fake [OF assms(1,2), of jar "http_of ?env opts"] by auto
    with True assms(3) show ?thesis
      by (auto simp: connect_device_def same connect_session_def Let_def dials_def
          split: prod.splits sum.splits option.splits)
  next
    case False
    then obtain path body where "device_call (http_of ?env opts) (ce_decodeDevice env)
        (over_http encode (device_answer jar opts fd)) = Inl (APIError path 401 body)"
      using device_of_fake [OF assms(1,2), of jar "http_of ?env opts"] by auto
    with False show ?thesis
      by (simp add: connect_device_def Let_def same turned_away_def kind_of_status)
  qed
qed

lemma turned_away_login:
  assumes "json_ok encode env" "secret_Empty (op_token opts)" "\<not> secret_Empty (op_password opts)"
    and "Expose (op_password opts) \<noteq> fo_password (fd_opts fd)"
  shows "turned_away AuthFailed u (connect_login (fake_env encode jar timerFirst gone opts fd env) opts u)"
proof -
  let ?env = "fake_env encode jar timerFirst gone opts fd env"
  obtain err where err: "login (http_of ?env opts) (ce_login ?env) = Inl err"
    using login_of_fake(1) [OF assms(1-3), of "http_of ?env opts" jar timerFirst gone fd] assms(4)
    by (cases "login (http_of ?env opts) (ce_login ?env)") auto
  from login_of_fake(2) [OF assms(1-3) this] obtain path body
    where "err = Wrap (runes ''jetkvm: login failed: '') (APIError path 401 body) []" by blast
  with err assms(2,3) show ?thesis
    by (simp add: connect_login_def Let_def turned_away_def kind_of_status)
qed

lemma connect_login_fake:
  assumes "json_ok encode env" "url_parse (ce_library env) u = Some r"
  shows "if admitted jar opts fd then dials u (snd (connect_login (fake_env encode jar timerFirst gone opts fd env) opts u))
    else turned_away AuthFailed u (connect_login (fake_env encode jar timerFirst gone opts fd env) opts u)"
proof (cases "logged_in opts fd")
  case False
  then have "secret_Empty (op_token opts)" "\<not> secret_Empty (op_password opts)"
      "Expose (op_password opts) \<noteq> fo_password (fd_opts fd)" by (simp_all add: logged_in_def)
  moreover from this have "\<not> admitted jar opts fd" by (cases "op_token opts") (simp add: admitted_def)
  ultimately show ?thesis using turned_away_login [OF assms(1)] by simp
next
  case True
  let ?env = "fake_env encode jar timerFirst gone opts fd env"
  note dev = connect_device_fake [OF assms(1) True assms(2), of jar timerFirst gone]
  have "is_ok (login (http_of ?env opts) (ce_login ?env))"
    if "secret_Empty (op_token opts)" "\<not> secret_Empty (op_password opts)"
    using login_of_fake(1) [OF assms(1) that] True that by (simp add: logged_in_def)
  then show ?thesis
    using dev by (auto simp: connect_login_def Let_def turned_away_def is_ok_def split: sum.splits prod.splits if_splits)
qed

lemma newHTTPClient_cong:
  "ce_library env' = ce_library env \<Longrightarrow> ce_lower env' = ce_lower env \<Longrightarrow> ce_jar env' = ce_jar env \<Longrightarrow>
   newHTTPClient env' u = newHTTPClient env u"
  unfolding newHTTPClient_def by (simp only:)

text \<open>
  C39. The client gets into the fake device exactly when it should. With a base URL that is accepted,
  JSON that decodes to what was encoded, and answers that arrive whole once the device writes
  them, \<open>Connect\<close> ends in one of three ways. If the device's delay outlasts the status request, which
  the client then gives up by its timeout or the end of its context, it returns with \<open>TimedOut\<close>
  and makes no connection. Otherwise it reaches the signaling connection exactly when the device
  answers the status probe with success, which it does from the request after its failing ones
  on, and the credentials fit: the token of an earlier login, or the password of a device that
  has one, or nothing for a device without. If not, it returns before that, with the kind
  \<open>Unreachable\<close> for a device that is not available and \<open>AuthFailed\<close> for wrong, missing or
  needless credentials.
\<close>

theorem connect_admission:
  assumes "json_ok encode env"
    and "CanonicalBaseURL (ce_library env) (ce_lower env) (op_baseURL opts) = Inr u"
    and "newHTTPClient env u = None"
    and "gave_up gone"
  shows "if \<not> waitForRequest (fo_deviceStatusDelay (fd_opts fd)) timerFirst
    then turned_away TimedOut u (Connect (fake_env encode jar timerFirst gone opts fd env) opts)
    else if available fd \<and> admitted jar opts fd
    then dials u (snd (Connect (fake_env encode jar timerFirst gone opts fd env) opts))
    else turned_away (if available fd then AuthFailed else Unreachable) u
           (Connect (fake_env encode jar timerFirst gone opts fd env) opts)"
proof -
  let ?env = "fake_env encode jar timerFirst gone opts fd env"
  obtain r where r: "url_parse (ce_library env) u = Some r" using canonical_parses [OF assms(2)] by blast
  have same: "ce_library ?env = ce_library env" "ce_lower ?env = ce_lower env" "ce_jar ?env = ce_jar env"
    by (simp_all add: fake_env_def)
  have client: "newHTTPClient ?env u = None" using assms(3) newHTTPClient_cong [OF same(1-3)] by simp
  show ?thesis
  proof (cases "waitForRequest (fo_deviceStatusDelay (fd_opts fd)) timerFirst")
    case False
    obtain err where err: "deviceStatus (http_of ?env opts) (ce_decodeStatus ?env) (ce_status ?env) = Inl err"
        "ErrorKindOf err = Some TimedOut"
      using status_given_up [OF False assms(4)] by blast
    then have "ErrorKindOf (connect_error ?env op fallback err) = Some TimedOut" for op fallback
      by (simp add: connect_error_def classifyConnectError_def)
    with False err(1) show ?thesis
      using assms(2) same client by (auto simp: Connect_def Let_def turned_away_def)
  next
    case answered: True
    note status = status_of_fake [OF assms(1) answered]
    show ?thesis
    proof (cases "available fd")
      case False
      then show ?thesis
        using assms(2) same client answered
        by (auto simp: Connect_def Let_def status turned_away_def kind_of_status)
    next
      case True
      then show ?thesis
        using assms(2) same client answered connect_login_fake [OF assms(1) r, of jar opts fd timerFirst gone]
        by (auto simp: Connect_def Let_def status turned_away_def split: prod.splits if_splits)
    qed
  qed
qed

definition sample_encode :: "fake_body \<Rightarrow> byte list" where
  "sample_encode b = (case b of
      StatusBody s \<Rightarrow> [1]
    | DeviceBody mode i \<Rightarrow> (if mode = runes ''password'' then [2] else [3])
    | _ \<Rightarrow> [4])"

definition sample_env :: connect_env where
  "sample_env = refusing_device\<lparr>ce_decodeStatus := \<lambda>_. Inr True,
     ce_decodeDevice := \<lambda>bs. Inr \<lparr>ld_authMode = Some (if bs = [2] then runes ''password'' else runes ''noPassword''),
       ld_deviceID = runes ''fake-device'', ld_loopbackOnly = False\<rparr>\<rparr>"

definition sample_device :: fake_device where
  "sample_device = Start \<lparr>fo_password = runes ''x'', fo_deviceStatusFailures = 0,
     fo_deviceStatusDelay = 0, fo_rpcResponseDelay = 0, fo_rpcResponseMode = RPCNormal,
     fo_rpcDisconnects = 0, fo_captureWire = False\<rparr>"

lemma sample_json: "json_ok sample_encode sample_env"
  by (auto simp: json_ok_def sample_encode_def sample_env_def maxHTTPResponseBytes_def runes_def split: fake_body.split)

definition impatient :: http_outcome where
  "impatient = TransportFailed \<lparr>ge_is = [CtxDeadlineExceeded], ge_exit = None, ge_text = []\<rparr> True False"

text \<open>The witness: the right password, a wrong one, and a device that is slower than the client.\<close>

theorem connect_admission_witness:
  "dials (runes ''http://kvm'') (snd (Connect (fake_env sample_encode id True impatient wrong_password sample_device sample_env)
     wrong_password)) \<and>
   turned_away AuthFailed (runes ''http://kvm'')
     (Connect (fake_env sample_encode id True impatient (wrong_password\<lparr>op_password := NewSecret (runes ''y'')\<rparr>)
        sample_device sample_env) (wrong_password\<lparr>op_password := NewSecret (runes ''y'')\<rparr>)) \<and>
   turned_away TimedOut (runes ''http://kvm'')
     (Connect (fake_env sample_encode id False impatient wrong_password
        (sample_device\<lparr>fd_opts := (fd_opts sample_device)\<lparr>fo_deviceStatusDelay := 9\<rparr>\<rparr>) sample_env) wrong_password)"
proof -
  let ?wrong = "wrong_password\<lparr>op_password := NewSecret (runes ''y'')\<rparr>"
  let ?slow = "sample_device\<lparr>fd_opts := (fd_opts sample_device)\<lparr>fo_deviceStatusDelay := 9\<rparr>\<rparr>"
  have env: "ce_library sample_env = ce_library refusing_device" "ce_lower sample_env = ce_lower refusing_device"
      "ce_jar sample_env = ce_jar refusing_device" "op_baseURL ?wrong = op_baseURL wrong_password"
    by (simp_all add: sample_env_def)
  have client: "newHTTPClient sample_env (runes ''http://kvm'') = None"
    using newHTTPClient_cong [OF env(1-3)] refusing_device_jar by simp
  have up: "gave_up impatient" by (simp add: impatient_def)
  have "available sample_device" "admitted id wrong_password sample_device" "\<not> admitted id ?wrong sample_device"
      "waitForRequest (fo_deviceStatusDelay (fd_opts sample_device)) True"
      "\<not> waitForRequest (fo_deviceStatusDelay (fd_opts ?slow)) False"
    by code_simp+
  then show ?thesis
    using connect_admission [OF sample_json _ client up, of wrong_password sample_device True id]
      connect_admission [OF sample_json _ client up, of ?wrong sample_device True id]
      connect_admission [OF sample_json _ client up, of wrong_password ?slow False id] refusing_device_url
    by (simp add: env)
qed

end
