(* ===== verification/Screenshot_Properties.thy ===== *)
theory Screenshot_Properties
  imports Screenshot
begin

text \<open>
  A screenshot is fresh, bounded and complete, and saving it is atomic.
\<close>

section \<open>Capturing\<close>

lemma encode_shot_Inr:
  assumes "encode_shot env fr img = Inr shot"
  shows "ca_decodeCtx env = None \<and> ca_encodeCtx env = None \<and> snd (png_encode (ca_png env) img) = None \<and>
    png_bounds (ca_png env) img = (ss_width (sc_result shot), ss_height (sc_result shot)) \<and>
    ValidateScreenshotDimensions (ss_width (sc_result shot)) (ss_height (sc_result shot)) = None \<and>
    sc_png shot = concat (fst (png_encode (ca_png env) img)) \<and>
    length (sc_png shot) \<le> MaxScreenshotEncodedBytes \<and>
    ss_capturedAt (sc_result shot) = capturedAt fr \<and> ss_fresh (sc_result shot)"
proof -
  obtain w h where b: "png_bounds (ca_png env) img = (w, h)" by fastforce
  obtain chunks e where p: "png_encode (ca_png env) img = (chunks, e)" by fastforce
  have d: "ca_decodeCtx env = None" using assms by (cases "ca_decodeCtx env") (auto simp: encode_shot_def)
  with assms b have v: "ValidateScreenshotDimensions w h = None"
    by (cases "ValidateScreenshotDimensions w h") (auto simp: encode_shot_def)
  with assms b p d have "ca_encodeCtx env = None" "e = None"
    by (auto simp: encode_shot_def Let_def split: option.splits)
  with assms b p d v show ?thesis
    using capped_complete [of chunks MaxScreenshotEncodedBytes]
    by (auto simp: encode_shot_def Let_def split: if_splits)
qed

lemma decode_shot_Inr:
  "decode_shot env fr = (steps, Inr shot) \<Longrightarrow>
   \<exists>img. ca_decode env (annexB fr) = Inr (Some img) \<and> encode_shot env fr img = Inr shot"
  by (auto simp: decode_shot_def Let_def split: sum.splits option.splits)

lemma capture_Inr:
  assumes "CaptureScreenshot env f f1 = (steps, Some (Inr shot))"
  obtains fr img where "waitForFrameAfter (generationBoundary f) f1 (ca_wakes env) = GotFrame fr"
    and "ca_decode env (annexB fr) = Inr (Some img)" and "encode_shot env fr img = Inr shot"
proof -
  obtain a g z where l: "ca_lock env = (a, g, z)" by (metis prod.exhaust)
  have "ca_available env = None" "client_lock a g z = (None, True)"
    using assms l by (auto simp: CaptureScreenshot_def split: option.splits prod.splits bool.splits)
  with assms l obtain fr where fr: "waitForFrameAfter (generationBoundary f) f1 (ca_wakes env) = GotFrame fr"
      "decode_shot env fr = (steps, Inr shot)"
    by (auto simp: CaptureScreenshot_def split: wait_result.splits prod.splits)
  with decode_shot_Inr [OF fr(2)] that show ?thesis by blast
qed

text \<open>
  What a waiter observes of a store that goes on running: the events between its wake-ups, or the
  end of its context.
\<close>

fun wakes_after :: "frameCapture \<Rightarrow> (store_event list + errval) list \<Rightarrow> wake list" where
  "wakes_after f [] = []"
| "wakes_after f (Inl evs # segs) =
    (let f' = fold store_step evs f in Updated f' # wakes_after f' segs)"
| "wakes_after f (Inr err # segs) = ContextDone err # wakes_after f segs"

fun wake_events :: "(store_event list + errval) list \<Rightarrow> store_event list" where
  "wake_events [] = []"
| "wake_events (Inl evs # segs) = evs @ wake_events segs"
| "wake_events (Inr err # segs) = wake_events segs"

lemma waited_frame_stored:
  assumes "waitForFrameAfter after f (wakes_after f segs) = GotFrame fr"
  shows "\<exists>evs rest. wake_events segs = evs @ rest \<and> fc_latest (fold store_step evs f) = Some fr \<and>
    frame_generation fr > after"
  using assms
proof (induction segs arbitrary: f)
  case Nil
  then show ?case by (auto simp: wait_check_GotFrame_iff split: wait_result.splits)
next
  case (Cons s segs)
  show ?case
  proof (cases "wait_check after f")
    case (GotFrame fr')
    with Cons.prems have "wait_check after f = GotFrame fr" by simp
    then show ?thesis
      by (intro exI [of _ "[]"] exI [of _ "wake_events (s # segs)"]) (simp add: wait_check_GotFrame_iff)
  next
    case (GotError err)
    with Cons.prems show ?thesis by simp
  next
    case (Blocked u)
    show ?thesis
    proof (cases s)
      case (Inl evs)
      with Cons.prems Blocked Cons.IH [of "fold store_step evs f"] obtain evs' rest where
        "wake_events segs = evs' @ rest" "fc_latest (fold store_step (evs @ evs') f) = Some fr"
        "frame_generation fr > after" by (auto simp: Let_def)
      with Inl show ?thesis by (intro exI [of _ "evs @ evs'"] exI [of _ rest]) simp
    next
      case (Inr err)
      with Cons.prems Blocked show ?thesis by simp
    qed
  qed
qed

text \<open>
  C36. A screenshot is fresh, bounded and complete. The call reads its boundary from the store
  \<open>f\<close>; the store then goes on: \<open>evs\<close> happens until the waiter's first check, and what it
  observes at its wake-ups are states of the same run. Whenever \<open>CaptureScreenshot\<close> returns an
  image, the run after the boundary has a commit of \<open>ingest\<close> that published the decoded
  frame: its bytes are the slices of that commit behind the parameter sets stored at that
  moment, and its time is the time of that commit. So a frame cached before the call is never
  returned. The image is the complete encoding of what the decoder made of the frame, within the
  limits per axis, on the pixels and on the encoded bytes; it carries the frame's time, and the
  context was alive after the decode and after the encode.
\<close>

theorem screenshot_fresh_and_bounded:
  assumes "f = fold store_step evs0 newFrameCapture"
    and "ca_wakes env = wakes_after (fold store_step evs f) segs"
    and "CaptureScreenshot env f (fold store_step evs f) = (steps, Some (Inr shot))"
  shows "\<exists>pre idrs now post sps pps img. evs @ wake_events segs = pre @ CommitFrame idrs now # post \<and>
    fc_sps (fold store_step pre f) = Some sps \<and> fc_pps (fold store_step pre f) = Some pps \<and>
    (\<exists>fr. fc_latest (store_step (CommitFrame idrs now) (fold store_step pre f)) = Some fr \<and>
       annexB fr = buildAnnexB (sps # pps # idrs) \<and> capturedAt fr = now \<and>
       frame_generation fr > generationBoundary f) \<and>
    ca_decode env (buildAnnexB (sps # pps # idrs)) = Inr (Some img) \<and>
    png_bounds (ca_png env) img = (ss_width (sc_result shot), ss_height (sc_result shot)) \<and>
    0 < sint (ss_width (sc_result shot)) \<and> sint (ss_width (sc_result shot)) \<le> 8192 \<and>
    0 < sint (ss_height (sc_result shot)) \<and> sint (ss_height (sc_result shot)) \<le> 8192 \<and>
    sint (ss_width (sc_result shot)) * sint (ss_height (sc_result shot)) \<le> 16777216 \<and>
    sc_png shot = concat (fst (png_encode (ca_png env) img)) \<and>
    length (sc_png shot) \<le> MaxScreenshotEncodedBytes \<and>
    ss_capturedAt (sc_result shot) = now \<and> ss_fresh (sc_result shot) \<and>
    ca_decodeCtx env = None \<and> ca_encodeCtx env = None"
proof -
  let ?f1 = "fold store_step evs f"
  obtain fr img where fr: "waitForFrameAfter (generationBoundary f) ?f1 (ca_wakes env) = GotFrame fr"
    "ca_decode env (annexB fr) = Inr (Some img)" "encode_shot env fr img = Inr shot"
    using assms(3) by (rule capture_Inr)
  then obtain evs' rest where w: "wake_events segs = evs' @ rest"
    "fc_latest (fold store_step evs' ?f1) = Some fr" "frame_generation fr > generationBoundary f"
    using waited_frame_stored [of "generationBoundary f" ?f1 segs fr] assms(2) by auto
  then have "fc_latest (fold store_step (evs @ evs') f) = Some fr" by simp
  from later_frame_commits [OF assms(1) this w(3)] obtain pre idrs now post sps pps where c:
    "evs @ evs' = pre @ CommitFrame idrs now # post"
    "fc_sps (fold store_step pre f) = Some sps" "fc_pps (fold store_step pre f) = Some pps"
    "annexB fr = buildAnnexB (sps # pps # idrs)" "capturedAt fr = now"
    "fc_latest (store_step (CommitFrame idrs now) (fold store_step pre f)) = Some fr" by blast
  have "evs @ wake_events segs = pre @ CommitFrame idrs now # post @ rest"
    using c(1) w(1) by (metis append.assoc append_Cons)
  moreover have "ca_decode env (buildAnnexB (sps # pps # idrs)) = Inr (Some img)"
    using fr(2) c(4) by simp
  moreover have "ss_capturedAt (sc_result shot) = now"
    using encode_shot_Inr [OF fr(3)] c(5) by simp
  ultimately show ?thesis
    using c(2-6) w(3) encode_shot_Inr [OF fr(3), unfolded dimensions_accept] by blast
qed

text \<open>
  A call on a store that already has a frame: the first wake-up brings a scan only, the second
  one the commit of the next frame, which is decoded to an image of two pixels.
\<close>

definition demo_report :: VideoDiagnostics where
  "demo_report = snapshot None 0 newVideoDiagnostics newVideoDiagnostics newVideoDiagnostics newVideoDiagnostics"

definition demo_store :: frameCapture where
  "demo_store = fold store_step example_events newFrameCapture"

definition demo_segments :: "(store_event list + errval) list" where
  "demo_segments = [Inl [ScanNalu [0x65, 9]], Inl [CommitFrame [[0x65, 9]] 70]]"

definition demo_capture :: "unit capture_env" where
  "demo_capture = \<lparr>ca_available = None, ca_lock = (None, True, None),
     ca_wakes = wakes_after demo_store demo_segments,
     ca_waitCtx = None, ca_decodeCtx = None, ca_encodeCtx = None, ca_report = (demo_report, demo_report),
     ca_decode = \<lambda>_. Inr (Some ()),
     ca_png = \<lparr>png_config = \<lambda>_. Inr (2, 1), png_decode = \<lambda>_. Inr (), png_bounds = \<lambda>_. (2, 1),
       png_encode = \<lambda>_. ([[137], [80, 78]], None)\<rparr>,
     ca_redactor = \<lparr>rd_urls = id, rd_keys = id, rd_opaque = id\<rparr>, ca_lower = id\<rparr>"

definition demo_shot :: Screenshot where
  "demo_shot = \<lparr>sc_result = \<lparr>ss_path = [], ss_width = 2, ss_height = 1, ss_capturedAt = 70, ss_fresh = True\<rparr>,
     sc_png = [137, 80, 78]\<rparr>"

definition demo_frame :: frame where
  "demo_frame = \<lparr>annexB = [0, 0, 0, 1, 0x67, 1, 0, 0, 0, 1, 0x68, 2, 0, 0, 0, 1, 0x65, 9],
     capturedAt = 70, frame_generation = 2\<rparr>"

lemma demo_wait:
  "waitForFrameAfter 1 demo_store (wakes_after demo_store demo_segments) = GotFrame demo_frame"
  "generationBoundary demo_store = 1"
  by (simp_all add: demo_store_def demo_segments_def demo_frame_def example_events_def newFrameCapture_def
      store_defs nalu_type_defs commit_frame_def wait_check_def annexBStartCode_def generationBoundary_def Let_def)

lemma demo_capture_run:
  "CaptureScreenshot demo_capture demo_store demo_store = ([DecodeTriedStep 18], Some (Inr demo_shot))"
proof -
  have v: "ValidateScreenshotDimensions 2 1 = None"
    by (simp add: dimensions_accept)
  have b: "capped_all [[137], [80, 78]] (newCappedBuffer MaxScreenshotEncodedBytes) =
      (newCappedBuffer MaxScreenshotEncodedBytes)\<lparr>cb_data := [137, 80, 78], cb_cap := 3\<rparr>"
    by (simp add: capped_all_def capped_write_def newCappedBuffer_def MaxScreenshotEncodedBytes_def)
  show ?thesis
    by (simp add: CaptureScreenshot_def demo_capture_def client_lock_def demo_wait decode_shot_def
        encode_shot_def v b del: waitForFrameAfter.simps wakes_after.simps)
      (simp add: demo_frame_def demo_shot_def newCappedBuffer_def)
qed

theorem screenshot_fresh_and_bounded_witness:
  "\<exists>pre idrs post. wake_events demo_segments = pre @ CommitFrame idrs 70 # post \<and>
     length (sc_png demo_shot) = 3"
proof -
  have r: "CaptureScreenshot demo_capture demo_store (fold store_step [] demo_store) =
      ([DecodeTriedStep 18], Some (Inr demo_shot))" by (simp add: demo_capture_run)
  have w: "ca_wakes demo_capture = wakes_after (fold store_step [] demo_store) demo_segments"
    by (simp add: demo_capture_def)
  obtain pre idrs now post where "[] @ wake_events demo_segments = pre @ CommitFrame idrs now # post"
    "ss_capturedAt (sc_result demo_shot) = now"
    using screenshot_fresh_and_bounded [OF demo_store_def w r] by blast
  moreover have "ss_capturedAt (sc_result demo_shot) = 70" "length (sc_png demo_shot) = 3"
    by (simp_all add: demo_shot_def)
  ultimately show ?thesis by (metis append_Nil)
qed

section \<open>Decoder errors\<close>

text \<open>
  \<open>decodeFrame\<close> renders the subprocess's error as text, so no exit code survives for
  \<open>classifyDecodeError\<close>: its branch for one is never taken.
\<close>

lemma exit_code_lost:
  assumes "decodeFrame rd lib limit pe c1 c2 = Inl err"
    and "\<forall>e \<in> set_option (pe_ctx pe) \<union> set_option c1 \<union> set_option c2. exit_of e = None"
    and "\<forall>bs e. png_config lib bs = Inl e \<longrightarrow> exit_of e = None"
    and "\<forall>bs e. png_decode lib bs = Inl e \<longrightarrow> exit_of e = None"
  shows "exit_of err = None"
proof -
  have dims: "ValidateScreenshotDimensions w h = Some e \<Longrightarrow> exit_of e = None" for w h e
    by (auto simp: ValidateScreenshotDimensions_def split: if_splits)
  have png: "decodeFFmpegPNG lib c1 c2 bs = Inl e \<Longrightarrow> exit_of e = None" for bs e
    using assms(2-4) dims
    by (auto simp: decodeFFmpegPNG_def wrapped_def Let_def split: sum.splits option.splits prod.splits if_splits)
  show ?thesis
    using assms(1,2) png by (auto simp: decodeFrame_def wrapped_def Let_def split: option.splits if_splits)
qed

section \<open>Saving\<close>

lemma commit_temp_files:
  assumes "commit_temp env tmp path shot fs = (r, fs')" and "tmp \<noteq> path" and "fs tmp = None"
  shows "fs' path = (case r of Inr x \<Rightarrow> Some (sc_png shot) | Inl err \<Rightarrow> fs path) \<and>
    (\<forall>q. q \<noteq> path \<longrightarrow> q \<noteq> tmp \<longrightarrow> fs' q = fs q) \<and> (wr_removed env \<or> is_ok r \<longrightarrow> fs' tmp = None)"
  using assms by (auto simp: commit_temp_def discard_temp_def Let_def split: option.splits)

text \<open>
  C37. Saving is atomic. Whatever call fails and wherever the context ends, the file at the path
  afterwards has either its old content or, exactly when the save succeeds, the whole image; no
  other file changes, and the temporary file is gone unless its removal failed. The temporary
  file is a new one, as \<open>os.CreateTemp\<close> promises.
\<close>

theorem save_is_atomic:
  assumes "SaveScreenshot env wenv f f1 dir path fs = (r, fs')"
    and "\<forall>tmp. wr_create wenv = Inr tmp \<longrightarrow> tmp \<noteq> path \<and> fs tmp = None"
  shows "fs' path = (case r of
      Some (Inr x) \<Rightarrow> (case snd (CaptureScreenshot env f f1) of Some (Inr shot) \<Rightarrow> Some (sc_png shot) | _ \<Rightarrow> None)
    | _ \<Rightarrow> fs path) \<and>
    (\<forall>q. q \<noteq> path \<longrightarrow> wr_create wenv \<noteq> Inr q \<longrightarrow> fs' q = fs q) \<and>
    (\<forall>tmp. wr_create wenv = Inr tmp \<longrightarrow> wr_removed wenv \<longrightarrow> fs' tmp = None)"
proof (cases "\<exists>shot. snd (CaptureScreenshot env f f1) = Some (Inr shot)")
  case True
  then obtain shot where shot: "snd (CaptureScreenshot env f f1) = Some (Inr shot)" by blast
  with assms(1) obtain r' where r: "writeScreenshot wenv dir path shot fs = (r', fs')" "r = Some r'"
    by (auto simp: SaveScreenshot_def split: prod.splits)
  show ?thesis
  proof (cases "wr_ctxFirst wenv = None \<and> (if dir \<noteq> [46] then wr_mkdir wenv else None) = None \<and>
      (\<exists>tmp. wr_create wenv = Inr tmp)")
    case True
    then obtain tmp where "commit_temp wenv tmp path shot fs = (r', fs')" "wr_create wenv = Inr tmp"
      using r(1) by (auto simp: writeScreenshot_def)
    with commit_temp_files [OF this(1)] assms(2) shot r(2) show ?thesis
      by (auto split: sum.splits)
  next
    case False
    with r assms(2) show ?thesis
      by (auto simp: writeScreenshot_def split: option.splits sum.splits if_splits)
  qed
next
  case False
  then have "fs' = fs" "\<forall>x. r \<noteq> Some (Inr x)"
    using assms(1) by (auto simp: SaveScreenshot_def split: option.splits sum.splits)
  with assms(2) show ?thesis by (auto split: option.splits sum.splits)
qed

text \<open>The rename fails.\<close>

definition failing_rename :: write_env where
  "failing_rename = \<lparr>wr_ctxFirst = None, wr_mkdir = None, wr_create = Inr [1], wr_write = None, wr_close = None,
     wr_ctxCommit = None, wr_rename = Some (Plain []), wr_removed = True\<rparr>"

theorem save_is_atomic_witness:
  "snd (SaveScreenshot demo_capture failing_rename demo_store demo_store [46] [2] [[2] \<mapsto> [9]]) [2] =
   Some [9] \<and>
   fst (SaveScreenshot demo_capture failing_rename demo_store demo_store [46] [2] [[2] \<mapsto> [9]]) =
   Some (Inl (wrapped ''jetkvm: saving screenshot: '' (Plain [])))"
proof -
  obtain r fs' where s: "SaveScreenshot demo_capture failing_rename demo_store demo_store [46] [2]
      [[2] \<mapsto> [9]] = (r, fs')" by fastforce
  then have "r = Some (Inl (wrapped ''jetkvm: saving screenshot: '' (Plain [])))"
    by (auto simp: SaveScreenshot_def demo_capture_run writeScreenshot_def commit_temp_def failing_rename_def Let_def)
  with save_is_atomic [OF s] s show ?thesis by (simp add: failing_rename_def)
qed

end
