(* ===== verification/Provider.thy ===== *)
theory Provider
  imports Safety_Gate Session_Setup
begin

text \<open>
  The provider of the verb: \<open>provider.go\<close>, \<open>kind.go\<close> and \<open>credential.go\<close>. From a request it decodes
  the step, takes defaults from a device entity, resolves answers, secrets and the device's
  address, and runs \<open>dispatch\<close>.

  The host's side is a record of functions: its environment variables, the credential store, the
  project loader and the codecs; so are the SDK's recipe selection, merge of answers and verdict.
\<close>

section \<open>The host and the SDK\<close>

record jetkvmEnv =
  je_box :: text_runes
  je_mode :: string
  je_host :: text_runes

record host_env =
  pv_getenv :: "text_runes \<Rightarrow> text_runes"
  pv_executor :: "nat \<Rightarrow> bool"
  pv_credential :: "text_runes \<Rightarrow> text_runes option"
  pv_projectDir :: "text_runes \<Rightarrow> text_runes + text_runes"
  pv_loadProject :: "text_runes \<Rightarrow> text_runes + (text_runes \<Rightarrow> byte list option) option"
  pv_decodeDevice :: "byte list \<Rightarrow> text_runes + JetkvmDeviceInput"
  pv_marshalDevice :: "JetkvmDeviceInput \<Rightarrow> text_runes + byte list"
  pv_decodeOp :: "byte list \<Rightarrow> text_runes + JetkvmInput"
  pv_decodeEnv :: "byte list \<Rightarrow> jetkvmEnv"
  pv_selectRecipe :: "(text_runes \<times> console_step list) list \<Rightarrow> console_step list \<Rightarrow> text_runes \<Rightarrow>
     text_runes + console_step list"
  pv_mergeAnswers :: "(string \<rightharpoonup> text_runes) \<Rightarrow> (string \<rightharpoonup> text_runes) \<Rightarrow> answers \<Rightarrow>
     (text_runes \<Rightarrow> text_runes) \<Rightarrow> (text_runes \<Rightarrow> text_runes) \<Rightarrow> answers"
  pv_rpcCode :: "method_error \<Rightarrow> int option"
  pv_verdict :: "string \<Rightarrow> (method_error + method_output) \<Rightarrow> bool \<Rightarrow> string \<times> text_runes"

section \<open>Credentials\<close>

definition defaultPasswordKey :: text_runes where "defaultPasswordKey = runes ''JETKVM_PASSWORD''"
definition defaultAuthTokenKey :: text_runes where "defaultAuthTokenKey = runes ''JETKVM_AUTH_TOKEN''"

text \<open>\<open>pv_credential\<close> is the decoded reply of \<open>verb:credential\<close>, \<open>None\<close> for any failure of the call.\<close>

definition credentialLookup :: "host_env \<Rightarrow> nat \<Rightarrow> text_runes \<Rightarrow> text_runes" where
  "credentialLookup h broker key =
    (if key = [] \<or> broker = 0 then []
     else if \<not> pv_executor h broker then []
     else case pv_credential h key of None \<Rightarrow> [] | Some v \<Rightarrow> v)"

text \<open>Its error is always \<open>nil\<close>.\<close>

definition resolveSecret :: "host_env \<Rightarrow> nat \<Rightarrow> text_runes \<Rightarrow> text_runes \<Rightarrow> text_runes" where
  "resolveSecret h broker literal secretKey =
    (if literal \<noteq> [] then literal
     else let key = (if secretKey = [] then defaultPasswordKey else secretKey);
              v = credentialLookup h broker key in
       if v \<noteq> [] then v else pv_getenv h defaultPasswordKey)"

definition resolveAuthToken :: "host_env \<Rightarrow> nat \<Rightarrow> text_runes \<Rightarrow> text_runes" where
  "resolveAuthToken h broker literal =
    (if literal \<noteq> [] then literal
     else let v = credentialLookup h broker defaultAuthTokenKey in
       if v \<noteq> [] then v else pv_getenv h defaultAuthTokenKey)"

section \<open>The device entity\<close>

definition defaultRecipeName :: text_runes where "defaultRecipeName = runes ''install''"

definition paramsRecipesToKit ::
  "(text_runes \<times> JetkvmInstallStep list) list \<Rightarrow> (text_runes \<times> console_step list) list" where
  "paramsRecipesToKit recipes = map (\<lambda>(name, steps). (name, paramsStepsToKit steps)) recipes"

definition resolveDeviceEntity :: "host_env \<Rightarrow> text_runes \<Rightarrow> text_runes + JetkvmDeviceInput" where
  "resolveDeviceEntity h name =
    (let quoted = [34] @ name @ [34] in
     case pv_projectDir h name of
       Inl err \<Rightarrow> Inl (runes ''jetkvm: resolving device entity '' @ quoted @ runes '': '' @ err)
     | Inr dir \<Rightarrow> (case pv_loadProject h dir of
           Inl err \<Rightarrow> Inl (runes ''jetkvm: loading project for device entity '' @ quoted @ runes '': '' @ err)
         | Inr None \<Rightarrow> Inl (runes ''jetkvm: resolving device entity '' @ quoted @
             runes '': no charly.yml loaded from '' @ dir)
         | Inr (Some entities) \<Rightarrow> (case entities name of
               None \<Rightarrow> Inl (runes ''jetkvm: no kind:jetkvm entity named '' @ quoted @ runes '' in '' @ dir)
             | Some body \<Rightarrow> (case pv_decodeDevice h body of
                   Inl err \<Rightarrow> Inl (runes ''jetkvm: decoding kind:jetkvm entity '' @ quoted @ runes '': '' @ err)
                 | Inr dev \<Rightarrow> Inr dev))))"

text \<open>
  The recipe and the answers of \<open>applyDeviceDefaults\<close>, for \<open>install\<close> only. An empty merge leaves
  the answers empty, as they were.
\<close>

definition apply_installer ::
  "host_env \<Rightarrow> nat \<Rightarrow> JetkvmInstaller \<Rightarrow> JetkvmInput \<Rightarrow> text_runes + JetkvmInput" where
  "apply_installer h broker inst inp =
    (let name = (if in_recipe inp = [] then defaultRecipeName else in_recipe inp) in
     case (if in_steps inp = []
           then (case pv_selectRecipe h (paramsRecipesToKit (iv_recipes inst)) (paramsStepsToKit (iv_steps inst)) name of
               Inl err \<Rightarrow> Inl (runes ''jetkvm: device '' @ [34] @ in_device inp @ [34] @ runes '': '' @ err)
             | Inr steps \<Rightarrow> Inr (inp\<lparr>in_steps := consoleStepsToParams steps\<rparr>))
           else Inr inp) of
       Inl err \<Rightarrow> Inl err
     | Inr inp \<Rightarrow> Inr (inp\<lparr>in_answers :=
         pv_mergeAnswers h (iv_answersEnv inst) (iv_answerSecrets inst) (iv_answers inst) (pv_getenv h)
           (credentialLookup h broker) ++ in_answers inp\<rparr>))"

definition applyDeviceDefaults ::
  "host_env \<Rightarrow> nat \<Rightarrow> JetkvmDeviceInput \<Rightarrow> JetkvmInput \<Rightarrow> text_runes + JetkvmInput" where
  "applyDeviceDefaults h broker dev inp =
    (case (case dv_installer dev of
             Some inst \<Rightarrow> (if in_method inp = ''install'' then apply_installer h broker inst inp else Inr inp)
           | None \<Rightarrow> Inr inp) of
       Inl err \<Rightarrow> Inl err
     | Inr inp \<Rightarrow>
        (let inp = (if in_host inp = [] then inp\<lparr>in_host := dv_host dev\<rparr> else inp);
             inp = (if \<not> in_insecure inp \<and> dv_insecure dev then inp\<lparr>in_insecure := True\<rparr> else inp);
             inp = (if in_passwordSecret inp = [] then inp\<lparr>in_passwordSecret := dv_passwordSecret dev\<rparr> else inp)
         in Inr inp))"

definition applyDeviceEntity :: "host_env \<Rightarrow> nat \<Rightarrow> JetkvmInput \<Rightarrow> text_runes + JetkvmInput" where
  "applyDeviceEntity h broker inp =
    (if in_device inp = [] then Inr inp
     else case resolveDeviceEntity h (in_device inp) of
        Inl err \<Rightarrow> Inl err
      | Inr dev \<Rightarrow> applyDeviceDefaults h broker dev inp)"

definition deviceCanonicalJSON :: "host_env \<Rightarrow> byte list \<Rightarrow> text_runes + byte list" where
  "deviceCanonicalJSON h paramsJSON =
    (case (if paramsJSON = []
           then Inr \<lparr>dv_host = [], dv_insecure = False, dv_passwordSecret = [], dv_description = [], dv_installer = None\<rparr>
           else pv_decodeDevice h paramsJSON) of
       Inl err \<Rightarrow> Inl (runes ''jetkvm: decode device entity: '' @ err)
     | Inr dev \<Rightarrow> (case pv_marshalDevice h dev of
           Inl err \<Rightarrow> Inl (runes ''jetkvm: marshal device entity: '' @ err)
         | Inr out \<Rightarrow> Inr out))"

section \<open>One request\<close>

datatype reply_text = Said text_runes | GateSaid message_text

datatype invoke_reply =
    EntityBody "byte list"
  | InvokeError text_runes
  | Verdict string reply_text

record invoke_request =
  ir_load :: bool
  ir_params :: "byte list"
  ir_env :: "byte list"
  ir_broker :: nat

text \<open>The step's own answers, and the two session secrets.\<close>

definition resolve_answers :: "host_env \<Rightarrow> nat \<Rightarrow> JetkvmInput \<Rightarrow> JetkvmInput" where
  "resolve_answers h broker inp =
    (if in_answersEnv inp \<noteq> Map.empty \<or> in_answerSecrets inp \<noteq> Map.empty
     then inp\<lparr>in_answers := pv_mergeAnswers h (in_answersEnv inp) (in_answerSecrets inp) (in_answers inp)
            (pv_getenv h) (credentialLookup h broker)\<rparr>
     else inp)"

definition resolve_session_secrets :: "host_env \<Rightarrow> nat \<Rightarrow> JetkvmInput \<Rightarrow> JetkvmInput" where
  "resolve_session_secrets h broker inp =
    (let inp = (if in_sudoPassword inp = [] \<and> in_sudoPasswordSecret inp \<noteq> []
                then inp\<lparr>in_sudoPassword := resolveSecret h broker [] (in_sudoPasswordSecret inp)\<rparr> else inp)
     in if in_passphrase inp = [] \<and> in_passphraseSecret inp \<noteq> []
        then inp\<lparr>in_passphrase := resolveSecret h broker [] (in_passphraseSecret inp)\<rparr> else inp)"

definition resolve_host :: "host_env \<Rightarrow> jetkvmEnv \<Rightarrow> JetkvmInput \<Rightarrow> text_runes" where
  "resolve_host h je inp =
    (if in_host inp \<noteq> [] then in_host inp
     else if pv_getenv h (runes ''JETKVM_HOST'') \<noteq> [] then pv_getenv h (runes ''JETKVM_HOST'')
     else je_host je)"

definition says :: "JetkvmInput \<Rightarrow> string \<Rightarrow> reply_text" where
  "says inp t = Said (runes ''jetkvm: '' @ runes (in_method inp) @ runes t)"

text \<open>What \<open>dispatch\<close> hands to \<open>Connect\<close>.\<close>

definition connect_options :: "JetkvmInput \<Rightarrow> text_runes \<Rightarrow> text_runes \<Rightarrow> text_runes \<Rightarrow> options" where
  "connect_options inp host password token =
    \<lparr>op_baseURL = NormalizeDeviceURL host, op_password = NewSecret password, op_token = NewSecret token,
     op_allowControl = in_allowControl inp, op_insecureTLS = in_insecure inp\<rparr>"

definition jsonrpcMethodNotFound :: int where "jsonrpcMethodNotFound = -32601"

definition isMethodNotFound :: "host_env \<Rightarrow> method_error \<Rightarrow> bool" where
  "isMethodNotFound h e \<longleftrightarrow> pv_rpcCode h e = Some jsonrpcMethodNotFound"

definition reply_of :: "host_env \<Rightarrow> JetkvmInput \<Rightarrow> (method_error + method_output) \<Rightarrow> invoke_reply" where
  "reply_of h inp r =
    (let judged = (case pv_verdict h (in_method inp) r (in_method inp = ''screenshot'') of
        (status, txt) \<Rightarrow> Verdict status (Said txt)) in
     case r of
       Inr out \<Rightarrow> judged
     | Inl e \<Rightarrow> (case e of
           SkipError reason \<Rightarrow> Verdict ''skip'' (GateSaid reason)
         | _ \<Rightarrow> (if isMethodNotFound h e
                  then Verdict ''skip'' (says inp '': the device firmware does not implement this method'')
                  else judged)))"

text \<open>
  The rest of \<open>Invoke\<close> once the entity's defaults are in. With the reply come what the dispatch did
  and the options it connects with, if it is reached.
\<close>

definition run_step ::
  "host_env \<Rightarrow> engine \<Rightarrow> environment \<Rightarrow> nat \<Rightarrow> jetkvmEnv \<Rightarrow> JetkvmInput \<Rightarrow> trace \<Rightarrow>
   invoke_reply \<times> trace \<times> options option" where
  "run_step h eng env broker je inp0 tr =
    (let inp = resolve_session_secrets h broker (resolve_answers h broker inp0);
         host = resolve_host h je inp in
     if host = [] then (Verdict ''skip'' (says inp '' has no device address''), tr, None)
     else
       let password = resolveSecret h broker (in_password inp) (in_passwordSecret inp);
           token = resolveAuthToken h broker (in_authToken inp) in
       case dispatch eng inp env tr of
         (r, tr') \<Rightarrow> (reply_of h inp r, tr', Some (connect_options inp host password token)))"

definition Invoke ::
  "host_env \<Rightarrow> engine \<Rightarrow> environment \<Rightarrow> invoke_request \<Rightarrow> trace \<Rightarrow> invoke_reply \<times> trace \<times> options option" where
  "Invoke h eng env req tr =
    (if ir_load req then
       (case deviceCanonicalJSON h (ir_params req) of
          Inl err \<Rightarrow> (InvokeError err, tr, None)
        | Inr out \<Rightarrow> (EntityBody out, tr, None))
     else case (if ir_params req = [] then Inr zero_input else pv_decodeOp h (ir_params req)) of
        Inl err \<Rightarrow> (Verdict ''fail'' (Said (runes ''jetkvm: decode op: '' @ err)), tr, None)
      | Inr inp \<Rightarrow>
         (let je = (if ir_env req = [] then \<lparr>je_box = [], je_mode = [], je_host = []\<rparr>
                    else pv_decodeEnv h (ir_env req)) in
          if je_mode je = ''box''
          then (Verdict ''skip'' (says inp '' requires a live device (skip under charly check box)''), tr, None)
          else if in_device inp = [] then run_step h eng env (ir_broker req) je inp tr
          else if \<not> pv_executor h (ir_broker req)
          then (Verdict ''fail'' (says inp '' references a device but the host reverse channel is unavailable''), tr, None)
          else case applyDeviceEntity h (ir_broker req) inp of
             Inl err \<Rightarrow> (Verdict ''fail'' (Said err), tr, None)
           | Inr inp' \<Rightarrow> run_step h eng env (ir_broker req) je inp' tr))"

end
