(* ===== verification/Provider_Properties.thy ===== *)
theory Provider_Properties
  imports Provider
begin

text \<open>
  What an invocation of the verb can reach: without consent it only observes, whatever entity or
  environment it takes defaults from; and which settings a connection is made with.
\<close>

section \<open>What resolving changes\<close>

lemma resolve_answers_keeps [simp]:
  "in_allowControl (resolve_answers h b inp) = in_allowControl inp"
  "in_method (resolve_answers h b inp) = in_method inp"
  "in_artifact (resolve_answers h b inp) = in_artifact inp"
  "in_host (resolve_answers h b inp) = in_host inp"
  "in_insecure (resolve_answers h b inp) = in_insecure inp"
  "in_password (resolve_answers h b inp) = in_password inp"
  "in_passwordSecret (resolve_answers h b inp) = in_passwordSecret inp"
  "in_authToken (resolve_answers h b inp) = in_authToken inp"
  by (simp_all add: resolve_answers_def)

lemma resolve_session_secrets_keeps [simp]:
  "in_allowControl (resolve_session_secrets h b inp) = in_allowControl inp"
  "in_method (resolve_session_secrets h b inp) = in_method inp"
  "in_artifact (resolve_session_secrets h b inp) = in_artifact inp"
  "in_host (resolve_session_secrets h b inp) = in_host inp"
  "in_insecure (resolve_session_secrets h b inp) = in_insecure inp"
  "in_password (resolve_session_secrets h b inp) = in_password inp"
  "in_passwordSecret (resolve_session_secrets h b inp) = in_passwordSecret inp"
  "in_authToken (resolve_session_secrets h b inp) = in_authToken inp"
  by (simp_all add: resolve_session_secrets_def Let_def)

definition no_device :: JetkvmDeviceInput where
  "no_device = \<lparr>dv_host = [], dv_insecure = False, dv_passwordSecret = [], dv_description = [],
     dv_installer = None\<rparr>"

text \<open>What an entity leaves alone, and what it fills in.\<close>

definition filled_from :: "JetkvmDeviceInput \<Rightarrow> JetkvmInput \<Rightarrow> JetkvmInput \<Rightarrow> bool" where
  "filled_from dev inp inp' \<longleftrightarrow>
     in_allowControl inp' = in_allowControl inp \<and> in_method inp' = in_method inp \<and>
     in_artifact inp' = in_artifact inp \<and> in_password inp' = in_password inp \<and>
     in_authToken inp' = in_authToken inp \<and>
     in_host inp' = (if in_host inp = [] then dv_host dev else in_host inp) \<and>
     in_insecure inp' = (in_insecure inp \<or> dv_insecure dev) \<and>
     in_passwordSecret inp' = (if in_passwordSecret inp = [] then dv_passwordSecret dev else in_passwordSecret inp)"

lemma filled_from_none: "filled_from no_device inp inp"
  by (simp add: filled_from_def no_device_def)

lemma apply_installer_keeps:
  assumes "apply_installer h b inst inp = Inr inp'"
  obtains steps ans where "inp' = inp\<lparr>in_steps := steps, in_answers := ans\<rparr>"
proof (cases "in_steps inp = []")
  case True
  with assms that show ?thesis by (fastforce simp: apply_installer_def Let_def split: sum.splits)
next
  case False
  with assms have "inp' = inp\<lparr>in_steps := in_steps inp, in_answers := in_answers inp'\<rparr>"
    by (auto simp: apply_installer_def Let_def)
  with that show ?thesis by blast
qed

lemma applyDeviceDefaults_fills:
  assumes "applyDeviceDefaults h b dev inp = Inr inp'"
  shows "filled_from dev inp inp'"
proof -
  define mid where "mid = (case dv_installer dev of
      Some inst \<Rightarrow> (if in_method inp = ''install'' then apply_installer h b inst inp else Inr inp)
    | None \<Rightarrow> Inr inp)"
  with assms obtain i where i: "mid = Inr i"
    by (cases mid) (auto simp: applyDeviceDefaults_def)
  have "i = inp \<or> (\<exists>steps ans. i = inp\<lparr>in_steps := steps, in_answers := ans\<rparr>)"
    using i unfolding mid_def by (auto split: option.splits if_splits elim: apply_installer_keeps)
  then have keep: "in_allowControl i = in_allowControl inp" "in_method i = in_method inp"
    "in_artifact i = in_artifact inp" "in_password i = in_password inp" "in_authToken i = in_authToken inp"
    "in_host i = in_host inp" "in_insecure i = in_insecure inp" "in_passwordSecret i = in_passwordSecret inp"
    by auto
  have inp': "inp' = (let i1 = (if in_host i = [] then i\<lparr>in_host := dv_host dev\<rparr> else i);
      i2 = (if \<not> in_insecure i1 \<and> dv_insecure dev then i1\<lparr>in_insecure := True\<rparr> else i1)
    in if in_passwordSecret i2 = [] then i2\<lparr>in_passwordSecret := dv_passwordSecret dev\<rparr> else i2)"
    using assms i unfolding applyDeviceDefaults_def mid_def [symmetric] by (simp add: Let_def)
  show ?thesis unfolding filled_from_def keep [symmetric] inp' Let_def
    by (cases "in_host i = []"; cases "in_insecure i"; cases "dv_insecure dev"; cases "in_passwordSecret i = []") simp_all
qed

section \<open>Cases of an invocation\<close>

definition decoded_input :: "host_env \<Rightarrow> invoke_request \<Rightarrow> text_runes + JetkvmInput" where
  "decoded_input h req = (if ir_params req = [] then Inr zero_input else pv_decodeOp h (ir_params req))"

definition deployment_of :: "host_env \<Rightarrow> invoke_request \<Rightarrow> jetkvmEnv" where
  "deployment_of h req = (if ir_env req = [] then \<lparr>je_box = [], je_mode = [], je_host = []\<rparr>
     else pv_decodeEnv h (ir_env req))"

lemma applyDeviceEntity_Inr:
  assumes "applyDeviceEntity h broker inp = Inr inp'" "in_device inp \<noteq> []"
  obtains d where "resolveDeviceEntity h (in_device inp) = Inr d" "filled_from d inp inp'"
proof -
  from assms obtain d where "resolveDeviceEntity h (in_device inp) = Inr d" "applyDeviceDefaults h broker d inp = Inr inp'"
    by (auto simp: applyDeviceEntity_def split: sum.splits)
  then show thesis using that applyDeviceDefaults_fills by blast
qed

text \<open>An invocation that did anything ran one step.\<close>

lemma Invoke_ran:
  assumes "Invoke h eng env req tr = (reply, tr', conn)" "\<not> (tr' = tr \<and> conn = None)"
  obtains inp inp' where "decoded_input h req = Inr inp" "je_mode (deployment_of h req) \<noteq> ''box''"
    "if in_device inp = [] then inp' = inp else applyDeviceEntity h (ir_broker req) inp = Inr inp'"
    "run_step h eng env (ir_broker req) (deployment_of h req) inp' tr = (reply, tr', conn)"
proof (cases "decoded_input h req")
  case (Inl e)
  with assms show ?thesis by (auto simp: Invoke_def decoded_input_def split: if_splits sum.splits)
next
  case (Inr inp)
  with assms show ?thesis
    unfolding Invoke_def decoded_input_def [symmetric] deployment_of_def [symmetric] Let_def
    by (auto intro: that split: if_splits sum.splits)
qed

text \<open>
  An invocation leaves the device alone or runs one step, with the decoded input, filled in from
  the entity it names if it names one.
\<close>

lemma Invoke_cases:
  assumes "Invoke h eng env req tr = (reply, tr', conn)"
  obtains (untouched) "tr' = tr" "conn = None"
  | (step) inp inp' dev where "decoded_input h req = Inr inp" "filled_from dev inp inp'"
      "if in_device inp = [] then dev = no_device else resolveDeviceEntity h (in_device inp) = Inr dev"
      "je_mode (deployment_of h req) \<noteq> ''box''"
      "run_step h eng env (ir_broker req) (deployment_of h req) inp' tr = (reply, tr', conn)"
proof (cases "tr' = tr \<and> conn = None")
  case True
  then show ?thesis by (auto intro: untouched)
next
  case False
  obtain inp inp' where ran: "decoded_input h req = Inr inp" "je_mode (deployment_of h req) \<noteq> ''box''"
      "if in_device inp = [] then inp' = inp else applyDeviceEntity h (ir_broker req) inp = Inr inp'"
      "run_step h eng env (ir_broker req) (deployment_of h req) inp' tr = (reply, tr', conn)"
    using Invoke_ran [OF assms False] .
  show ?thesis
  proof (cases "in_device inp = []")
    case True
    with ran show ?thesis by (auto intro: step [OF ran(1) filled_from_none])
  next
    case dev: False
    with ran(3) obtain d where "resolveDeviceEntity h (in_device inp) = Inr d" "filled_from d inp inp'"
      using applyDeviceEntity_Inr [of h "ir_broker req" inp inp'] by auto
    with ran dev show ?thesis by (auto intro: step [OF ran(1)])
  qed
qed

lemma run_step_cases:
  assumes "run_step h eng env b je inp tr = (reply, tr', conn)"
  defines "inp' \<equiv> resolve_session_secrets h b (resolve_answers h b inp)"
  shows "(resolve_host h je inp' = [] \<and> tr' = tr \<and> conn = None) \<or>
    (resolve_host h je inp' \<noteq> [] \<and> tr' = snd (dispatch eng inp' env tr) \<and>
     conn = Some (connect_options inp' (resolve_host h je inp')
       (resolveSecret h b (in_password inp') (in_passwordSecret inp')) (resolveAuthToken h b (in_authToken inp'))))"
  using assms by (auto simp: run_step_def Let_def split: if_splits prod.splits)

section \<open>Consent\<close>

text \<open>
  C4. Consent is the author's alone. If the step does not say \<open>allow_control\<close>, then whatever
  entity it names and whatever the host's environment, its stores, the device and the console
  engine answer, an invocation sends no key, pointer or wheel event and writes no setting; the
  connection asks for no control; and for a method outside the read-only list nothing is called
  at all.
\<close>

theorem consent_is_the_authors:
  assumes "decoded_input h req = Inr inp" and "\<not> in_allowControl inp"
    and "Invoke h eng env req tr = (reply, tr', conn)"
  shows "\<exists>ex. tr' = tr @ ex \<and> (\<forall>x \<in> set ex. observes (in_artifact inp) (fst x)) \<and>
    (in_method inp \<notin> set readOnlyMethods \<longrightarrow> ex = []) \<and>
    (\<forall>opts. conn = Some opts \<longrightarrow> \<not> op_allowControl opts)"
  using assms(3)
proof (cases rule: Invoke_cases)
  case untouched
  then show ?thesis by simp
next
  case (step i inp' dev)
  let ?inp = "resolve_session_secrets h (ir_broker req) (resolve_answers h (ir_broker req) inp')"
  have keep: "in_allowControl ?inp = in_allowControl inp" "in_method ?inp = in_method inp"
    "in_artifact ?inp = in_artifact inp"
    using step(1,2) assms(1) by (simp_all add: filled_from_def)
  have "\<not> in_allowControl ?inp" using assms(2) unfolding keep .
  note obs = no_control_without_consent [OF this, of eng env tr, unfolded keep]
  from run_step_cases [OF step(5)] show ?thesis
  proof
    assume "resolve_host h (deployment_of h req) ?inp = [] \<and> tr' = tr \<and> conn = None"
    then show ?thesis by simp
  next
    assume d: "resolve_host h (deployment_of h req) ?inp \<noteq> [] \<and> tr' = snd (dispatch eng ?inp env tr) \<and>
      conn = Some (connect_options ?inp (resolve_host h (deployment_of h req) ?inp)
        (resolveSecret h (ir_broker req) (in_password ?inp) (in_passwordSecret ?inp))
        (resolveAuthToken h (ir_broker req) (in_authToken ?inp)))"
    then have "\<forall>opts. conn = Some opts \<longrightarrow> \<not> op_allowControl opts"
      using assms(2) keep(1) by (simp add: connect_options_def)
    with d obs show ?thesis by metis
  qed
qed

section \<open>Settings of the connection\<close>

fun first_given :: "text_runes list \<Rightarrow> text_runes" where
  "first_given [] = []"
| "first_given (t # ts) = (if t \<noteq> [] then t else first_given ts)"

lemma resolveSecret_first:
  "resolveSecret h b literal key =
   first_given [literal, credentialLookup h b (first_given [key, defaultPasswordKey]), pv_getenv h defaultPasswordKey]"
  by (simp add: resolveSecret_def Let_def defaultPasswordKey_def runes_def)

lemma resolveAuthToken_first:
  "resolveAuthToken h b literal =
   first_given [literal, credentialLookup h b defaultAuthTokenKey, pv_getenv h defaultAuthTokenKey]"
  by (simp add: resolveAuthToken_def Let_def)

lemma resolve_host_first:
  "resolve_host h je inp = first_given [in_host inp, pv_getenv h (runes ''JETKVM_HOST''), je_host je]"
  by (simp add: resolve_host_def)

text \<open>
  C38. Where a connection's settings come from. The device is reached only for a live step with an
  address: the first given of the step's host, the entity's, \<open>JETKVM_HOST\<close> and the deployment's.
  The password is the step's literal, else the stored secret under the key of the step, of the
  entity or the default one, else \<open>JETKVM_PASSWORD\<close>; the token likewise; and only the step
  grants control, while TLS checks are off if the step or the entity says so.
\<close>

theorem connection_settings:
  assumes "decoded_input h req = Inr inp" and "Invoke h eng env req tr = (reply, tr', Some opts)"
  shows "\<exists>dev host. (if in_device inp = [] then dev = no_device
      else resolveDeviceEntity h (in_device inp) = Inr dev) \<and> je_mode (deployment_of h req) \<noteq> ''box'' \<and>
    host = first_given [in_host inp, dv_host dev, pv_getenv h (runes ''JETKVM_HOST''), je_host (deployment_of h req)] \<and> host \<noteq> [] \<and>
    opts = \<lparr>op_baseURL = NormalizeDeviceURL host,
      op_password = NewSecret (first_given [in_password inp,
         credentialLookup h (ir_broker req) (first_given [in_passwordSecret inp, dv_passwordSecret dev, defaultPasswordKey]),
         pv_getenv h defaultPasswordKey]),
      op_token = NewSecret (first_given [in_authToken inp,
         credentialLookup h (ir_broker req) defaultAuthTokenKey, pv_getenv h defaultAuthTokenKey]),
      op_allowControl = in_allowControl inp, op_insecureTLS = (in_insecure inp \<or> dv_insecure dev)\<rparr>"
  using assms(2)
proof (cases rule: Invoke_cases)
  case untouched
  then show ?thesis by simp
next
  case (step i inp' dev)
  have i: "i = inp" using step(1) assms(1) by simp
  let ?inp = "resolve_session_secrets h (ir_broker req) (resolve_answers h (ir_broker req) inp')"
  let ?host = "first_given [in_host inp, dv_host dev, pv_getenv h (runes ''JETKVM_HOST''), je_host (deployment_of h req)]"
  note fill = step(2) [unfolded i filled_from_def]
  have host: "resolve_host h (deployment_of h req) ?inp = ?host" using fill by (simp add: resolve_host_first)
  have key: "first_given [in_passwordSecret inp', defaultPasswordKey] =
      first_given [in_passwordSecret inp, dv_passwordSecret dev, defaultPasswordKey]"
    using fill by simp
  have run: "resolve_host h (deployment_of h req) ?inp \<noteq> []" "opts = connect_options ?inp (resolve_host h (deployment_of h req) ?inp)
      (resolveSecret h (ir_broker req) (in_password inp') (in_passwordSecret inp'))
      (resolveAuthToken h (ir_broker req) (in_authToken inp'))"
    using run_step_cases [OF step(5)] by simp_all
  have "opts = \<lparr>op_baseURL = NormalizeDeviceURL ?host,
      op_password = NewSecret (first_given [in_password inp,
         credentialLookup h (ir_broker req) (first_given [in_passwordSecret inp, dv_passwordSecret dev, defaultPasswordKey]),
         pv_getenv h defaultPasswordKey]),
      op_token = NewSecret (first_given [in_authToken inp,
         credentialLookup h (ir_broker req) defaultAuthTokenKey, pv_getenv h defaultAuthTokenKey]),
      op_allowControl = in_allowControl inp, op_insecureTLS = (in_insecure inp \<or> dv_insecure dev)\<rparr>"
    unfolding run(2) host resolveSecret_first resolveAuthToken_first key connect_options_def
    using fill by (simp del: first_given.simps)
  with step(3,4) run(1) i show ?thesis unfolding host by blast
qed

section \<open>Examples\<close>

definition demo_host :: "JetkvmInput \<Rightarrow> host_env" where
  "demo_host inp = \<lparr>pv_getenv = \<lambda>k. if k = defaultPasswordKey then runes ''pw'' else [], pv_executor = \<lambda>_. False,
     pv_credential = \<lambda>_. None, pv_projectDir = \<lambda>_. Inl [], pv_loadProject = \<lambda>_. Inl [],
     pv_decodeDevice = \<lambda>_. Inl [], pv_marshalDevice = \<lambda>_. Inl [], pv_decodeOp = \<lambda>_. Inr inp,
     pv_decodeEnv = \<lambda>_. \<lparr>je_box = [], je_mode = ''live'', je_host = []\<rparr>, pv_selectRecipe = \<lambda>_ steps _. Inr steps,
     pv_mergeAnswers = \<lambda>_ _ ans _ _. ans, pv_rpcCode = \<lambda>_. None, pv_verdict = \<lambda>_ _ _. (''pass'', [])\<rparr>"

definition demo_request :: invoke_request where
  "demo_request = \<lparr>ir_load = False, ir_params = [123], ir_env = [123], ir_broker = 0\<rparr>"

definition demo_input :: "string \<Rightarrow> JetkvmInput" where
  "demo_input m = zero_input\<lparr>in_method := m, in_host := runes ''kvm''\<rparr>"

lemma demo_decoded: "decoded_input (demo_host inp) demo_request = Inr inp"
  by (simp add: decoded_input_def demo_host_def demo_request_def)

lemma demo_runs:
  "\<exists>reply tr' opts. Invoke (demo_host (demo_input m)) (\<lambda>_. Finished (Inl [])) happy demo_request [] = (reply, tr', Some opts)"
  by (simp add: Invoke_def demo_request_def demo_host_def demo_input_def zero_input_def run_step_def Let_def
      resolve_host_def resolve_session_secrets_def resolve_answers_def runes_def split: prod.split)

theorem consent_is_the_authors_witness:
  "\<exists>reply opts. Invoke (demo_host (demo_input ''reboot'')) (\<lambda>_. Finished (Inl [])) happy demo_request [] =
     (reply, [], Some opts) \<and> \<not> op_allowControl opts"
proof -
  obtain reply tr' opts where run: "Invoke (demo_host (demo_input ''reboot'')) (\<lambda>_. Finished (Inl [])) happy
      demo_request [] = (reply, tr', Some opts)" using demo_runs by blast
  have "\<not> in_allowControl (demo_input ''reboot'')" "in_method (demo_input ''reboot'') \<notin> set readOnlyMethods"
    by (simp_all add: demo_input_def zero_input_def readOnlyMethods_def)
  with consent_is_the_authors [OF demo_decoded _ run] run show ?thesis by auto
qed

theorem connection_settings_witness:
  "\<exists>reply tr' opts. Invoke (demo_host (demo_input ''status'')) (\<lambda>_. Finished (Inl [])) happy demo_request [] =
     (reply, tr', Some opts) \<and> op_baseURL opts = NormalizeDeviceURL (runes ''kvm'') \<and>
   op_password opts = NewSecret (runes ''pw'') \<and> op_token opts = NewSecret []"
proof -
  obtain reply tr' opts where run: "Invoke (demo_host (demo_input ''status'')) (\<lambda>_. Finished (Inl [])) happy
      demo_request [] = (reply, tr', Some opts)" using demo_runs by blast
  have "in_device (demo_input ''status'') = []" by (simp add: demo_input_def zero_input_def)
  with connection_settings [OF demo_decoded run] run show ?thesis
    by (auto simp: demo_input_def zero_input_def demo_host_def demo_request_def credentialLookup_def no_device_def
        runes_def defaultPasswordKey_def defaultAuthTokenKey_def)
qed

section \<open>Divergences from the comments\<close>

text \<open>
  A session secret that the store does not have is taken from \<open>JETKVM_PASSWORD\<close>: the device's
  password would be typed on the controlled machine as its sudo password.
\<close>

lemma sudo_password_falls_back:
  assumes "in_sudoPassword inp = []" and "in_sudoPasswordSecret inp \<noteq> []"
    and "credentialLookup h b (in_sudoPasswordSecret inp) = []"
  shows "in_sudoPassword (resolve_session_secrets h b inp) = pv_getenv h defaultPasswordKey"
  using assms by (simp add: resolve_session_secrets_def resolveSecret_def Let_def)

text \<open>
  With a merge in which authored answers win, an answer of the entity beats the one that the
  step's own \<open>answers_env\<close> or \<open>answer_secrets\<close> give.
\<close>

lemma entity_answer_beats_step_environment:
  assumes "apply_installer h b inst inp = Inr inp'"
    and "\<And>env sec ans g s n v. ans n = Some v \<Longrightarrow> pv_mergeAnswers h env sec ans g s n = Some v"
    and "iv_answers inst n = Some v" and "in_answers inp n = None"
  shows "in_answers (resolve_answers h b inp') n = Some v"
proof -
  have "in_answers inp' n = Some v"
    using assms by (auto simp: apply_installer_def Let_def map_add_def split: sum.splits if_splits)
  then show ?thesis using assms(2) by (simp add: resolve_answers_def)
qed

end
