(* ===== verification/Spec2Isabelle.thy ===== *)
theory Spec2Isabelle
  imports Keymap Rtp_Sequence Rtp_Frames Frame_Capture Hid_Lifecycle Lease_Properties Rpc_Properties Report_Properties Redaction_Properties
    Method_Properties Signaling_Properties Session_Live Fake_Properties Screenshot_Properties Provider_Properties
begin

text \<open>
  A model of plugin-jetkvm, the plugin that drives a JetKVM, an IP-KVM appliance, without a browser. The Go
  sources are under \<open>src/candy/plugin-jetkvm\<close>; file names below are relative to it, and those without a
  directory are in \<open>internal/kvmclient\<close>, except \<open>provider.go\<close>, \<open>kind.go\<close>, \<open>credential.go\<close>, \<open>methods.go\<close>,
  \<open>catalog.go\<close>, \<open>install.go\<close> and the verb's own \<open>session.go\<close>, which are in the plugin's root.

  \<^bold>\<open>The program.\<close> The host invokes the verb \<open>jetkvm\<close> with one step. The provider decodes it, takes defaults from
  a device entity, resolves answers and secrets, and dispatches a method. The safety gate decides whether the method
  may run; if so a client connects (web API, signaling websocket, WebRTC session), the method acts through the
  client, and the connection is closed. The session has a JSON-RPC channel, a video track, and, if control was asked
  for, a HID channel that carries key and pointer reports under a lease.

  \<^bold>\<open>Theories, in the order of the layers.\<close>

  \<^item> \<open>Prelude\<close>, \<open>Text\<close>: machine types, lists and words, the interfaces \<open>codec\<close> and \<open>run_invariant\<close>; the
    functions of Go's \<open>strings\<close>, \<open>strconv\<close> and \<open>unicode\<close> that are used.
  \<^item> \<open>Hidproto\<close> (\<open>hidproto/hidproto.go\<close>), \<open>Control_Validation\<close> (\<open>control_validation.go\<close>, \<open>mouse_button.go\<close>,
    \<open>pointer_drag.go\<close>), \<open>Type_String\<close> (\<open>type_string.go\<close>), \<open>Keymap\<close> (\<open>keymap.go\<close>, \<open>keycombo.go\<close>): pure encoders,
    checks and tables. They show round trips with the decoder at the other end, that what passes a check is not
    changed by narrowing it to bytes, and what resolves exactly.
  \<^item> \<open>Hid_Control\<close>, \<open>Hid_System\<close>, \<open>Hid_Steps\<close>, \<open>Hid_Safety\<close>, \<open>Hid_Properties\<close>, \<open>Hid_Lifecycle\<close> (\<open>hid.go\<close>): the
    locked state of the HID client as functions, its goroutines as one transition system, an inductive relation
    with one rule per branch, the invariants by induction over it, and the properties: what the client
    records as held covers what the device may hold, a release that reports success left the device neutral, and input
    needs a live lease. \<open>Lease\<close>, \<open>Lease_Properties\<close> (\<open>owner.go\<close>) put the exclusive lease above it; they use
    the client through the interface \<open>generations\<close>, which \<open>Hid_Properties\<close> interprets.
  \<^item> \<open>Rpc\<close>, \<open>Rpc_Properties\<close> (\<open>rpc.go\<close>): calls, sends and callbacks of the JSON-RPC client as a transition
    system; what an error says about the delivery of the request, and that responses reach their callers.
  \<^item> \<open>Annexb\<close>, \<open>Frame_Capture\<close> (\<open>video.go\<close>), \<open>Rtp\<close>, \<open>Rtp_Sequence\<close>, \<open>Rtp_Frames\<close>, \<open>Sprop\<close> (\<open>h264.go\<close>): the receive
    path from packets to the newest self-contained frame, its waiters, and the trackers of loss and of frame sizes
    against a reference with unbounded packet numbers.
  \<^item> \<open>Vocabulary\<close>, \<open>Diagnostics\<close>, \<open>Video_Report\<close>, \<open>Diagnostics_Properties\<close> (\<open>diagnostics.go\<close>): every recorder
    of the collector, the snapshot and its verdict, over runs of recorders and readers that interleave.
    \<open>Report_Properties\<close>: the steps are those the goroutines of a session make, and what a report can then say.
  \<^item> \<open>Device_Error\<close> (\<open>errors.go\<close>, \<open>redact.go\<close>, \<open>compat.go\<close>), \<open>Http_Client\<close> (\<open>url.go\<close>, \<open>http.go\<close>), \<open>Signaling\<close>,
    \<open>Signaling_Properties\<close> (\<open>signaling.go\<close>, the candidate exchange of \<open>session.go\<close>): error values as a datatype with
    their messages and kinds, the checked URL and the requests with their redirects, the pump of remote candidates and the gate of the
    local ones. \<open>Redaction\<close>, \<open>Redaction_Properties\<close>: the three patterns with the matching of Go's \<open>regexp\<close>, which make up
    the \<open>redactor\<close> that the other theories take as an argument, and that no token survives it.
  \<^item> \<open>Session_Setup\<close>, \<open>Session_Properties\<close>, \<open>Session_Live\<close> (\<open>session.go\<close>, \<open>client.go\<close>): the stages of a session
    and of \<open>Connect\<close> with what is closed when one fails, and the callbacks of the running session over the HID client and
    the frame store. \<open>Decoder\<close>, \<open>Screenshot\<close>, \<open>Screenshot_Properties\<close> (\<open>decoder.go\<close>, \<open>client.go\<close>): a
    screenshot from the wait for a frame to the atomic save.
  \<^item> \<open>Fake_Device\<close>, \<open>Wire_Capture\<close>, \<open>Fake_Properties\<close> (\<open>internal/fakedevice/fakedevice.go\<close>): the loopback device of the
    end-to-end tests, with its capture of frames as a transition system; the client's \<open>Connect\<close> composed with its
    handlers, and that the tests see the frames as they arrived.
  \<^item> \<open>Params\<close> (\<open>params/cue_types_gen.go\<close>), \<open>Actions\<close>, \<open>Catalog\<close> (\<open>catalog.go\<close>, \<open>ocr.go\<close>), \<open>Dispatch\<close> (\<open>methods.go\<close>,
    \<open>install.go\<close>, the verb's \<open>session.go\<close>), \<open>Safety_Gate\<close>, \<open>Method_Properties\<close>: the methods as computations that append
    their calls to a trace while the environment answers; what no input, device or console engine can make them do.
    The interface \<open>trace_property\<close> gives one rule per combinator. \<open>Provider\<close>, \<open>Provider_Properties\<close> (\<open>provider.go\<close>,
    \<open>kind.go\<close>, \<open>credential.go\<close>): one invocation, from the request to the dispatch.

  \<^bold>\<open>Conventions.\<close> Go's \<open>byte\<close>, \<open>uint16\<close>, \<open>uint32\<close> and \<open>uint64\<close> are words and wrap; \<open>int\<close> is \<open>int\<close>, or a 64-bit
  word where a check is about overflow (\<open>Decoder\<close>). A text is the list of the code points that \<open>range\<close> yields,
  with a number beyond all code points for each byte that is no UTF-8 (\<open>raw_byte\<close>).
  Errors are the left side of a sum, or an option. A concurrent object is a state, a partial step function that takes
  an event, and a reachability predicate; the event resolves every choice (the case of a \<open>select\<close>, the success of a
  call), so all interleavings are runs. A field that starts with \<open>g_\<close> is an observation that no step reads.
  A function of the environment answers from the whole history where it matters, so nothing is assumed of it.

  \<^bold>\<open>Bounds.\<close> No fuel is used: every recursion is on a list of inputs, observations or stages, and a call that goes on
  waiting is a separate result. A release has at most four own
  steps left once its context has ended, a handshake two. Freshness of lease tokens and of request identifiers holds below \<open>2 ^ 64\<close> of
  them, which the theorems state; a frame is newer when its generation number is larger, as in the code.

  \<^bold>\<open>Assumptions.\<close> The WebRTC data channel keeps the order of frames, \<open>BufferedAmount\<close> counts the accepted bytes that are not
  acknowledged, and a failed \<open>Send\<close> may or may not have accepted the frame. \<open>http.Client\<close> without a
  \<open>CheckRedirect\<close> follows redirects as \<open>net/http\<close> documents, ten requests at most. The state texts of the WebRTC
  library are those its documentation lists. Parameter sets of the SDP may contain start codes, as the parser admits
  them. A release takes its lifecycle slot and its first locked section in one step: a context that ends between the
  two shows as one that ends right after. In the theorem about the fake device an answer that it writes arrives
  whole, and the requests are not redirected. \<open>os.CreateTemp\<close> makes a new file and a
  rename is atomic. The rest is a parameter: JSON, base64, URLs, IP addresses, PNG and ffmpeg, the Unicode
  tables, the sample builder, the peer connection, and the SDK's console engine, recipe selection, merge of
  answers, required-field check and verdict.

  \<^bold>\<open>Not modelled.\<close> The cookie jar's rule for which host gets a cookie, and TLS settings, which are the HTTP library's;
  \<open>plugin.go\<close> and \<open>cmd/serve\<close>, which register the provider; time values other than those that a
  result carries. The callback on a low send buffer is a step of the writer that may run at any time.
\<close>

end
